(* ===== verification/Prelude.thy ===== *)
theory Prelude
  imports Main
begin

section \<open>Shared automation and generic lemmas\<close>

text \<open>
  What every component of the development uses: the theorem collections, the rendering of
  integers (Go's \<open>%d\<close>), optional values as SQL sees them (\<open>nullif\<close>, \<open>coalesce\<close>) and the
  relational reading of an SQL \<open>update\<close>, \<open>delete\<close> or single-row \<open>select\<close> over a table that
  is a list of rows. A statement returns the number of rows it affected, as
  \<open>pgconn.CommandTag.RowsAffected\<close> does.
\<close>

named_theorems defs \<open>definitions of the operations of the model\<close>
named_theorems frame \<open>what an operation leaves unchanged\<close>
named_theorems ext_intros \<open>rules that build the extension order on states\<close>

subsection \<open>Integers as text\<close>

definition digit_char :: "nat \<Rightarrow> char" where
  "digit_char d = char_of (48 + d)"

fun show_nat :: "nat \<Rightarrow> string" where
  "show_nat n = (if n < 10 then [digit_char n] else show_nat (n div 10) @ [digit_char (n mod 10)])"

declare show_nat.simps [simp del]

definition show_int :: "int \<Rightarrow> string" where
  "show_int i = (if i < 0 then CHR ''-'' # show_nat (nat (- i)) else show_nat (nat i))"

lemma show_nat_not_empty [simp]: "show_nat n \<noteq> []"
  by (subst show_nat.simps) simp

subsection \<open>Optional values in SQL\<close>

text \<open>\<open>nullif(x, '')\<close> and \<open>coalesce(a, b)\<close>.\<close>

definition nullif_empty :: "string \<Rightarrow> string option" where
  "nullif_empty x = (if x = [] then None else Some x)"

definition coalesce :: "'a option \<Rightarrow> 'a option \<Rightarrow> 'a option" where
  "coalesce a b = (case a of None \<Rightarrow> b | Some _ \<Rightarrow> a)"

lemma coalesce_simps [simp]: "coalesce None b = b" "coalesce (Some x) b = Some x"
  by (simp_all add: coalesce_def)

lemma nullif_empty_None [simp]: "nullif_empty [] = None"
  by (simp add: nullif_empty_def)

lemma nullif_empty_Some [simp]: "x \<noteq> [] \<Longrightarrow> nullif_empty x = Some x"
  by (simp add: nullif_empty_def)

subsection \<open>Tables as lists of rows\<close>

definition sql_update :: "('r \<Rightarrow> bool) \<Rightarrow> ('r \<Rightarrow> 'r) \<Rightarrow> 'r list \<Rightarrow> nat \<times> 'r list" where
  "sql_update P f rows = (length (filter P rows), map (\<lambda>r. if P r then f r else r) rows)"

definition sql_delete :: "('r \<Rightarrow> bool) \<Rightarrow> 'r list \<Rightarrow> nat \<times> 'r list" where
  "sql_delete P rows = (length (filter P rows), filter (\<lambda>r. \<not> P r) rows)"

definition sql_select_one :: "('r \<Rightarrow> bool) \<Rightarrow> 'r list \<Rightarrow> 'r option" where
  "sql_select_one P rows = find P rows"

definition sql_exists :: "('r \<Rightarrow> bool) \<Rightarrow> 'r list \<Rightarrow> bool" where
  "sql_exists P rows = list_ex P rows"

lemma fst_sql_update [simp]: "fst (sql_update P f rows) = length (filter P rows)"
  and snd_sql_update [simp]: "snd (sql_update P f rows) = map (\<lambda>r. if P r then f r else r) rows"
  by (simp_all add: sql_update_def)

lemma sql_update_none:
  "\<forall>r \<in> set rows. \<not> P r \<Longrightarrow> sql_update P f rows = (0, rows)"
  by (simp add: sql_update_def filter_empty_conv map_idI)

lemma sql_select_one_SomeD:
  "sql_select_one P rows = Some r \<Longrightarrow> r \<in> set rows \<and> P r"
  by (auto simp: sql_select_one_def find_Some_iff)

lemma sql_select_one_None_iff:
  "sql_select_one P rows = None \<longleftrightarrow> (\<forall>r \<in> set rows. \<not> P r)"
  by (auto simp: sql_select_one_def find_None_iff)

lemma sql_exists_iff [simp]: "sql_exists P rows \<longleftrightarrow> (\<exists>r \<in> set rows. P r)"
  by (simp add: sql_exists_def list_ex_iff)

text \<open>An update that keeps the key finds the updated row where it found the old one.\<close>

lemma find_map_key:
  assumes "\<And>r. key (f r) = key r"
  shows "find (\<lambda>r. key r = k) (map f rows) = map_option f (find (\<lambda>r. key r = k) rows)"
  by (induction rows) (auto simp: assms)

lemma find_append:
  "find P (xs @ ys) = (case find P xs of None \<Rightarrow> find P ys | Some x \<Rightarrow> Some x)"
  by (induction xs) auto

lemma sql_select_one_map_key:
  assumes "\<And>r. key (f r) = key r"
  shows "sql_select_one (\<lambda>r. key r = k) (map f rows) =
    map_option f (sql_select_one (\<lambda>r. key r = k) rows)"
  by (simp add: sql_select_one_def find_map_key [where f = f and key = key, OF assms])

lemma sql_select_one_unique:
  assumes "distinct (map key rows)" and "r \<in> set rows"
  shows "sql_select_one (\<lambda>x. key x = key r) rows = Some r"
  using assms
  by (induction rows) (auto simp: sql_select_one_def image_iff)

lemma length_filter_map_id:
  assumes "\<And>r. P (f r) = P r"
  shows "length (filter P (map f rows)) = length (filter P rows)"
  by (induction rows) (simp_all add: assms)

lemma unique_filter_length:
  assumes "distinct xs" and "r \<in> set xs" and "\<And>x. x \<in> set xs \<Longrightarrow> P x \<Longrightarrow> x = r"
  shows "length (filter P xs) = (if P r then 1 else 0)"
proof -
  have "filter P xs = (if P r then filter ((=) r) xs else [])"
    using assms(3) by (auto intro!: filter_cong simp: filter_empty_conv)
  also have "filter ((=) r) xs = [r]"
    using assms(1,2) by (induction xs) (auto simp: filter_empty_conv)
  finally show ?thesis by simp
qed

end
