(* ===== verification/Model.thy ===== *)
theory Model
  imports Prelude
begin

section \<open>The data model and the environment\<close>

text \<open>
  The tables of \<open>migrations/\<close> as records, the Go struct \<open>saga.Payment\<close>, the errors the code
  distinguishes, and the environment: everything the service calls that is not its own code.
  A field of \<open>env\<close> is one such call; it takes the environment's private state \<open>'w\<close> and
  returns an answer and the next state, so answers may differ from call to call. A \<open>sys\<close> is
  the state of the running service: its database, its in-process bus, the goroutines it has
  started, the history of its money calls (a ghost list no operation reads) and \<open>'w\<close>.
  Times are nanoseconds since the Unix epoch, durations are nanoseconds.
\<close>

type_synonym uuid = nat
type_synonym time = int
type_synonym duration = int

definition seconds :: "int \<Rightarrow> duration" where
  "seconds n = n * 1000000000"

subsection \<open>Payments\<close>

text \<open>The values the check constraints of the payments table allow.\<close>

datatype status = RequiresAction | Processing | Succeeded | Failed | Canceled | Refunded

datatype saga_step = Requested | FraudScreened | FundsHeld | SubmittedToGateway | PspCaptured
  | Captured | Recorded | Notified | Compensating | Done

fun step_rank :: "saga_step \<Rightarrow> nat" where
  "step_rank Requested = 0"
| "step_rank FraudScreened = 1"
| "step_rank FundsHeld = 2"
| "step_rank SubmittedToGateway = 3"
| "step_rank PspCaptured = 4"
| "step_rank Captured = 5"
| "step_rank Recorded = 6"
| "step_rank Notified = 7"
| "step_rank Compensating = 8"
| "step_rank Done = 9"

lemma step_rank_inj: "step_rank a = step_rank b \<Longrightarrow> a = b"
  by (cases a; cases b) simp_all

text \<open>The steps in the order in which the constraint lists them.\<close>

instantiation saga_step :: linorder
begin

definition less_eq_saga_step :: "saga_step \<Rightarrow> saga_step \<Rightarrow> bool" where
  "less_eq_saga_step a b \<longleftrightarrow> step_rank a \<le> step_rank b"

definition less_saga_step :: "saga_step \<Rightarrow> saga_step \<Rightarrow> bool" where
  "less_saga_step a b \<longleftrightarrow> step_rank a < step_rank b"

instance
  by standard (auto simp: less_eq_saga_step_def less_saga_step_def dest: step_rank_inj)

end

record payment_row =
  pr_id :: uuid
  pr_user_id :: uuid
  pr_account_id :: uuid
  pr_merchant_id :: string
  pr_instrument_id :: uuid
  pr_amount :: int
  pr_currency :: string
  pr_fx_quote_id :: "uuid option"
  pr_status :: status
  pr_step :: saga_step
  pr_hold_id :: "uuid option"
  pr_psp_reference :: "string option"
  pr_failure_code :: "string option"
  pr_failure_detail :: "string option"
  pr_risk_score :: "int option"
  pr_version :: int
  pr_created_at :: time
  pr_updated_at :: time

text \<open>A \<open>numeric\<close> value is kept as its text.\<close>

record instrument_row =
  in_id :: uuid
  in_method :: string
  in_brand :: "string option"
  in_last4 :: "string option"
  in_exp_month :: "int option"
  in_exp_year :: "int option"
  in_gateway_token :: string

record merchant_row =
  mc_id :: string
  mc_display_name :: string
  mc_category :: string

record rate_row =
  rt_id :: uuid
  rt_base :: string
  rt_quote :: string
  rt_rate :: string
  rt_valid_from :: time

record fx_quote_row =
  fx_id :: uuid
  fx_base :: string
  fx_quote :: string
  fx_rate :: string
  fx_rate_id :: uuid
  fx_created_at :: time
  fx_expires_at :: time

text \<open>The saga aggregate as \<open>load\<close> reads it: the row joined with its instrument.\<close>

record payment =
  ID :: uuid
  UserID :: uuid
  AccountID :: uuid
  MerchantID :: string
  InstrumentID :: uuid
  Method :: string
  Token :: string
  Amount :: int
  Currency :: string
  FxQuoteID :: "uuid option"
  Status :: status
  Step :: saga_step
  HoldID :: "uuid option"
  PSPReference :: "string option"
  RiskScore :: "int option"

subsection \<open>Outbox, bus and idempotency rows\<close>

datatype json = JNull | JString string | JInt int

type_synonym payload = "(string \<times> json) list"

record outbox_row =
  ob_id :: uuid
  ob_aggregatetype :: string
  ob_aggregateid :: string
  ob_type :: string
  ob_payload :: payload
  ob_created_at :: time
  ob_processed_at :: "time option"

record update =
  u_payment_id :: string
  u_status :: status
  u_step :: saga_step

text \<open>
  \<open>pubsub.Bus\<close>: payment id to its subscribers' channels. A channel is its identity (Go channels
  are compared by identity, so \<open>make\<close> takes the next number) and the updates in its buffer.
\<close>

type_synonym chan = "nat \<times> update list"

record bus =
  next_chan :: nat
  subs :: "string \<rightharpoonup> chan list"

record idem_row =
  ik_key :: string
  ik_user_id :: uuid
  ik_request_hash :: string
  ik_response_code :: "int option"
  ik_response_body :: string
  ik_locked_at :: "time option"
  ik_created_at :: time

record database =
  payments :: "payment_row list"
  instruments :: "instrument_row list"
  merchants :: "merchant_row list"
  exchange_rates :: "rate_row list"
  fx_quotes :: "fx_quote_row list"
  outbox :: "outbox_row list"
  idempotency_keys :: "idem_row list"
  processed_events :: "uuid list"

subsection \<open>Errors\<close>

text \<open>
  One constructor per error the code makes or tests for with \<open>errors.Is\<close> or
  \<open>status.Code\<close>. \<open>Unavailable\<close> is any error that wraps \<open>psp.ErrUnavailable\<close>, with the rest of
  its text, and likewise for the three errors of \<open>events/validate.go\<close>; \<open>JsonError\<close> and
  \<open>UuidError\<close> are what decoding and \<open>uuid.Parse\<close> return, without the text; \<open>Poison\<close> is the
  consumer's \<open>poisonError\<close>; \<open>Wrapped\<close> is \<open>fmt.Errorf("...: %w", err)\<close>.
\<close>

datatype rpc_code = FailedPrecondition | OtherCode nat

datatype go_error =
    DbError
  | NoRows
  | ConcurrentTransition uuid
  | NoLongerProcessing uuid
  | NotResumable
  | Unavailable string
  | DeadlineExceeded
  | ContextCanceled
  | PlainError string
  | BreakerOpen
  | BreakerTooMany
  | JsonError
  | UuidError
  | SchemaInvalid string
  | UnknownSchema string
  | RegistryUnavailable string
  | Poison go_error
  | Wrapped string go_error

text \<open>\<open>errors.Is\<close> follows the wrapping.\<close>

fun is_unavailable :: "go_error \<Rightarrow> bool" where
  "is_unavailable (Unavailable _) = True"
| "is_unavailable (Wrapped _ e) = is_unavailable e"
| "is_unavailable _ = False"

fun is_deadline :: "go_error \<Rightarrow> bool" where
  "is_deadline DeadlineExceeded = True"
| "is_deadline (Wrapped _ e) = is_deadline e"
| "is_deadline _ = False"

fun is_breaker :: "go_error \<Rightarrow> bool" where
  "is_breaker BreakerOpen = True"
| "is_breaker BreakerTooMany = True"
| "is_breaker (Wrapped _ e) = is_breaker e"
| "is_breaker _ = False"

subsection \<open>Requests and answers of the services the code calls\<close>

text \<open>The protobuf messages of the fraud and account services, as the code fills them.\<close>

datatype decision = DECISION_APPROVE | DECISION_STEP_UP | DECISION_HOLD | DECISION_OTHER nat

record score_request =
  sq_payment_id :: string
  sq_user_id :: string
  sq_account_id :: string
  sq_amount_minor_units :: int
  sq_currency_code :: string
  sq_merchant_id :: string
  sq_payment_method :: string
  sq_requested_at_unix_ms :: int

record score_response =
  sr_decision :: decision
  sr_risk_score :: int

record hold_request =
  hr_request_id :: string
  hr_account_id :: string
  hr_payment_id :: string
  hr_minor_units :: int
  hr_currency_code :: string

record capture_request =
  cr_request_id :: string
  cr_hold_id :: string
  cr_minor_units :: int
  cr_currency_code :: string

record release_request =
  rr_request_id :: string
  rr_hold_id :: string
  rr_reason :: string

text \<open>
  The processor over HTTP: a request that cannot be built, a transport error, or a status
  with the text of the body and the body as JSON, when it decodes.
\<close>

record authorize_req =
  aq_reference :: string
  aq_amount_minor :: int
  aq_currency :: string
  aq_method :: string
  aq_token :: string

record authorize_resp =
  ap_psp_reference :: string
  ap_outcome :: string
  ap_decline_code :: string
  ap_pending :: bool

datatype http_reply =
    BadRequestURL string
  | TransportError string
  | HttpReply int string "authorize_resp option"

text \<open>\<open>psp.Outcome\<close> is a string type; \<open>OutcomeEmpty\<close> is its zero value.\<close>

datatype outcome = OutcomeEmpty | OutcomeApproved | OutcomeDeclined | OutcomePending

record auth_result =
  Outcome :: outcome
  Ref :: string
  DeclineCode :: string

datatype refusal = ErrOpenState | ErrTooManyRequests
datatype ctx_error = CtxDeadline | CtxCanceled

text \<open>
  The history of the money calls, oldest first, each with the id of the payment it was made
  for where the request itself does not carry it.
\<close>

datatype call =
    CallScore score_request
  | CallHold hold_request "rpc_code + string"
  | CallAuthorize uuid "go_error + auth_result"
  | CallPspCapture uuid string "go_error option"
  | CallLedgerCapture capture_request "rpc_code + string"
  | CallRelease release_request "rpc_code option"

text \<open>A plain GET: a request that cannot be built or sent, or a status and the bytes of the body.\<close>

datatype get_reply =
    GetBadURL string
  | GetFailed string
  | GetReply int string

text \<open>\<open>kgo.Record\<close>; keys, values and header values are bytes.\<close>

record kafka_record =
  kr_topic :: string
  kr_key :: string
  kr_value :: string
  kr_headers :: "(string \<times> string) list"
  kr_partition :: int
  kr_offset :: int

text \<open>\<open>saga.Snapshot\<close>, the last result of the settlement reconciliation.\<close>

record snapshot =
  sn_status :: string
  sn_ran_at :: string
  sn_report_since :: string
  sn_settled_not_booked :: int
  sn_booked_not_settled :: int
  sn_double_settled :: int
  sn_out_of_coverage :: int
  sn_detail :: string

subsection \<open>The environment and the running service\<close>

text \<open>
  What happens to a transaction or a single statement: it takes effect and the client learns
  so; it has no effect and the client gets an error; it takes effect and the connection is
  lost before the client learns so. \<open>jsonb_norm\<close> is what the database makes of a text stored in a
  column of type \<open>jsonb\<close>, \<open>numeric_inverse\<close> its \<open>(1/rate)::numeric(18,8)::text\<close>, \<open>text_le\<close> the
  order of texts under its collation. The \<open>js_\<close> fields
  are the JSON Schema library: reading a document, adding a schema to a compiler under a name,
  compiling it (which may load what it refers to) and validating a document; each gives the text
  of its error, if there is one. \<open>sprint_error\<close> is \<open>fmt.Sprint\<close> on an error.
\<close>

datatype db_outcome = DbOk | DbFail | DbAckLost

record 'w env =
  clock :: "'w \<Rightarrow> time"
  db_commit :: "'w \<Rightarrow> db_outcome \<times> 'w"
  db_read :: "'w \<Rightarrow> bool \<times> 'w"
  uuid_str :: "uuid \<Rightarrow> string"
  uuid_parse :: "string \<Rightarrow> uuid option"
  uuid_new :: "'w \<Rightarrow> uuid \<times> 'w"
  decision_str :: "decision \<Rightarrow> string"
  score_rpc :: "score_request \<Rightarrow> 'w \<Rightarrow> (rpc_code + score_response) \<times> 'w"
  hold_rpc :: "hold_request \<Rightarrow> 'w \<Rightarrow> (rpc_code + string) \<times> 'w"
  capture_rpc :: "capture_request \<Rightarrow> 'w \<Rightarrow> (rpc_code + string) \<times> 'w"
  release_rpc :: "release_request \<Rightarrow> 'w \<Rightarrow> rpc_code option \<times> 'w"
  http_authorize :: "string \<Rightarrow> authorize_req \<Rightarrow> 'w \<Rightarrow> http_reply \<times> 'w"
  http_post :: "string \<Rightarrow> 'w \<Rightarrow> http_reply \<times> 'w"
  breaker_admit :: "string \<times> bool \<Rightarrow> 'w \<Rightarrow> refusal option \<times> 'w"
  breaker_record :: "string \<times> bool \<Rightarrow> bool \<Rightarrow> 'w \<Rightarrow> 'w"
  rand_intn :: "nat \<Rightarrow> 'w \<Rightarrow> nat \<times> 'w"
  wait_backoff :: "duration \<Rightarrow> 'w \<Rightarrow> ctx_error option \<times> 'w"
  fail_open_limit :: int
  psp_base :: string
  jsonb_norm :: "string \<Rightarrow> string"
  numeric_inverse :: "string \<Rightarrow> string"
  text_le :: "string \<Rightarrow> string \<Rightarrow> bool"
  http_get :: "string \<Rightarrow> 'w \<Rightarrow> get_reply \<times> 'w"
  produce_sync :: "kafka_record \<Rightarrow> 'w \<Rightarrow> string option \<times> 'w"
  kafka_ping :: "'w \<Rightarrow> bool \<times> 'w"
  ctx_done :: "'w \<Rightarrow> bool \<times> 'w"
  kafka_poll :: "'w \<Rightarrow> (string list + kafka_record list) \<times> 'w"
  kafka_commit :: "'w \<Rightarrow> string option \<times> 'w"
  registry_base :: string
  sprint_error :: "go_error \<Rightarrow> string"
  js_document :: "string \<Rightarrow> string option"
  js_add :: "string \<Rightarrow> string \<Rightarrow> string option"
  js_compile :: "string \<Rightarrow> string \<Rightarrow> 'w \<Rightarrow> string option \<times> 'w"
  js_validate :: "string \<Rightarrow> string \<Rightarrow> string option"

text \<open>
  The caches of \<open>events.Registry\<close> (topic to schema id) and \<open>events.Validator\<close> (schema id to
  compiled schema, which is its text here), the reconciler's last result, and a second ghost
  list: the records the broker acknowledged, oldest first.
\<close>

record 'w sys =
  db :: database
  bus :: bus
  spawned :: "uuid list"
  calls :: "call list"
  schema_ids :: "string \<rightharpoonup> int"
  schemas :: "int \<rightharpoonup> string"
  last_snapshot :: snapshot
  produced :: "kafka_record list"
  world :: 'w

definition log_call :: "call \<Rightarrow> 'w sys \<Rightarrow> 'w sys" where
  "log_call c s = s\<lparr>calls := calls s @ [c]\<rparr>"

lemma log_call_simps [simp]:
  "db (log_call c s) = db s" "bus (log_call c s) = bus s" "spawned (log_call c s) = spawned s"
  "calls (log_call c s) = calls s @ [c]" "world (log_call c s) = world s"
  "produced (log_call c s) = produced s"
  by (simp_all add: log_call_def)

text \<open>
  Calling the environment: the answer, and the service with the environment moved on. A
  network call, a query and a statement all go through it.
\<close>

definition ask :: "('w \<Rightarrow> 'a \<times> 'w) \<Rightarrow> 'w sys \<Rightarrow> 'a \<times> 'w sys" where
  "ask f s = (case f (world s) of (a, w) \<Rightarrow> (a, s\<lparr>world := w\<rparr>))"

lemma ask_frame [simp]:
  "db (snd (ask f s)) = db s" "bus (snd (ask f s)) = bus s"
  "spawned (snd (ask f s)) = spawned s" "calls (snd (ask f s)) = calls s"
  "produced (snd (ask f s)) = produced s"
  by (simp_all add: ask_def split: prod.splits)

lemma ask_eqD:
  "ask f s = (a, s') \<Longrightarrow>
     db s' = db s \<and> bus s' = bus s \<and> spawned s' = spawned s \<and> calls s' = calls s
       \<and> produced s' = produced s \<and> f (world s) = (a, world s')"
  by (auto simp: ask_def split: prod.splits)

lemma ask_caches:
  "ask f s = (a, s') \<Longrightarrow>
     schema_ids s' = schema_ids s \<and> schemas s' = schemas s \<and> last_snapshot s' = last_snapshot s
       \<and> produced s' = produced s"
  by (auto simp: ask_def split: prod.splits)

lemma fst_ask: "fst (ask f s) = fst (f (world s))"
  by (simp add: ask_def split: prod.split)

lemma ask_answer: "fst (f (world s)) = a \<Longrightarrow> \<exists>t. ask f s = (a, t)"
  by (metis fst_ask prod.collapse)

text \<open>An operation that leaves the data and both histories alone; caches may change.\<close>

definition untouched :: "'w sys \<Rightarrow> 'w sys \<Rightarrow> bool" where
  "untouched s s' \<longleftrightarrow> db s' = db s \<and> bus s' = bus s \<and> spawned s' = spawned s \<and> calls s' = calls s
     \<and> produced s' = produced s \<and> last_snapshot s' = last_snapshot s"

lemma untouched_refl [simp]: "untouched s s"
  by (simp add: untouched_def)

lemma untouched_trans: "untouched s t \<Longrightarrow> untouched t u \<Longrightarrow> untouched s u"
  by (simp add: untouched_def)

lemma untouched_caches [simp]:
  "untouched s (t\<lparr>schema_ids := m\<rparr>) = untouched s t" "untouched s (t\<lparr>schemas := n\<rparr>) = untouched s t"
  by (simp_all add: untouched_def)

lemma ask_untouched:
  "ask f s = (a, s') \<Longrightarrow> untouched s s' \<and> schema_ids s' = schema_ids s \<and> schemas s' = schemas s"
  using ask_eqD ask_caches by (fastforce simp: untouched_def)

lemma untouchedD:
  "untouched s s' \<Longrightarrow> db s' = db s \<and> bus s' = bus s \<and> spawned s' = spawned s \<and> calls s' = calls s
     \<and> produced s' = produced s \<and> last_snapshot s' = last_snapshot s"
  by (simp add: untouched_def)

end
