(* ===== verification/PubSub.thy ===== *)
theory PubSub
  imports Model "HOL-Library.Sublist"
begin

section \<open>The in-process status broadcast\<close>

text \<open>
  \<open>internal/pubsub/pubsub.go\<close>: \<open>New\<close>, \<open>Subscribe\<close>, the unsubscribe function it returns, and
  \<open>Publish\<close>, which drops an update for a subscriber whose buffer is full rather than block the
  saga. \<open>recv\<close> is the receive of the SSE handler on its channel. The mutex makes each of them
  one step. The lemmas: the shape invariant of the subscriber table, and the contract of the
  broadcast, a locale interpreted on these operations.
\<close>

definition chan_cap :: nat where
  "chan_cap = 8"

definition bus_new :: bus where
  "bus_new = \<lparr>next_chan = 0, subs = Map.empty\<rparr>"

definition chans_of :: "string \<Rightarrow> bus \<Rightarrow> chan list" where
  "chans_of pid b = (case subs b pid of None \<Rightarrow> [] | Some cs \<Rightarrow> cs)"

definition subscribe :: "string \<Rightarrow> bus \<Rightarrow> nat \<times> bus" where
  "subscribe pid b =
     (next_chan b,
      b\<lparr>next_chan := Suc (next_chan b),
        subs := (subs b)(pid \<mapsto> chans_of pid b @ [(next_chan b, [])])\<rparr>)"

definition unsubscribe :: "string \<Rightarrow> nat \<Rightarrow> bus \<Rightarrow> bus" where
  "unsubscribe pid ch b =
     (let cs = filter (\<lambda>(c, q). c \<noteq> ch) (chans_of pid b)
      in b\<lparr>subs := (subs b)(pid := (if cs = [] then None else Some cs))\<rparr>)"

definition offer :: "update \<Rightarrow> chan \<Rightarrow> chan" where
  "offer u cq = (case cq of (c, q) \<Rightarrow> (if length q < chan_cap then (c, q @ [u]) else (c, q)))"

definition publish :: "update \<Rightarrow> bus \<Rightarrow> bus" where
  "publish u b =
     (case subs b (u_payment_id u) of
        None \<Rightarrow> b
      | Some cs \<Rightarrow> b\<lparr>subs := (subs b)(u_payment_id u \<mapsto> map (offer u) cs)\<rparr>)"

definition buffer :: "string \<Rightarrow> nat \<Rightarrow> bus \<Rightarrow> update list option" where
  "buffer pid ch b = map_of (chans_of pid b) ch"

definition recv :: "string \<Rightarrow> nat \<Rightarrow> bus \<Rightarrow> update option \<times> bus" where
  "recv pid ch b =
     (case buffer pid ch b of
        Some (u # q) \<Rightarrow>
          (Some u, b\<lparr>subs := (subs b)(pid \<mapsto>
             map (\<lambda>(c, r). if c = ch then (c, q) else (c, r)) (chans_of pid b))\<rparr>)
      | _ \<Rightarrow> (None, b))"

subsection \<open>Shape of the subscriber table\<close>

text \<open>
  No payment is kept with an empty set of subscribers, channel identities are distinct and
  below the next one, and no buffer exceeds its capacity.
\<close>

definition chans_ok :: "nat \<Rightarrow> chan list \<Rightarrow> bool" where
  "chans_ok n cs \<longleftrightarrow> distinct (map fst cs) \<and> (\<forall>(c, q) \<in> set cs. c < n \<and> length q \<le> chan_cap)"

definition bus_ok :: "bus \<Rightarrow> bool" where
  "bus_ok b \<longleftrightarrow> (\<forall>pid cs. subs b pid = Some cs \<longrightarrow> cs \<noteq> [] \<and> chans_ok (next_chan b) cs)"

lemma bus_okD: "bus_ok b \<Longrightarrow> subs b pid = Some cs \<Longrightarrow> cs \<noteq> [] \<and> chans_ok (next_chan b) cs"
  by (auto simp: bus_ok_def)

lemma chans_ok_chans_of: "bus_ok b \<Longrightarrow> chans_ok (next_chan b) (chans_of pid b)"
proof (cases "subs b pid")
  case None
  then show ?thesis by (simp add: chans_of_def chans_ok_def)
next
  case (Some cs)
  assume "bus_ok b"
  with Some show ?thesis by (auto simp: chans_of_def dest: bus_okD)
qed

lemma chans_ok_mono: "chans_ok n cs \<Longrightarrow> chans_ok (Suc n) cs"
  by (auto simp: chans_ok_def)

lemma chans_ok_snoc: "chans_ok n cs \<Longrightarrow> chans_ok (Suc n) (cs @ [(n, [])])"
  by (auto simp: chans_ok_def)

lemma chans_ok_filter: "chans_ok n cs \<Longrightarrow> chans_ok n (filter P cs)"
  by (auto simp: chans_ok_def distinct_map_filter)

lemma chans_ok_map:
  assumes "chans_ok n cs"
    and "\<And>c. fst (f c) = fst c"
    and "\<And>c. length (snd c) \<le> chan_cap \<Longrightarrow> length (snd (f c)) \<le> chan_cap"
  shows "chans_ok n (map f cs)"
proof -
  have "map fst (map f cs) = map fst cs"
    using assms(2) by simp
  moreover have "fst (f c) < n \<and> length (snd (f c)) \<le> chan_cap" if "c \<in> set cs" for c
    using assms that by (auto simp: chans_ok_def case_prod_beta)
  ultimately show ?thesis
    using assms(1) unfolding chans_ok_def
    by (metis (no_types, lifting) case_prod_beta imageE list.set_map)
qed

lemma fst_offer [simp]: "fst (offer u c) = fst c"
  by (auto simp: offer_def split: prod.splits)

lemma length_offer: "length (snd c) \<le> chan_cap \<Longrightarrow> length (snd (offer u c)) \<le> chan_cap"
  by (auto simp: offer_def split: prod.splits)

lemma bus_ok_new: "bus_ok bus_new"
  by (simp add: bus_ok_def bus_new_def)

lemma bus_ok_subscribe: "bus_ok b \<Longrightarrow> bus_ok (snd (subscribe pid b))"
  using chans_ok_snoc [OF chans_ok_chans_of, of b pid]
  by (auto simp: bus_ok_def subscribe_def chans_ok_mono)

lemma bus_ok_unsubscribe: "bus_ok b \<Longrightarrow> bus_ok (unsubscribe pid ch b)"
  using chans_ok_filter [OF chans_ok_chans_of, of b]
  by (auto simp: bus_ok_def unsubscribe_def Let_def)

lemma bus_ok_publish: "bus_ok b \<Longrightarrow> bus_ok (publish u b)"
  by (auto simp: bus_ok_def publish_def intro!: chans_ok_map length_offer split: option.splits)

lemma bus_ok_recv: "bus_ok b \<Longrightarrow> bus_ok (snd (recv pid ch b))"
proof -
  assume b: "bus_ok b"
  have "chans_ok (next_chan b)
      (map (\<lambda>(c, r). if c = ch then (c, q) else (c, r)) (chans_of pid b))"
    if "buffer pid ch b = Some (u # q)" for u q
  proof (rule chans_ok_map [OF chans_ok_chans_of [OF b]])
    have "length (u # q) \<le> chan_cap"
      using that chans_ok_chans_of [OF b, of pid]
      by (auto simp: buffer_def chans_ok_def dest: map_of_SomeD)
    then show "length (snd (case c of (c, r) \<Rightarrow> if c = ch then (c, q) else (c, r))) \<le> chan_cap"
      if "length (snd c) \<le> chan_cap" for c
      using that by (auto split: prod.splits)
  qed (auto split: prod.splits)
  moreover have "chans_of pid b \<noteq> []" if "buffer pid ch b = Some q" for q
    using that by (auto simp: buffer_def)
  ultimately show ?thesis
    using b by (auto simp: bus_ok_def recv_def split: option.splits list.splits)
qed

subsection \<open>What a subscriber receives\<close>

lemma map_of_offer:
  "map_of (map (offer u) cs) ch =
     map_option (\<lambda>q. if length q < chan_cap then q @ [u] else q) (map_of cs ch)"
  by (induction cs) (auto simp: offer_def)

lemma buffer_publish:
  "buffer pid ch (publish u b) =
     (if u_payment_id u = pid
      then map_option (\<lambda>q. if length q < chan_cap then q @ [u] else q) (buffer pid ch b)
      else buffer pid ch b)"
  by (auto simp: buffer_def chans_of_def publish_def map_of_offer split: option.splits)

lemma buffer_recv:
  "buffer pid ch b = Some (u # q) \<Longrightarrow> \<exists>b1. recv pid ch b = (Some u, b1) \<and> buffer pid ch b1 = Some q"
proof -
  have "map_of cs ch = Some x \<Longrightarrow>
      map_of (map (\<lambda>(c, r). if c = ch then (c, q) else (c, r)) cs) ch = Some q" for cs :: "chan list" and x
    by (induction cs) (auto split: if_splits)
  then show "buffer pid ch b = Some (u # q) \<Longrightarrow> \<exists>b1. recv pid ch b = (Some u, b1) \<and> buffer pid ch b1 = Some q"
    by (auto simp: recv_def buffer_def chans_of_def)
qed

lemma buffer_unsubscribe: "buffer pid ch (unsubscribe pid ch b) = None"
proof -
  have "map_of (filter (\<lambda>(c, q). c \<noteq> ch) cs) ch = None" for cs :: "chan list"
    by (induction cs) auto
  then show ?thesis
    by (auto simp: buffer_def unsubscribe_def chans_of_def Let_def)
qed

lemma buffer_subscribe:
  assumes "bus_ok b" and "subscribe pid b = (ch, b1)"
  shows "buffer pid ch b1 = Some []"
proof -
  have "map_of (chans_of pid b) (next_chan b) = None"
    using chans_ok_chans_of [OF assms(1), of pid] by (auto simp: chans_ok_def map_of_eq_None_iff)
  with assms(2) show ?thesis
    by (auto simp: buffer_def subscribe_def chans_of_def map_add_def split: option.splits)
qed

subsection \<open>What a subscriber may rely on\<close>

text \<open>
  The broadcast as its two clients use it, the saga that publishes and the event stream that
  subscribes: a queue per subscription, bounded by a capacity, of the messages of one topic.
\<close>

locale broadcast =
  fixes ok :: "'b \<Rightarrow> bool" and waiting :: "'k \<Rightarrow> nat \<Rightarrow> 'b \<Rightarrow> 'u list option" and topic :: "'u \<Rightarrow> 'k"
    and cap :: nat and sub :: "'k \<Rightarrow> 'b \<Rightarrow> nat \<times> 'b" and unsub :: "'k \<Rightarrow> nat \<Rightarrow> 'b \<Rightarrow> 'b"
    and pub :: "'u \<Rightarrow> 'b \<Rightarrow> 'b" and rcv :: "'k \<Rightarrow> nat \<Rightarrow> 'b \<Rightarrow> 'u option \<times> 'b"
  assumes keep: "ok b \<Longrightarrow> ok (snd (sub k b)) \<and> ok (unsub k c b) \<and> ok (pub u b) \<and> ok (snd (rcv k c b))"
    and subscribed: "ok b \<Longrightarrow> sub k b = (c, b1) \<Longrightarrow> waiting k c b1 = Some []"
    and unsubscribed: "waiting k c (unsub k c b) = None"
    and published: "waiting k c (pub u b) =
      (if topic u = k then map_option (\<lambda>q. if length q < cap then q @ [u] else q) (waiting k c b)
       else waiting k c b)"
    and received: "waiting k c b = Some (u # q) \<Longrightarrow> \<exists>b1. rcv k c b = (Some u, b1) \<and> waiting k c b1 = Some q"
begin

lemma publishes_ok: "ok b \<Longrightarrow> ok (fold pub us b)"
  by (induction us arbitrary: b) (simp_all add: keep)

text \<open>A subscriber that does not receive keeps the first messages, in order, up to the capacity.\<close>

lemma publishes_keep_order:
  "waiting k c b = Some q \<Longrightarrow> \<exists>zs. waiting k c (fold pub us b) = Some (q @ zs)
     \<and> subseq zs (filter (\<lambda>u. topic u = k) us)"
proof (induction us arbitrary: b q)
  case (Cons u us)
  let ?q = "if topic u = k \<and> length q < cap then q @ [u] else q"
  have "waiting k c (pub u b) = Some ?q"
    using Cons.prems by (auto simp: published)
  from Cons.IH [OF this] obtain zs where
    "waiting k c (fold pub us (pub u b)) = Some (?q @ zs)"
    "subseq zs (filter (\<lambda>u. topic u = k) us)"
    by blast
  then show ?case
    by (auto split: if_splits intro: subseq_Cons')
qed simp

lemma publishes_fit:
  "waiting k c b = Some q \<Longrightarrow> length q + length (filter (\<lambda>u. topic u = k) us) \<le> cap
     \<Longrightarrow> waiting k c (fold pub us b) = Some (q @ filter (\<lambda>u. topic u = k) us)"
proof (induction us arbitrary: b q)
  case (Cons u us)
  have "waiting k c (pub u b) = Some (if topic u = k then q @ [u] else q)"
    using Cons.prems by (cases "topic u = k") (simp_all add: published)
  with Cons.IH [of "pub u b" "if topic u = k then q @ [u] else q"] Cons.prems(2) show ?case
    by (simp split: if_splits)
qed simp

end

interpretation updates: broadcast bus_ok buffer u_payment_id chan_cap subscribe unsubscribe publish recv
  by unfold_locales
    (simp_all add: bus_ok_subscribe bus_ok_unsubscribe bus_ok_publish bus_ok_recv buffer_subscribe
      buffer_unsubscribe buffer_publish buffer_recv)

end
