(* ===== verification/Store.thy ===== *)
theory Store
  imports PubSub
begin

section \<open>Persistence helpers of the engine\<close>

text \<open>
  The statements and transactions of \<open>internal/saga/saga.go\<close> (\<open>load\<close>, \<open>transition\<close>,
  \<open>transitionWith\<close>, \<open>terminalTx\<close>, \<open>touch\<close>) and \<open>Writer.Write\<close> of \<open>internal/outbox/outbox.go\<close>.
  \<open>begin_func\<close> is \<open>pgx.BeginFunc\<close>: the body runs against the database, an error of the body or
  of the database rolls everything back. The environment decides the database's part once
  per transaction, so the extra statements of a transition have no error of their own. What
  it means for a transaction to hit its guard is the subject of the effect lemmas.
\<close>

subsection \<open>Statements and transactions\<close>

definition begin_func :: "'w env \<Rightarrow> ('w sys \<Rightarrow> go_error option \<times> 'w sys) \<Rightarrow> 'w sys
    \<Rightarrow> go_error option \<times> 'w sys" where
  "begin_func env body s =
     (case ask (db_commit env) s of (oc, s0) \<Rightarrow>
        (if oc = DbFail then (Some DbError, s0)
         else (case body s0 of
                 (Some e, s1) \<Rightarrow> (Some e, s1\<lparr>db := db s\<rparr>)
               | (None, s1) \<Rightarrow> ((if oc = DbAckLost then Some DbError else None), s1))))"

definition pool_exec :: "'w env \<Rightarrow> (time \<Rightarrow> database \<Rightarrow> nat \<times> database) \<Rightarrow> 'w sys
    \<Rightarrow> (go_error + nat) \<times> 'w sys" where
  "pool_exec env f s =
     (case ask (db_commit env) s of (oc, s0) \<Rightarrow>
        (case f (clock env (world s0)) (db s0) of (n, d) \<Rightarrow>
           (case oc of
              DbOk \<Rightarrow> (Inr n, s0\<lparr>db := d\<rparr>)
            | DbFail \<Rightarrow> (Inl DbError, s0)
            | DbAckLost \<Rightarrow> (Inl DbError, s0\<lparr>db := d\<rparr>))))"

definition update_payments :: "(payment_row \<Rightarrow> bool) \<Rightarrow> (payment_row \<Rightarrow> payment_row) \<Rightarrow> database
    \<Rightarrow> nat \<times> database" where
  "update_payments P f d =
     (case sql_update P f (payments d) of (n, rows) \<Rightarrow> (n, d\<lparr>payments := rows\<rparr>))"

text \<open>An extra statement of a transaction: \<open>update payments set ... where id = $1\<close>.\<close>

definition set_row :: "uuid \<Rightarrow> (payment_row \<Rightarrow> payment_row) \<Rightarrow> 'w sys \<Rightarrow> 'w sys" where
  "set_row i f s = s\<lparr>db := snd (update_payments (\<lambda>r. pr_id r = i) f (db s))\<rparr>"

definition outbox_write :: "'w env \<Rightarrow> string \<Rightarrow> string \<Rightarrow> string \<Rightarrow> payload \<Rightarrow> 'w sys \<Rightarrow> 'w sys" where
  "outbox_write env topic aggregateType aggregateID body s =
     (case ask (uuid_new env) s of (i, s1) \<Rightarrow>
        s1\<lparr>db := (db s1)\<lparr>outbox := outbox (db s1) @
            [\<lparr>ob_id = i, ob_aggregatetype = aggregateType, ob_aggregateid = aggregateID,
              ob_type = topic, ob_payload = body, ob_created_at = clock env (world s),
              ob_processed_at = None\<rparr>]\<rparr>\<rparr>)"

subsection \<open>Loading the aggregate\<close>

definition payment_of :: "payment_row \<Rightarrow> instrument_row \<Rightarrow> payment" where
  "payment_of r n =
     \<lparr>ID = pr_id r, UserID = pr_user_id r, AccountID = pr_account_id r,
      MerchantID = pr_merchant_id r, InstrumentID = pr_instrument_id r,
      Method = in_method n, Token = in_gateway_token n, Amount = pr_amount r,
      Currency = pr_currency r, FxQuoteID = pr_fx_quote_id r, Status = pr_status r,
      Step = pr_step r, HoldID = pr_hold_id r, PSPReference = pr_psp_reference r,
      RiskScore = pr_risk_score r\<rparr>"

definition load :: "'w env \<Rightarrow> uuid \<Rightarrow> 'w sys \<Rightarrow> (go_error + payment) \<times> 'w sys" where
  "load env i s =
     (case ask (db_read env) s of (ok, s1) \<Rightarrow>
        ((if \<not> ok then Inl DbError
          else (case sql_select_one (\<lambda>r. pr_id r = i) (payments (db s1)) of
                  None \<Rightarrow> Inl NoRows
                | Some r \<Rightarrow>
                    (case sql_select_one (\<lambda>n. in_id n = pr_instrument_id r) (instruments (db s1)) of
                       None \<Rightarrow> Inl NoRows
                     | Some n \<Rightarrow> Inr (payment_of r n)))), s1))"

subsection \<open>Transitions\<close>

definition announce :: "'w env \<Rightarrow> payment \<Rightarrow> status \<Rightarrow> saga_step \<Rightarrow> 'w sys \<Rightarrow> 'w sys" where
  "announce env p sta st s =
     s\<lparr>bus := publish \<lparr>u_payment_id = uuid_str env (ID p), u_status = sta, u_step = st\<rparr> (bus s)\<rparr>"

text \<open>The guarded update both kinds of transition start with, then the extra statements.\<close>

definition guarded_tx :: "'w env \<Rightarrow> go_error \<Rightarrow> (payment_row \<Rightarrow> bool) \<Rightarrow> (time \<Rightarrow> payment_row \<Rightarrow> payment_row)
    \<Rightarrow> ('w sys \<Rightarrow> 'w sys) \<Rightarrow> 'w sys \<Rightarrow> go_error option \<times> 'w sys" where
  "guarded_tx env err G f extra =
     begin_func env (\<lambda>t.
       case update_payments G (f (clock env (world t))) (db t) of (n, d) \<Rightarrow>
         (if n = 0 then (Some err, t) else (None, extra (t\<lparr>db := d\<rparr>))))"

definition transition_row :: "saga_step \<Rightarrow> status \<Rightarrow> time \<Rightarrow> payment_row \<Rightarrow> payment_row" where
  "transition_row st sta now r =
     r\<lparr>pr_step := st, pr_status := sta, pr_version := pr_version r + 1, pr_updated_at := now\<rparr>"

definition transition :: "'w env \<Rightarrow> payment \<Rightarrow> saga_step \<Rightarrow> status \<Rightarrow> ('w sys \<Rightarrow> 'w sys) \<Rightarrow> 'w sys
    \<Rightarrow> go_error option \<times> 'w sys" where
  "transition env p st sta extra s =
     (case guarded_tx env (ConcurrentTransition (ID p))
             (\<lambda>r. pr_id r = ID p \<and> pr_step r = Step p) (transition_row st sta) extra s of
        (None, s1) \<Rightarrow> (None, announce env p sta st s1)
      | (Some e, s1) \<Rightarrow> (Some e, s1))"

definition transition_with_row :: "saga_step \<Rightarrow> status \<Rightarrow> string \<Rightarrow> string \<Rightarrow> int option \<Rightarrow> time
    \<Rightarrow> payment_row \<Rightarrow> payment_row" where
  "transition_with_row st sta code detail risk now r =
     r\<lparr>pr_step := st, pr_status := sta,
       pr_failure_code := nullif_empty code, pr_failure_detail := nullif_empty detail,
       pr_risk_score := coalesce risk (pr_risk_score r),
       pr_version := pr_version r + 1, pr_updated_at := now\<rparr>"

definition transitionWith :: "'w env \<Rightarrow> payment \<Rightarrow> saga_step \<Rightarrow> status \<Rightarrow> string \<Rightarrow> string
    \<Rightarrow> int option \<Rightarrow> ('w sys \<Rightarrow> 'w sys) \<Rightarrow> 'w sys \<Rightarrow> go_error option \<times> 'w sys" where
  "transitionWith env p st sta code detail risk extra s =
     (case guarded_tx env (NoLongerProcessing (ID p))
             (\<lambda>r. pr_id r = ID p \<and> pr_status r = Processing)
             (transition_with_row st sta code detail risk) extra s of
        (None, s1) \<Rightarrow> (None, announce env p sta st s1)
      | (Some e, s1) \<Rightarrow> (Some e, s1))"

definition terminalTx :: "'w env \<Rightarrow> payment \<Rightarrow> saga_step \<Rightarrow> status \<Rightarrow> ('w sys \<Rightarrow> 'w sys) \<Rightarrow> 'w sys
    \<Rightarrow> go_error option \<times> 'w sys" where
  "terminalTx env p st sta extra s = transitionWith env p st sta [] [] None extra s"

definition touch :: "'w env \<Rightarrow> uuid \<Rightarrow> 'w sys \<Rightarrow> 'w sys" where
  "touch env i s =
     snd (pool_exec env (\<lambda>now. update_payments (\<lambda>r. pr_id r = i) (\<lambda>r. r\<lparr>pr_updated_at := now\<rparr>)) s)"

subsection \<open>Effects\<close>

lemma update_payments_simps [simp]:
  "fst (update_payments P f d) = length (filter P (payments d))"
  "snd (update_payments P f d) = d\<lparr>payments := map (\<lambda>r. if P r then f r else r) (payments d)\<rparr>"
  by (simp_all add: update_payments_def sql_update_def)

lemma set_row_simps [simp]:
  "db (set_row i f s) =
     (db s)\<lparr>payments := map (\<lambda>r. if pr_id r = i then f r else r) (payments (db s))\<rparr>"
  "bus (set_row i f s) = bus s" "spawned (set_row i f s) = spawned s"
  "calls (set_row i f s) = calls s" "world (set_row i f s) = world s"
  "produced (set_row i f s) = produced s"
  by (simp_all add: set_row_def)

lemma outbox_write_frame [simp]:
  "payments (db (outbox_write env topic ty ag body s)) = payments (db s)"
  "instruments (db (outbox_write env topic ty ag body s)) = instruments (db s)"
  "fx_quotes (db (outbox_write env topic ty ag body s)) = fx_quotes (db s)"
  "idempotency_keys (db (outbox_write env topic ty ag body s)) = idempotency_keys (db s)"
  "processed_events (db (outbox_write env topic ty ag body s)) = processed_events (db s)"
  "bus (outbox_write env topic ty ag body s) = bus s"
  "spawned (outbox_write env topic ty ag body s) = spawned s"
  "calls (outbox_write env topic ty ag body s) = calls s"
  "produced (outbox_write env topic ty ag body s) = produced s"
  by (auto simp: outbox_write_def ask_def split: prod.splits)

lemma outbox_write_outbox:
  "\<exists>r. outbox (db (outbox_write env topic ty ag body s)) = outbox (db s) @ [r]
     \<and> ob_type r = topic \<and> ob_aggregatetype r = ty \<and> ob_aggregateid r = ag
     \<and> ob_payload r = body \<and> ob_processed_at r = None"
  by (auto simp: outbox_write_def ask_def split: prod.splits)

lemma load_frame [simp]:
  "db (snd (load env i s)) = db s" "bus (snd (load env i s)) = bus s"
  "spawned (snd (load env i s)) = spawned s" "calls (snd (load env i s)) = calls s"
  "produced (snd (load env i s)) = produced s"
  by (auto simp: load_def ask_def split: prod.splits)

lemma load_InrD:
  assumes "load env i s = (Inr p, s')"
  shows "\<exists>r n. r \<in> set (payments (db s)) \<and> pr_id r = i \<and> p = payment_of r n
    \<and> sql_select_one (\<lambda>r. pr_id r = i) (payments (db s)) = Some r
    \<and> sql_select_one (\<lambda>n. in_id n = pr_instrument_id r) (instruments (db s)) = Some n"
  using assms
  by (auto simp: load_def ask_def split: prod.splits if_splits option.splits)
    (blast dest: sql_select_one_SomeD)

lemma payment_of_simps [simp]:
  "ID (payment_of r n) = pr_id r" "UserID (payment_of r n) = pr_user_id r"
  "Status (payment_of r n) = pr_status r" "Step (payment_of r n) = pr_step r"
  "HoldID (payment_of r n) = pr_hold_id r" "PSPReference (payment_of r n) = pr_psp_reference r"
  "Method (payment_of r n) = in_method n" "Amount (payment_of r n) = pr_amount r"
  by (simp_all add: payment_of_def)

text \<open>
  A guarded transaction either leaves the database alone, and reports an error, or it found
  a row that meets its guard; then the database is what the update and the extra statements
  make of it. Only a lost acknowledgement reports an error for a transaction that took place.
\<close>

lemma guarded_tx_effect:
  assumes "guarded_tx env err G f extra s = (e, s')"
  obtains (none) "e \<noteq> None" and "db s' = db s" and "bus s' = bus s"
      and "spawned s' = spawned s" and "calls s' = calls s" and "produced s' = produced s"
    | (commit) t r where "db t = db s" and "bus t = bus s" and "spawned t = spawned s"
      and "calls t = calls s"
      and "r \<in> set (payments (db s))" and "G r"
      and "s' = extra (t\<lparr>db := (db s)\<lparr>payments :=
             map (\<lambda>r. if G r then f (clock env (world t)) r else r) (payments (db s))\<rparr>\<rparr>)"
      and "e = None \<or> e = Some DbError" and "produced t = produced s"
proof -
  obtain oc t where t: "ask (db_commit env) s = (oc, t)"
    by fastforce
  note ask = ask_eqD [OF t]
  show thesis
  proof (cases "oc = DbFail")
    case True
    with assms t ask show thesis
      by (intro none) (auto simp: guarded_tx_def begin_func_def)
  next
    case False
    show thesis
    proof (cases "filter G (payments (db s)) = []")
      case True
      with False assms t ask show thesis
        by (intro none)
          (auto simp: guarded_tx_def begin_func_def update_payments_def sql_update_def)
    next
      case False
      then obtain r where "r \<in> set (payments (db s))" and "G r"
        by (auto simp: filter_empty_conv)
      with False \<open>oc \<noteq> DbFail\<close> assms t ask show thesis
        by (intro commit [of t r])
          (auto simp: guarded_tx_def begin_func_def update_payments_def sql_update_def)
    qed
  qed
qed

text \<open>
  A single statement: refused, or carried out at the database's time, with or without the
  client learning of it.
\<close>

definition exec_time :: "'w env \<Rightarrow> 'w sys \<Rightarrow> time" where
  "exec_time env s = clock env (snd (db_commit env (world s)))"

lemma pool_exec_effect:
  assumes "pool_exec env f s = (r, s')"
  obtains (refused) "r = Inl DbError" and "db s' = db s"
    | (applied) "r = Inr (fst (f (exec_time env s) (db s)))" and "db s' = snd (f (exec_time env s) (db s))"
    | (lost) "r = Inl DbError" and "db s' = snd (f (exec_time env s) (db s))"
proof -
  obtain oc t where t: "ask (db_commit env) s = (oc, t)"
    by fastforce
  have time: "clock env (world t) = exec_time env s" and d: "db t = db s"
    using ask_eqD [OF t] by (simp_all add: exec_time_def)
  show thesis
  proof (cases oc)
    case DbOk
    with assms t time d show thesis
      by (intro applied) (auto simp: pool_exec_def split: prod.splits)
  next
    case DbFail
    with assms t time d show thesis
      by (intro refused) (auto simp: pool_exec_def split: prod.splits)
  next
    case DbAckLost
    with assms t time d show thesis
      by (intro lost) (auto simp: pool_exec_def split: prod.splits)
  qed
qed

lemma pool_exec_frame:
  assumes "pool_exec env f s = (r, s')"
  shows "bus s' = bus s" and "spawned s' = spawned s" and "calls s' = calls s" and "produced s' = produced s"
proof -
  obtain oc t where t: "ask (db_commit env) s = (oc, t)"
    by fastforce
  from assms t ask_eqD [OF t] show "bus s' = bus s" and "spawned s' = spawned s" and "calls s' = calls s" and "produced s' = produced s"
    by (cases oc; auto simp: pool_exec_def split: prod.splits)+
qed

text \<open>A single statement on the payments table: nothing, or its update at the database's time.\<close>

lemma pool_exec_update_effect:
  fixes G :: "time \<Rightarrow> payment_row \<Rightarrow> bool" and f :: "time \<Rightarrow> payment_row \<Rightarrow> payment_row"
  assumes "pool_exec env (\<lambda>now. update_payments (G now) (f now)) s = (r, s')"
  shows "\<exists>now. (db s' = db s \<or> db s' = (db s)\<lparr>payments :=
      map (\<lambda>r. if G now r then f now r else r) (payments (db s))\<rparr>)"
    and "bus s' = bus s" and "spawned s' = spawned s" and "calls s' = calls s" and "produced s' = produced s"
proof -
  obtain oc t where t: "ask (db_commit env) s = (oc, t)"
    by fastforce
  note ask = ask_eqD [OF t]
  from assms t ask show "\<exists>now. (db s' = db s \<or> db s' = (db s)\<lparr>payments :=
      map (\<lambda>r. if G now r then f now r else r) (payments (db s))\<rparr>)"
    by (cases oc) (auto simp: pool_exec_def update_payments_def sql_update_def)
  from assms t ask show "bus s' = bus s" and "spawned s' = spawned s" and "calls s' = calls s" and "produced s' = produced s"
    by (cases oc; simp add: pool_exec_def update_payments_def sql_update_def; auto)+
qed

end
