(* ===== verification/Clients.thy ===== *)
theory Clients
  imports Model
begin

section \<open>The fraud and account clients\<close>

text \<open>
  \<open>internal/fraudclient/fraudclient.go\<close> and \<open>internal/accountclient/accountclient.go\<close>. The RPCs
  themselves are in the environment; here is what the clients add: the amount-tiered policy
  for a fraud outage, the mapping of decisions to verdicts, the deterministic request ids
  and the errors that \<open>Release\<close> forgives. Every money call is appended to the history.
\<close>

subsection \<open>Fraud screening\<close>

record verdict =
  Proceed :: bool
  RequiresActionV :: bool
  VRiskScore :: int
  FailedOpen :: bool
  Reason :: string

definition verdict_zero :: verdict where
  "verdict_zero = \<lparr>Proceed = False, RequiresActionV = False, VRiskScore = 0,
     FailedOpen = False, Reason = []\<rparr>"

definition outage_verdict :: "int \<Rightarrow> int \<Rightarrow> verdict" where
  "outage_verdict limit amount =
     (if amount < limit
      then verdict_zero\<lparr>Proceed := True, FailedOpen := True, VRiskScore := -1,
             Reason := ''fraud_unavailable_fail_open''\<rparr>
      else verdict_zero\<lparr>Proceed := False, Reason := ''fraud_unavailable_fail_closed''\<rparr>)"

definition decision_verdict :: "'w env \<Rightarrow> score_response \<Rightarrow> verdict" where
  "decision_verdict env resp =
     (case sr_decision resp of
        DECISION_APPROVE \<Rightarrow> verdict_zero\<lparr>Proceed := True, VRiskScore := sr_risk_score resp\<rparr>
      | DECISION_STEP_UP \<Rightarrow>
          verdict_zero\<lparr>RequiresActionV := True, VRiskScore := sr_risk_score resp,
            Reason := ''fraud_'' @ decision_str env (sr_decision resp)\<rparr>
      | DECISION_HOLD \<Rightarrow>
          verdict_zero\<lparr>RequiresActionV := True, VRiskScore := sr_risk_score resp,
            Reason := ''fraud_'' @ decision_str env (sr_decision resp)\<rparr>
      | DECISION_OTHER n \<Rightarrow>
          verdict_zero\<lparr>Proceed := False, VRiskScore := sr_risk_score resp,
            Reason := ''fraud_denied''\<rparr>)"

definition Screen :: "'w env \<Rightarrow> score_request \<Rightarrow> 'w sys \<Rightarrow> verdict \<times> 'w sys" where
  "Screen env req s =
     (case ask (score_rpc env req) s of (r, s1) \<Rightarrow>
        ((case r of
            Inl _ \<Rightarrow> outage_verdict (fail_open_limit env) (sq_amount_minor_units req)
          | Inr resp \<Rightarrow> decision_verdict env resp),
         log_call (CallScore req) s1))"

subsection \<open>Account service\<close>

definition IsInsufficientFunds :: "rpc_code \<Rightarrow> bool" where
  "IsInsufficientFunds c \<longleftrightarrow> c = FailedPrecondition"

definition Hold :: "'w env \<Rightarrow> uuid \<Rightarrow> uuid \<Rightarrow> int \<Rightarrow> string \<Rightarrow> 'w sys \<Rightarrow> (rpc_code + string) \<times> 'w sys" where
  "Hold env pid acc amount cur s =
     (let req = \<lparr>hr_request_id = ''hold:'' @ uuid_str env pid, hr_account_id = uuid_str env acc,
                 hr_payment_id = uuid_str env pid, hr_minor_units = amount,
                 hr_currency_code = cur\<rparr>
      in case ask (hold_rpc env req) s of (r, s1) \<Rightarrow> (r, log_call (CallHold req r) s1))"

definition Capture :: "'w env \<Rightarrow> uuid \<Rightarrow> uuid \<Rightarrow> int \<Rightarrow> string \<Rightarrow> 'w sys \<Rightarrow> (rpc_code + string) \<times> 'w sys" where
  "Capture env pid hid amount cur s =
     (let req = \<lparr>cr_request_id = ''capture:'' @ uuid_str env pid, cr_hold_id = uuid_str env hid,
                 cr_minor_units = amount, cr_currency_code = cur\<rparr>
      in case ask (capture_rpc env req) s of (r, s1) \<Rightarrow> (r, log_call (CallLedgerCapture req r) s1))"

definition Release :: "'w env \<Rightarrow> uuid \<Rightarrow> uuid \<Rightarrow> string \<Rightarrow> 'w sys \<Rightarrow> rpc_code option \<times> 'w sys" where
  "Release env pid hid reason s =
     (let req = \<lparr>rr_request_id = ''release:'' @ uuid_str env pid, rr_hold_id = uuid_str env hid,
                 rr_reason = reason\<rparr>
      in case ask (release_rpc env req) s of (r, s1) \<Rightarrow>
           (let err = (if r = Some FailedPrecondition then None else r)
            in (err, log_call (CallRelease req r) s1)))"

text \<open>What the clients leave alone, and the entry each leaves in the history.\<close>

lemma Screen_frame [simp]:
  "db (snd (Screen env req s)) = db s" "bus (snd (Screen env req s)) = bus s"
  "spawned (snd (Screen env req s)) = spawned s"
  "produced (snd (Screen env req s)) = produced s"
  "calls (snd (Screen env req s)) = calls s @ [CallScore req]"
  by (auto simp: Screen_def ask_def split: prod.splits)

lemma Hold_frame [simp]:
  "db (snd (Hold env pid acc a c s)) = db s" "bus (snd (Hold env pid acc a c s)) = bus s"
  "spawned (snd (Hold env pid acc a c s)) = spawned s"
  "produced (snd (Hold env pid acc a c s)) = produced s"
  by (auto simp: Hold_def ask_def Let_def split: prod.splits)

lemma Hold_calls:
  "\<exists>req. hr_request_id req = ''hold:'' @ uuid_str env pid \<and> hr_payment_id req = uuid_str env pid
     \<and> calls (snd (Hold env pid acc a c s)) = calls s @ [CallHold req (fst (Hold env pid acc a c s))]"
  by (auto simp: Hold_def ask_def Let_def split: prod.splits)

lemma Capture_frame [simp]:
  "db (snd (Capture env pid h a c s)) = db s" "bus (snd (Capture env pid h a c s)) = bus s"
  "spawned (snd (Capture env pid h a c s)) = spawned s"
  "produced (snd (Capture env pid h a c s)) = produced s"
  by (auto simp: Capture_def ask_def Let_def split: prod.splits)

lemma Capture_calls:
  "\<exists>req. cr_request_id req = ''capture:'' @ uuid_str env pid \<and> cr_hold_id req = uuid_str env h
     \<and> calls (snd (Capture env pid h a c s)) =
         calls s @ [CallLedgerCapture req (fst (Capture env pid h a c s))]"
  by (auto simp: Capture_def ask_def Let_def split: prod.splits)

lemma Release_frame [simp]:
  "db (snd (Release env pid h rsn s)) = db s" "bus (snd (Release env pid h rsn s)) = bus s"
  "spawned (snd (Release env pid h rsn s)) = spawned s"
  "produced (snd (Release env pid h rsn s)) = produced s"
  by (auto simp: Release_def ask_def Let_def split: prod.splits)

lemma Release_calls:
  "\<exists>req r. rr_request_id req = ''release:'' @ uuid_str env pid \<and> rr_hold_id req = uuid_str env h
     \<and> rr_reason req = rsn
     \<and> calls (snd (Release env pid h rsn s)) = calls s @ [CallRelease req r]"
  by (auto simp: Release_def ask_def Let_def split: prod.splits)

end
