(* ===== verification/PSP.thy ===== *)
theory PSP
  imports Model
begin

section \<open>The processor layer: adapters, factory, retry and circuit breaker\<close>

text \<open>
  \<open>internal/psp/psp.go\<close>. A \<open>processor\<close> is a value of the Go interface \<open>PaymentProcessor\<close>: its
  methods over the state of the service. The card and wallet adapters talk HTTP through
  \<open>doAuthorize\<close> and \<open>doPost\<close>; \<open>withResilience\<close> wraps an adapter in the circuit breaker
  (gobreaker is an oracle: it admits a call or refuses it with one of its two errors) and in
  \<open>retry\<close>. The locale \<open>payment_processor\<close> is the port as the saga may rely on it; both
  processors the factory can return are interpretations of it.
\<close>

record 'w processor =
  Authorize :: "uuid \<Rightarrow> int \<Rightarrow> string \<Rightarrow> string \<Rightarrow> 'w sys \<Rightarrow> (go_error + auth_result) \<times> 'w sys"
  PCapture :: "string \<Rightarrow> 'w sys \<Rightarrow> (go_error + unit) \<times> 'w sys"
  Reverse :: "string \<Rightarrow> 'w sys \<Rightarrow> (go_error + unit) \<times> 'w sys"
  Name :: string

subsection \<open>HTTP plumbing\<close>

definition auth_result_of :: "authorize_resp \<Rightarrow> auth_result" where
  "auth_result_of out =
     \<lparr>Outcome = (if ap_pending out then OutcomePending
                 else if ap_outcome out = ''approved'' then OutcomeApproved
                 else OutcomeDeclined),
      Ref = ap_psp_reference out, DeclineCode = ap_decline_code out\<rparr>"

definition doAuthorize :: "'w env \<Rightarrow> authorize_req \<Rightarrow> 'w sys \<Rightarrow> (go_error + auth_result) \<times> 'w sys" where
  "doAuthorize env body s =
     (case ask (http_authorize env (psp_base env @ ''/authorize'') body) s of (reply, s1) \<Rightarrow>
        ((case reply of
            BadRequestURL m \<Rightarrow> Inl (PlainError m)
          | TransportError m \<Rightarrow> Inl (Unavailable m)
          | HttpReply code text decoded \<Rightarrow>
              (if code \<ge> 500 then Inl (Unavailable (''HTTP '' @ show_int code))
               else if code \<ge> 400 then
                 Inl (PlainError (''processor rejected request: HTTP '' @ show_int code
                   @ '' '' @ take 256 text))
               else (case decoded of
                       None \<Rightarrow> Inl (Unavailable ''bad response'')
                     | Some out \<Rightarrow> Inr (auth_result_of out)))), s1))"

definition doPost :: "'w env \<Rightarrow> string \<Rightarrow> 'w sys \<Rightarrow> (go_error + unit) \<times> 'w sys" where
  "doPost env url s =
     (case ask (http_post env url) s of (reply, s1) \<Rightarrow>
        ((case reply of
            BadRequestURL m \<Rightarrow> Inl (PlainError m)
          | TransportError m \<Rightarrow> Inl (Unavailable m)
          | HttpReply code text decoded \<Rightarrow>
              (if code \<ge> 500 then Inl (Unavailable (''HTTP '' @ show_int code))
               else if code \<ge> 400 then
                 Inl (PlainError (''processor rejected: HTTP '' @ show_int code))
               else Inr ())), s1))"

subsection \<open>Adapters\<close>

definition cardProcessor :: "'w env \<Rightarrow> 'w processor" where
  "cardProcessor env =
     \<lparr>Authorize = (\<lambda>pid amount cur tok.
        doAuthorize env \<lparr>aq_reference = uuid_str env pid, aq_amount_minor = amount,
          aq_currency = cur, aq_method = ''card'', aq_token = tok\<rparr>),
      PCapture = (\<lambda>ref. doPost env (psp_base env @ ''/capture/'' @ ref)),
      Reverse = (\<lambda>ref. doPost env (psp_base env @ ''/reverse/'' @ ref)),
      Name = ''mockpay-card''\<rparr>"

definition walletAuthorize :: "'w env \<Rightarrow> uuid \<Rightarrow> int \<Rightarrow> string \<Rightarrow> string \<Rightarrow> 'w sys
    \<Rightarrow> (go_error + auth_result) \<times> 'w sys" where
  "walletAuthorize env pid amount cur tok s =
     (case doAuthorize env \<lparr>aq_reference = uuid_str env pid, aq_amount_minor = amount,
        aq_currency = cur, aq_method = ''wallet'', aq_token = tok\<rparr> s of
        (Inl e, s1) \<Rightarrow> (Inl e, s1)
      | (Inr res, s1) \<Rightarrow>
          (Inr (if Outcome res = OutcomeEmpty \<or> Outcome res = OutcomePending
                then res\<lparr>Outcome := OutcomePending\<rparr> else res), s1))"

definition walletProcessor :: "'w env \<Rightarrow> 'w processor" where
  "walletProcessor env =
     \<lparr>Authorize = walletAuthorize env,
      PCapture = (\<lambda>ref. doPost env (psp_base env @ ''/capture/'' @ ref)),
      Reverse = (\<lambda>ref. doPost env (psp_base env @ ''/reverse/'' @ ref)),
      Name = ''mockpay-wallet''\<rparr>"

subsection \<open>Retry and circuit breaker\<close>

text \<open>\<open>ReadyToTrip\<close>: the breaker opens at a failure ratio over one half of five requests or more.\<close>

definition readyToTrip :: "nat \<Rightarrow> nat \<Rightarrow> bool" where
  "readyToTrip requests totalFailures \<longleftrightarrow> requests \<ge> 5 \<and> 2 * totalFailures > requests"

definition asUnavailable :: "go_error \<Rightarrow> go_error" where
  "asUnavailable e = (if is_breaker e then Unavailable ''circuit open'' else e)"

definition backoff :: "nat \<Rightarrow> nat \<Rightarrow> duration" where
  "backoff i jitter = 2 ^ i * (200 * 1000000) + int jitter * 1000000"

definition ctx_err :: "ctx_error \<Rightarrow> go_error" where
  "ctx_err c = (case c of CtxDeadline \<Rightarrow> DeadlineExceeded | CtxCanceled \<Rightarrow> ContextCanceled)"

text \<open>
  \<open>retry\<close> with the loop variable \<open>i\<close>, the attempts left and the values of \<open>out, err\<close> so far.
  After a retryable failure it waits for the backoff or for the end of the context,
  also after the last attempt.
\<close>

fun retry :: "'w env \<Rightarrow> nat \<Rightarrow> nat \<Rightarrow> ('w sys \<Rightarrow> (go_error + 'a) \<times> 'w sys) \<Rightarrow> (go_error + 'a)
    \<Rightarrow> 'w sys \<Rightarrow> (go_error + 'a) \<times> 'w sys" where
  "retry env i 0 fn out s = (out, s)"
| "retry env i (Suc n) fn out s =
     (case fn s of
        (Inr a, s1) \<Rightarrow> (Inr a, s1)
      | (Inl e, s1) \<Rightarrow>
          (if \<not> is_unavailable e then (Inl e, s1)
           else
             (case ask (rand_intn env 150) s1 of (j, s2) \<Rightarrow>
                (case ask (wait_backoff env (backoff i j)) s2 of
                   (Some c, s3) \<Rightarrow> (Inl (ctx_err c), s3)
                 | (None, s3) \<Rightarrow> retry env (Suc i) n fn (Inl e) s3))))"

text \<open>One call through a breaker, named by its processor and by which of the two it is.\<close>

definition breaker_execute :: "'w env \<Rightarrow> string \<times> bool \<Rightarrow> ('w sys \<Rightarrow> (go_error + 'a) \<times> 'w sys)
    \<Rightarrow> 'w sys \<Rightarrow> (go_error + 'a) \<times> 'w sys" where
  "breaker_execute env br fn s =
     (case ask (breaker_admit env br) s of
        (Some ErrOpenState, s1) \<Rightarrow> (Inl BreakerOpen, s1)
      | (Some ErrTooManyRequests, s1) \<Rightarrow> (Inl BreakerTooMany, s1)
      | (None, s1) \<Rightarrow>
          (case fn s1 of (r, s2) \<Rightarrow>
             (r, snd (ask (\<lambda>w. ((), breaker_record env br (\<not> isl r) w)) s2))))"

definition map_error :: "(go_error \<Rightarrow> go_error) \<Rightarrow> (go_error + 'a) \<times> 'w sys \<Rightarrow> (go_error + 'a) \<times> 'w sys" where
  "map_error f rs = (case rs of (r, s) \<Rightarrow> (map_sum f id r, s))"

definition withResilience :: "'w env \<Rightarrow> 'w processor \<Rightarrow> 'w processor" where
  "withResilience env inner =
     \<lparr>Authorize = (\<lambda>pid amount cur tok.
        retry env 0 3
          (\<lambda>s. map_error asUnavailable
             (breaker_execute env (Name inner, True) (Authorize inner pid amount cur tok) s))
          (Inr \<lparr>Outcome = OutcomeEmpty, Ref = [], DeclineCode = []\<rparr>)),
      PCapture = (\<lambda>ref.
        retry env 0 3
          (\<lambda>s. map_error asUnavailable
             (breaker_execute env (Name inner, False) (PCapture inner ref) s))
          (Inr ())),
      Reverse = (\<lambda>ref.
        retry env 0 3
          (\<lambda>s. map_error asUnavailable
             (breaker_execute env (Name inner, False) (Reverse inner ref) s))
          (Inr ())),
      Name = Name inner\<rparr>"

text \<open>The factory. The text of its error is what the saga stores as the failure detail.\<close>

definition factory_for :: "'w env \<Rightarrow> string \<Rightarrow> go_error + 'w processor" where
  "factory_for env method =
     (if method = ''card'' then Inr (withResilience env (cardProcessor env))
      else if method = ''wallet'' then Inr (withResilience env (walletProcessor env))
      else Inl (PlainError (''unsupported payment method '' @ CHR 34 # method @ [CHR 34])))"

fun error_text :: "go_error \<Rightarrow> string" where
  "error_text (PlainError m) = m"
| "error_text (Unavailable m) = ''processor unavailable: '' @ m"
| "error_text (Wrapped m e) = m @ '': '' @ error_text e"
| "error_text DeadlineExceeded = ''context deadline exceeded''"
| "error_text ContextCanceled = ''context canceled''"
| "error_text NoRows = ''no rows in result set''"
| "error_text BreakerOpen = ''circuit breaker is open''"
| "error_text BreakerTooMany = ''too many requests''"
| "error_text NotResumable = ''payment is not awaiting step-up''"
| "error_text _ = ''database error''"

subsection \<open>Calls that only talk to the environment\<close>

text \<open>A quiet call changes nothing of the service but the environment.\<close>

definition quiet :: "('w sys \<Rightarrow> 'a \<times> 'w sys) \<Rightarrow> bool" where
  "quiet fn \<longleftrightarrow> (\<forall>s. db (snd (fn s)) = db s \<and> bus (snd (fn s)) = bus s
     \<and> spawned (snd (fn s)) = spawned s \<and> calls (snd (fn s)) = calls s
     \<and> produced (snd (fn s)) = produced s)"

lemma quietI:
  assumes "\<And>s a s'. fn s = (a, s') \<Longrightarrow>
    db s' = db s \<and> bus s' = bus s \<and> spawned s' = spawned s \<and> calls s' = calls s \<and> produced s' = produced s"
  shows "quiet fn"
  unfolding quiet_def using assms by (metis prod.collapse)

lemma quietD:
  "quiet fn \<Longrightarrow> fn s = (a, s') \<Longrightarrow>
    db s' = db s \<and> bus s' = bus s \<and> spawned s' = spawned s \<and> calls s' = calls s \<and> produced s' = produced s"
  unfolding quiet_def by (metis snd_conv)

lemma quiet_ask [intro!]: "quiet (ask f)"
  by (simp add: quiet_def)

lemma quiet_doAuthorize [intro!]: "quiet (doAuthorize env body)"
  by (rule quietI) (auto simp: doAuthorize_def dest: ask_eqD split: prod.splits)

lemma quiet_doPost [intro!]: "quiet (doPost env url)"
  by (rule quietI) (auto simp: doPost_def dest: ask_eqD split: prod.splits)

lemma quiet_walletAuthorize [intro!]: "quiet (walletAuthorize env pid amount cur tok)"
  by (rule quietI)
    (auto simp: walletAuthorize_def dest: quietD [OF quiet_doAuthorize] split: prod.splits sum.splits)

lemma quiet_breaker_execute [intro]: "quiet fn \<Longrightarrow> quiet (breaker_execute env br fn)"
  by (rule quietI)
    (auto simp: breaker_execute_def split: prod.splits option.splits refusal.splits
      dest!: ask_eqD dest: quietD)

lemma quiet_map_error [intro]: "quiet fn \<Longrightarrow> quiet (\<lambda>s. map_error f (fn s))"
  by (simp add: quiet_def map_error_def case_prod_beta)

lemma quiet_retry [intro]:
  assumes "quiet fn"
  shows "quiet (retry env i n fn out)"
proof (rule quietI)
  fix s a s'
  show "retry env i n fn out s = (a, s') \<Longrightarrow>
    db s' = db s \<and> bus s' = bus s \<and> spawned s' = spawned s \<and> calls s' = calls s \<and> produced s' = produced s"
  proof (induction n arbitrary: i out s)
    case 0
    then show ?case by simp
  next
    case (Suc n)
    then show ?case
      by (auto split: prod.splits sum.splits if_splits option.splits
          dest!: ask_eqD dest: quietD [OF assms])
  qed
qed

subsection \<open>Where the results of retry come from\<close>

lemma retry_error:
  assumes "retry env i n fn out s = (Inl e, s')"
    and "\<And>s e s'. fn s = (Inl e, s') \<Longrightarrow> Q e" and "Q DeadlineExceeded" and "Q ContextCanceled"
    and "\<And>e. out = Inl e \<Longrightarrow> Q e"
  shows "Q e"
  using assms(1,5)
proof (induction n arbitrary: i out s)
  case 0
  then show ?case by simp
next
  case (Suc n)
  show ?case
  proof (cases "fn s")
    case (Pair r s1)
    show ?thesis
    proof (cases r)
      case (Inl d)
      with Pair have d: "Q d" by (auto intro: assms(2))
      obtain j s2 where j: "ask (rand_intn env 150) s1 = (j, s2)" by fastforce
      obtain w s3 where w: "ask (wait_backoff env (backoff i j)) s2 = (w, s3)" by fastforce
      from Suc Pair Inl d j w assms(3,4) show ?thesis
        by (cases w) (auto simp: ctx_err_def split: if_splits ctx_error.splits)
    next
      case (Inr a)
      with Suc Pair show ?thesis by simp
    qed
  qed
qed

lemma retry_success:
  assumes "retry env i (Suc n) fn out s = (Inr a, s')"
  shows "\<exists>s1 s2. fn s1 = (Inr a, s2)"
  using assms
proof (induction n arbitrary: i out s)
  case 0
  then show ?case
    by (auto split: prod.splits sum.splits if_splits option.splits)
next
  case (Suc n)
  then show ?case
    by (subst (asm) retry.simps) (auto split: prod.splits sum.splits if_splits option.splits)
qed

lemma retry_hard_failure:
  "fn s = (Inl e, s1) \<Longrightarrow> \<not> is_unavailable e \<Longrightarrow> retry env i (Suc n) fn out s = (Inl e, s1)"
  by simp

lemma retry_first_success:
  "fn s = (Inr a, s1) \<Longrightarrow> retry env i (Suc n) fn out s = (Inr a, s1)"
  by simp

lemma backoff_bounds:
  assumes "j < 150"
  shows "2 ^ i * 200000000 \<le> backoff i j \<and> backoff i j < 2 ^ i * 200000000 + 150000000"
  using assms by (simp add: backoff_def)

subsection \<open>The port the saga depends on\<close>

locale payment_processor =
  fixes P :: "'w processor"
  assumes authorize_quiet: "quiet (Authorize P pid amount cur tok)"
    and capture_quiet: "quiet (PCapture P ref)"
    and reverse_quiet: "quiet (Reverse P ref)"
    and authorize_outcome:
      "Authorize P pid amount cur tok s = (Inr res, s') \<Longrightarrow> Outcome res \<noteq> OutcomeEmpty"
    and authorize_no_breaker:
      "Authorize P pid amount cur tok s = (Inl e, s') \<Longrightarrow> \<not> is_breaker e"
    and capture_no_breaker: "PCapture P ref s = (Inl e, s') \<Longrightarrow> \<not> is_breaker e"
begin

lemmas authorize_frame = quietD [OF authorize_quiet]
lemmas capture_frame = quietD [OF capture_quiet]
lemmas reverse_frame = quietD [OF reverse_quiet]

end

text \<open>
  A decorated adapter is again such a port, whatever the adapter's own errors: the
  breaker's refusals are mapped before \<open>retry\<close> sees them.
\<close>

lemma asUnavailable_no_breaker [simp]: "\<not> is_breaker (asUnavailable e)"
  by (simp add: asUnavailable_def)

lemma map_error_InlD:
  "map_error f rs = (Inl e, s') \<Longrightarrow> \<exists>d. rs = (Inl d, s') \<and> e = f d"
  by (cases rs; cases "fst rs") (auto simp: map_error_def)

lemma map_error_InrD: "map_error f rs = (Inr a, s') \<Longrightarrow> rs = (Inr a, s')"
  by (cases rs; cases "fst rs") (auto simp: map_error_def)

lemma breaker_execute_InrD:
  "breaker_execute env br fn s = (Inr a, s') \<Longrightarrow> \<exists>s1 s2. fn s1 = (Inr a, s2)"
  by (auto simp: breaker_execute_def split: prod.splits option.splits refusal.splits)

lemma breaker_execute_InlD:
  "breaker_execute env br fn s = (Inl e, s') \<Longrightarrow> is_breaker e \<or> (\<exists>s1 s2. fn s1 = (Inl e, s2))"
  by (auto simp: breaker_execute_def split: prod.splits option.splits refusal.splits)

lemma resilient_no_breaker:
  assumes "retry env i n (\<lambda>s. map_error asUnavailable (fn s)) (Inr z) s = (Inl e, s')"
  shows "\<not> is_breaker e"
  by (rule retry_error [OF assms]) (auto dest!: map_error_InlD)

lemma withResilience_port:
  assumes "\<And>pid amount cur tok. quiet (Authorize inner pid amount cur tok)"
    and "\<And>ref. quiet (PCapture inner ref)" and "\<And>ref. quiet (Reverse inner ref)"
    and "\<And>pid amount cur tok s res s'.
      Authorize inner pid amount cur tok s = (Inr res, s') \<Longrightarrow> Outcome res \<noteq> OutcomeEmpty"
  shows "payment_processor (withResilience env inner)"
proof unfold_locales
  fix pid amount cur tok s res s'
  assume "Authorize (withResilience env inner) pid amount cur tok s = (Inr res, s')"
  then show "Outcome res \<noteq> OutcomeEmpty"
    unfolding withResilience_def numeral_3_eq_3 processor.simps
    by (blast dest!: retry_success map_error_InrD breaker_execute_InrD intro: assms(4) [THEN notE])
qed (auto simp: withResilience_def dest: resilient_no_breaker
    intro!: quiet_retry quiet_map_error quiet_breaker_execute assms(1-3))

lemma doAuthorize_outcome:
  "doAuthorize env body s = (Inr res, s') \<Longrightarrow> Outcome res \<noteq> OutcomeEmpty"
  by (auto simp: doAuthorize_def auth_result_of_def
      split: prod.splits http_reply.splits if_splits option.splits)

lemma walletAuthorize_outcome:
  "walletAuthorize env pid amount cur tok s = (Inr res, s') \<Longrightarrow> Outcome res \<noteq> OutcomeEmpty"
  by (auto simp: walletAuthorize_def split: prod.splits sum.splits if_splits)

interpretation card: payment_processor "withResilience env (cardProcessor env)" for env
  by (rule withResilience_port) (auto simp: cardProcessor_def dest: doAuthorize_outcome)

interpretation wallet: payment_processor "withResilience env (walletProcessor env)" for env
  by (rule withResilience_port) (auto simp: walletProcessor_def dest: walletAuthorize_outcome)

lemma factory_port: "factory_for env m = Inr P \<Longrightarrow> payment_processor P"
  using card.payment_processor_axioms wallet.payment_processor_axioms
  by (auto simp: factory_for_def split: if_splits)

end
