(* ===== verification/Saga.thy ===== *)
theory Saga
  imports Store Clients PSP
begin

section \<open>The saga engine\<close>

text \<open>
  \<open>internal/saga/saga.go\<close>: the five steps, the compensation path, the driving loop
  \<open>Advance\<close>, the sweepers, the entry points of the gateway consumer and of step-up, and the
  first event. A step returns what its Go function returns, \<open>Continue\<close> for true and \<open>Return\<close>
  for false, or \<open>Panic\<close> where the Go code would panic. \<open>go e.Advance(...)\<close> appends to
  \<open>spawned\<close>; \<open>run_spawned\<close> runs one started goroutine to its end.
\<close>

datatype flow = Continue | Return | Panic

definition deref :: "'w env \<Rightarrow> uuid option \<Rightarrow> string" where
  "deref env u = (case u of None \<Rightarrow> [] | Some i \<Rightarrow> uuid_str env i)"

definition derefS :: "string option \<Rightarrow> string" where
  "derefS x = (case x of None \<Rightarrow> [] | Some t \<Rightarrow> t)"

definition next_if_ok :: "go_error option \<times> 'w sys \<Rightarrow> flow \<times> 'w sys" where
  "next_if_ok es = (case es of (None, s) \<Rightarrow> (Continue, s) | (Some _, s) \<Rightarrow> (Return, s))"

subsection \<open>Compensation\<close>

definition failed_payload :: "'w env \<Rightarrow> payment \<Rightarrow> string \<Rightarrow> string \<Rightarrow> payload" where
  "failed_payload env p code detail =
     [(''payment_id'', JString (uuid_str env (ID p))),
      (''user_id'', JString (uuid_str env (UserID p))),
      (''failure_code'', JString code),
      (''failure_detail'', JString detail),
      (''amount_minor_units'', JInt (Amount p)),
      (''currency_code'', JString (Currency p))]"

definition topic_requested :: string where
  "topic_requested = ''payments.payment.requested.v1''"
definition topic_authorized :: string where
  "topic_authorized = ''payments.payment.authorized.v1''"
definition topic_captured :: string where
  "topic_captured = ''payments.payment.captured.v1''"
definition topic_failed :: string where
  "topic_failed = ''payments.payment.failed.v1''"

definition release_hold :: "'w env \<Rightarrow> payment \<Rightarrow> 'w sys \<Rightarrow> 'w sys" where
  "release_hold env p s =
     (case HoldID p of
        None \<Rightarrow> s
      | Some h \<Rightarrow> snd (Release env (ID p) h ''compensation'' s))"

definition failAndCompensate :: "'w env \<Rightarrow> payment \<Rightarrow> string \<Rightarrow> string \<Rightarrow> 'w sys \<Rightarrow> 'w sys" where
  "failAndCompensate env p failureCode detail s =
     snd (transitionWith env p Done Failed failureCode detail None
            (outbox_write env topic_failed ''payment'' (uuid_str env (ID p))
               (failed_payload env p failureCode detail))
            (release_hold env p s))"

subsection \<open>The steps\<close>

definition score_request_of :: "'w env \<Rightarrow> payment \<Rightarrow> time \<Rightarrow> score_request" where
  "score_request_of env p now =
     \<lparr>sq_payment_id = uuid_str env (ID p), sq_user_id = uuid_str env (UserID p),
      sq_account_id = uuid_str env (AccountID p), sq_amount_minor_units = Amount p,
      sq_currency_code = Currency p, sq_merchant_id = MerchantID p,
      sq_payment_method = Method p, sq_requested_at_unix_ms = now div 1000000\<rparr>"

definition stepFraud :: "'w env \<Rightarrow> payment \<Rightarrow> 'w sys \<Rightarrow> flow \<times> 'w sys" where
  "stepFraud env p s =
     (case Screen env (score_request_of env p (clock env (world s))) s of (verdict, s1) \<Rightarrow>
        (if RequiresActionV verdict then
           (Return, snd (transitionWith env p FraudScreened RequiresAction [] (Reason verdict)
              (Some (VRiskScore verdict)) id s1))
         else if \<not> Proceed verdict then
           (Return, failAndCompensate env p ''fraud_denied'' (Reason verdict) s1)
         else
           next_if_ok (transition env p FraudScreened Processing
             (set_row (ID p) (\<lambda>r. r\<lparr>pr_risk_score := Some (VRiskScore verdict)\<rparr>)) s1)))"

definition stepHold :: "'w env \<Rightarrow> payment \<Rightarrow> 'w sys \<Rightarrow> flow \<times> 'w sys" where
  "stepHold env p s =
     (case Hold env (ID p) (AccountID p) (Amount p) (Currency p) s of
        (Inl err, s1) \<Rightarrow>
          (if IsInsufficientFunds err
           then (Return, failAndCompensate env p ''insufficient_funds'' ''available balance too low'' s1)
           else (Return, s1))
      | (Inr holdID, s1) \<Rightarrow>
          (case uuid_parse env holdID of
             None \<Rightarrow> (Panic, s1)
           | Some hid \<Rightarrow>
               next_if_ok (transition env p FundsHeld Processing
                 (set_row (ID p) (\<lambda>r. r\<lparr>pr_hold_id := Some hid\<rparr>)) s1)))"

text \<open>An error of the processor the saga retries later instead of declining.\<close>

definition retryable :: "go_error \<Rightarrow> bool" where
  "retryable e \<longleftrightarrow> is_unavailable e \<or> is_deadline e"

definition authorized_payload :: "'w env \<Rightarrow> payment \<Rightarrow> string \<Rightarrow> payload" where
  "authorized_payload env p ref =
     [(''payment_id'', JString (uuid_str env (ID p))),
      (''hold_id'', JString (deref env (HoldID p))),
      (''psp_reference'', JString ref),
      (''amount_minor_units'', JInt (Amount p)),
      (''currency_code'', JString (Currency p))]"

definition submit_result :: "'w env \<Rightarrow> payment \<Rightarrow> go_error + auth_result \<Rightarrow> 'w sys \<Rightarrow> flow \<times> 'w sys" where
  "submit_result env p r s =
     (case r of
        Inl err \<Rightarrow>
          (if retryable err then (Return, touch env (ID p) s)
           else (Return, failAndCompensate env p ''gateway_declined'' (error_text err) s))
      | Inr result \<Rightarrow>
          (case Outcome result of
             OutcomeDeclined \<Rightarrow>
               (Return, failAndCompensate env p ''gateway_declined'' (DeclineCode result) s)
           | OutcomePending \<Rightarrow>
               (Return, snd (transition env p SubmittedToGateway Processing id s))
           | _ \<Rightarrow>
               next_if_ok (transition env p SubmittedToGateway Processing
                 (outbox_write env topic_authorized ''payment'' (uuid_str env (ID p))
                    (authorized_payload env p (Ref result))
                  \<circ> set_row (ID p) (\<lambda>r. r\<lparr>pr_psp_reference := Some (Ref result)\<rparr>)) s)))"

definition stepSubmit :: "'w env \<Rightarrow> payment \<Rightarrow> 'w sys \<Rightarrow> flow \<times> 'w sys" where
  "stepSubmit env p s =
     (case factory_for env (Method p) of
        Inl err \<Rightarrow> (Return, failAndCompensate env p ''gateway_declined'' (error_text err) s)
      | Inr processor \<Rightarrow>
          (case Authorize processor (ID p) (Amount p) (Currency p) (Token p) s of (r, s1) \<Rightarrow>
             submit_result env p r (log_call (CallAuthorize (ID p) r) s1)))"

definition capture_error :: "go_error + unit \<Rightarrow> go_error option" where
  "capture_error r = (case r of Inl e \<Rightarrow> Some e | Inr _ \<Rightarrow> None)"

definition psp_capture_result :: "'w env \<Rightarrow> payment \<Rightarrow> go_error + unit \<Rightarrow> 'w sys \<Rightarrow> flow \<times> 'w sys" where
  "psp_capture_result env p r s =
     (case r of
        Inl err \<Rightarrow>
          (if retryable err then (Return, touch env (ID p) s)
           else (Return, failAndCompensate env p ''gateway_capture_failed'' (error_text err) s))
      | Inr _ \<Rightarrow> next_if_ok (transition env p PspCaptured Processing id s))"

definition stepPSPCapture :: "'w env \<Rightarrow> payment \<Rightarrow> 'w sys \<Rightarrow> flow \<times> 'w sys" where
  "stepPSPCapture env p s =
     (case factory_for env (Method p) of
        Inl err \<Rightarrow> (Return, failAndCompensate env p ''gateway_declined'' (error_text err) s)
      | Inr processor \<Rightarrow>
          (case PSPReference p of
             None \<Rightarrow> (Panic, s)
           | Some ref \<Rightarrow>
               (case PCapture processor ref s of (r, s1) \<Rightarrow>
                  psp_capture_result env p r
                    (log_call (CallPspCapture (ID p) ref (capture_error r)) s1))))"

definition fxRateUsed :: "'w env \<Rightarrow> payment \<Rightarrow> 'w sys \<Rightarrow> json \<times> 'w sys" where
  "fxRateUsed env p s =
     (case FxQuoteID p of
        None \<Rightarrow> (JNull, s)
      | Some q \<Rightarrow>
          (case ask (db_read env) s of (ok, s1) \<Rightarrow>
             (if \<not> ok then (JNull, s1)
              else (case sql_select_one (\<lambda>f. fx_id f = q) (fx_quotes (db s1)) of
                      None \<Rightarrow> (JNull, s1)
                    | Some f \<Rightarrow> (JString (fx_rate f), s1)))))"

definition captured_payload :: "'w env \<Rightarrow> payment \<Rightarrow> string \<Rightarrow> json \<Rightarrow> payload" where
  "captured_payload env p ledgerTxn fxRate =
     [(''payment_id'', JString (uuid_str env (ID p))),
      (''user_id'', JString (uuid_str env (UserID p))),
      (''account_id'', JString (uuid_str env (AccountID p))),
      (''merchant_id'', JString (MerchantID p)),
      (''hold_id'', JString (deref env (HoldID p))),
      (''ledger_transaction_id'', JString ledgerTxn),
      (''psp_reference'', JString (derefS (PSPReference p))),
      (''amount_minor_units'', JInt (Amount p)),
      (''currency_code'', JString (Currency p)),
      (''fx_rate_used'', fxRate)]"

definition stepLedgerCapture :: "'w env \<Rightarrow> payment \<Rightarrow> 'w sys \<Rightarrow> flow \<times> 'w sys" where
  "stepLedgerCapture env p s =
     (case HoldID p of
        None \<Rightarrow> (Panic, s)
      | Some h \<Rightarrow>
          (case Capture env (ID p) h (Amount p) (Currency p) s of
             (Inl err, s1) \<Rightarrow> (Return, touch env (ID p) s1)
           | (Inr ledgerTxn, s1) \<Rightarrow>
               (case fxRateUsed env p s1 of (fxRate, s2) \<Rightarrow>
                  next_if_ok (terminalTx env p Captured Succeeded
                    (outbox_write env topic_captured ''payment'' (uuid_str env (ID p))
                       (captured_payload env p ledgerTxn fxRate)) s2))))"

subsection \<open>The driving loop\<close>

definition drive :: "'w env \<Rightarrow> payment \<Rightarrow> 'w sys \<Rightarrow> flow \<times> 'w sys" where
  "drive env p s =
     (case Step p of
        Requested \<Rightarrow> stepFraud env p s
      | FraudScreened \<Rightarrow> stepHold env p s
      | FundsHeld \<Rightarrow> stepSubmit env p s
      | SubmittedToGateway \<Rightarrow>
          (if PSPReference p = None then (Return, s) else stepPSPCapture env p s)
      | PspCaptured \<Rightarrow> stepLedgerCapture env p s
      | _ \<Rightarrow> (Return, s))"

text \<open>The loop with a bound on its iterations; \<open>None\<close> when the bound is too small.\<close>

fun advance :: "nat \<Rightarrow> 'w env \<Rightarrow> uuid \<Rightarrow> 'w sys \<Rightarrow> (flow \<times> 'w sys) option" where
  "advance 0 env i s = None"
| "advance (Suc n) env i s =
     (case load env i s of
        (Inl err, s1) \<Rightarrow> Some (Return, s1)
      | (Inr p, s1) \<Rightarrow>
          (if Status p \<noteq> Processing then Some (Return, s1)
           else (case drive env p s1 of
                   (Continue, s2) \<Rightarrow> advance n env i s2
                 | (Return, s2) \<Rightarrow> Some (Return, s2)
                 | (Panic, s2) \<Rightarrow> Some (Panic, s2))))"

text \<open>Six iterations are always enough (\<open>advance_terminates\<close> in \<open>Lifecycle\<close>).\<close>

definition Advance :: "'w env \<Rightarrow> uuid \<Rightarrow> 'w sys \<Rightarrow> flow \<times> 'w sys" where
  "Advance env i s = the (advance 6 env i s)"

definition run_spawned :: "'w env \<Rightarrow> 'w sys \<Rightarrow> flow \<times> 'w sys" where
  "run_spawned env s =
     (case spawned s of
        [] \<Rightarrow> (Return, s)
      | i # rest \<Rightarrow> Advance env i (s\<lparr>spawned := rest\<rparr>))"

end
