(* ===== verification/Sweeps.thy ===== *)
theory Sweeps
  imports Saga
begin

section \<open>Sweepers and entry points\<close>

text \<open>
  The rest of \<open>internal/saga/saga.go\<close>: the periodic sweepers of \<open>cmd/server/main.go\<close>, the
  completion the Kafka consumer reports, the resume after a second factor, and the event
  written with a new payment. A query names the columns it reads; the database rejects one
  that the payments table of \<open>migrations/\<close> does not have. Rows come back in the order of the
  table, which SQL leaves open; the theorems hold for every order.
\<close>

subsection \<open>Queries over the payments table\<close>

definition payments_columns :: "string list" where
  "payments_columns =
     [''id'', ''user_id'', ''account_id'', ''merchant_id'', ''instrument_id'', ''amount'',
      ''currency'', ''fx_quote_id'', ''status'', ''step'', ''hold_id'', ''psp_reference'',
      ''failure_code'', ''failure_detail'', ''risk_score'', ''version'', ''created_at'',
      ''updated_at'']"

definition query_payments :: "'w env \<Rightarrow> string list \<Rightarrow> (time \<Rightarrow> payment_row \<Rightarrow> bool) \<Rightarrow> 'w sys
    \<Rightarrow> (go_error + payment_row list) \<times> 'w sys" where
  "query_payments env cols P s =
     (case ask (db_read env) s of (ok, s1) \<Rightarrow>
        ((if ok \<and> list_all (\<lambda>c. List.member payments_columns c) cols
          then Inr (filter (P (clock env (world s1))) (payments (db s1)))
          else Inl DbError), s1))"

definition scan_limit :: nat where
  "scan_limit = 20"

text \<open>\<open>select id from payments where ... limit 20\<close>.\<close>

definition scan_ids :: "'w env \<Rightarrow> string list \<Rightarrow> (time \<Rightarrow> payment_row \<Rightarrow> bool) \<Rightarrow> 'w sys
    \<Rightarrow> (go_error + uuid list) \<times> 'w sys" where
  "scan_ids env cols P s =
     (case query_payments env cols P s of
        (Inl e, s1) \<Rightarrow> (Inl e, s1)
      | (Inr rows, s1) \<Rightarrow> (Inr (map pr_id (take scan_limit rows)), s1))"

definition stale :: "duration \<Rightarrow> time \<Rightarrow> payment_row \<Rightarrow> bool" where
  "stale d now r \<longleftrightarrow> pr_updated_at r < now - d"

subsection \<open>Resuming\<close>

definition resume_query :: "duration \<Rightarrow> time \<Rightarrow> payment_row \<Rightarrow> bool" where
  "resume_query d now r \<longleftrightarrow> pr_status r = Processing \<and> stale d now r"

definition ResumeStale :: "'w env \<Rightarrow> duration \<Rightarrow> 'w sys \<Rightarrow> 'w sys" where
  "ResumeStale env olderThan s =
     (case scan_ids env [''id'', ''status'', ''updated_at''] (resume_query olderThan) s of
        (Inl _, s1) \<Rightarrow> s1
      | (Inr ids, s1) \<Rightarrow> s1\<lparr>spawned := spawned s1 @ ids\<rparr>)"

subsection \<open>Expiry\<close>

text \<open>The body of the three sweeps that compensate: load each scanned payment and fail it.\<close>

fun compensate_all :: "'w env \<Rightarrow> string \<Rightarrow> string \<Rightarrow> uuid list \<Rightarrow> 'w sys \<Rightarrow> 'w sys" where
  "compensate_all env code detail [] s = s"
| "compensate_all env code detail (i # ids) s =
     (case load env i s of
        (Inl _, s1) \<Rightarrow> compensate_all env code detail ids s1
      | (Inr p, s1) \<Rightarrow> compensate_all env code detail ids (failAndCompensate env p code detail s1))"

definition sweep :: "'w env \<Rightarrow> string list \<Rightarrow> (time \<Rightarrow> payment_row \<Rightarrow> bool) \<Rightarrow> string \<Rightarrow> string
    \<Rightarrow> 'w sys \<Rightarrow> 'w sys" where
  "sweep env cols P code detail s =
     (case scan_ids env cols P s of
        (Inl _, s1) \<Rightarrow> s1
      | (Inr ids, s1) \<Rightarrow> compensate_all env code detail ids s1)"

definition stuck_submission :: "duration \<Rightarrow> time \<Rightarrow> payment_row \<Rightarrow> bool" where
  "stuck_submission d now r \<longleftrightarrow>
     pr_status r = Processing \<and> pr_step r = FundsHeld \<and> stale d now r"

definition ExpireStuckSubmissions :: "'w env \<Rightarrow> duration \<Rightarrow> 'w sys \<Rightarrow> 'w sys" where
  "ExpireStuckSubmissions env timeout s =
     sweep env [''id'', ''status'', ''step'', ''updated_at''] (stuck_submission timeout)
       ''gateway_unavailable'' ''processor unreachable past the submission timeout'' s"

definition stuck_capture :: "duration \<Rightarrow> time \<Rightarrow> payment_row \<Rightarrow> bool" where
  "stuck_capture d now r \<longleftrightarrow>
     pr_status r = Processing \<and> pr_step r = SubmittedToGateway
       \<and> pr_psp_reference r \<noteq> None \<and> stale d now r"

definition ExpireStuckCaptures :: "'w env \<Rightarrow> duration \<Rightarrow> 'w sys \<Rightarrow> 'w sys" where
  "ExpireStuckCaptures env timeout s =
     sweep env [''id'', ''status'', ''step'', ''psp_reference'', ''updated_at''] (stuck_capture timeout)
       ''gateway_capture_failed'' ''processor did not confirm the capture in time'' s"

text \<open>
  The wallet sweep also compares a column \<open>method\<close>. The rows of the table carry no method (it
  is a column of the instruments), so the row condition below can only be the rest of it.
\<close>

definition stale_wallet :: "duration \<Rightarrow> time \<Rightarrow> payment_row \<Rightarrow> bool" where
  "stale_wallet d now r \<longleftrightarrow>
     pr_status r = Processing \<and> pr_step r = SubmittedToGateway
       \<and> pr_psp_reference r = None \<and> stale d now r"

definition wallet_columns :: "string list" where
  "wallet_columns = [''id'', ''status'', ''step'', ''method'', ''psp_reference'', ''updated_at'']"

definition ExpireStaleWallets :: "'w env \<Rightarrow> duration \<Rightarrow> 'w sys \<Rightarrow> 'w sys" where
  "ExpireStaleWallets env timeout s =
     sweep env wallet_columns (stale_wallet timeout)
       ''gateway_timeout'' ''wallet processor did not report an outcome'' s"

definition expire_row :: "time \<Rightarrow> payment_row \<Rightarrow> payment_row" where
  "expire_row now r =
     r\<lparr>pr_status := Failed, pr_step := Done,
       pr_failure_code := Some ''step_up_expired'',
       pr_failure_detail := Some ''second factor was not completed in time'',
       pr_updated_at := now\<rparr>"

definition ExpireStaleRequiresAction :: "'w env \<Rightarrow> duration \<Rightarrow> 'w sys \<Rightarrow> 'w sys" where
  "ExpireStaleRequiresAction env timeout s =
     snd (pool_exec env (\<lambda>now. update_payments
       (\<lambda>r. pr_status r = RequiresAction \<and> stale timeout now r) (expire_row now)) s)"

text \<open>The alert only counts; the count is what it logs.\<close>

definition AlertStalledLedgerCaptures :: "'w env \<Rightarrow> duration \<Rightarrow> 'w sys \<Rightarrow> (go_error + nat) \<times> 'w sys" where
  "AlertStalledLedgerCaptures env olderThan s =
     (case query_payments env [''status'', ''step'', ''updated_at'']
         (\<lambda>now r. pr_status r = Processing \<and> pr_step r = PspCaptured \<and> stale olderThan now r) s of
        (Inl e, s1) \<Rightarrow> (Inl e, s1)
      | (Inr rows, s1) \<Rightarrow> (Inr (length rows), s1))"

subsection \<open>Completion from the gateway and resume after step-up\<close>

text \<open>The error it returns, whether \<open>Advance\<close> panicked inside it, and the service.\<close>

definition CompleteFromGateway :: "'w env \<Rightarrow> uuid \<Rightarrow> bool \<Rightarrow> string \<Rightarrow> string \<Rightarrow> 'w sys
    \<Rightarrow> go_error option \<times> flow \<times> 'w sys" where
  "CompleteFromGateway env i approved pspRef declineCode s =
     (case load env i s of
        (Inl err, s1) \<Rightarrow> (Some (Wrapped (''load payment '' @ uuid_str env i) err), Return, s1)
      | (Inr p, s1) \<Rightarrow>
          (if Status p \<noteq> Processing \<or> Step p \<noteq> SubmittedToGateway then (None, Return, s1)
           else if approved then
             (case transition env p SubmittedToGateway Processing
                     (set_row (ID p) (\<lambda>r. r\<lparr>pr_psp_reference := Some pspRef\<rparr>)) s1 of
                (Some err, s2) \<Rightarrow> (Some (Wrapped ''gateway completion persist'' err), Return, s2)
              | (None, s2) \<Rightarrow> (case Advance env (ID p) s2 of (f, s3) \<Rightarrow> (None, f, s3)))
           else (None, Return, failAndCompensate env p ''gateway_declined'' declineCode s1)))"

definition ResumeAfterStepUp :: "'w env \<Rightarrow> uuid \<Rightarrow> uuid \<Rightarrow> 'w sys \<Rightarrow> go_error option \<times> 'w sys" where
  "ResumeAfterStepUp env i user s =
     (case load env i s of
        (Inl err, s1) \<Rightarrow> (Some err, s1)
      | (Inr p, s1) \<Rightarrow>
          (if UserID p \<noteq> user \<or> Status p \<noteq> RequiresAction then (Some NotResumable, s1)
           else
             (case transition env p FraudScreened Processing id s1 of
                (Some err, s2) \<Rightarrow> (Some err, s2)
              | (None, s2) \<Rightarrow> (None, s2\<lparr>spawned := spawned s2 @ [ID p]\<rparr>))))"

definition requested_payload :: "'w env \<Rightarrow> uuid \<Rightarrow> uuid \<Rightarrow> string \<Rightarrow> int \<Rightarrow> string \<Rightarrow> uuid option \<Rightarrow> payload" where
  "requested_payload env pid user merchant amount cur fx =
     [(''payment_id'', JString (uuid_str env pid)),
      (''user_id'', JString (uuid_str env user)),
      (''merchant_id'', JString merchant),
      (''amount_minor_units'', JInt amount),
      (''currency_code'', JString cur)]
     @ (case fx of None \<Rightarrow> [] | Some q \<Rightarrow> [(''fx_quote_id'', JString (uuid_str env q))])"

definition WriteRequestedEvent :: "'w env \<Rightarrow> uuid \<Rightarrow> uuid \<Rightarrow> string \<Rightarrow> int \<Rightarrow> string \<Rightarrow> uuid option
    \<Rightarrow> 'w sys \<Rightarrow> 'w sys" where
  "WriteRequestedEvent env pid user merchant amount cur fx s =
     outbox_write env topic_requested ''payment'' (uuid_str env pid)
       (requested_payload env pid user merchant amount cur fx) s"

end
