(* ===== verification/Invariants.thy ===== *)
theory Invariants
  imports Sweeps
begin

section \<open>The invariant of the saga and what every operation keeps of it\<close>

text \<open>
  \<open>sys_ok\<close> is what the rows, the outbox and the history of money calls always satisfy, and
  \<open>ext\<close> is how the service may grow: calls are only appended, no payment disappears, the
  money fields of a payment never change, a hold or processor reference once recorded stays
  recorded, and a terminal payment is final. \<open>snap_ok\<close> is what a worker may still assume of
  a payment it loaded a while ago; it is stable under \<open>ext\<close>. For each operation: from a good
  state and a possibly stale snapshot it leads to a good state that extends the first.
\<close>

subsection \<open>Definitions\<close>

definition terminal :: "status \<Rightarrow> bool" where
  "terminal sta \<longleftrightarrow> sta = Succeeded \<or> sta = Failed"

text \<open>The processor confirmed a capture for the payment; the ledger accepted one.\<close>

definition confirmed :: "uuid \<Rightarrow> call list \<Rightarrow> bool" where
  "confirmed i cs \<longleftrightarrow> (\<exists>ref. CallPspCapture i ref None \<in> set cs)"

definition booked :: "'w env \<Rightarrow> uuid \<Rightarrow> call list \<Rightarrow> bool" where
  "booked env i cs \<longleftrightarrow>
     (\<exists>req txn. CallLedgerCapture req (Inr txn) \<in> set cs
        \<and> cr_request_id req = ''capture:'' @ uuid_str env i)"

definition row_ok :: "'w env \<Rightarrow> call list \<Rightarrow> payment_row \<Rightarrow> bool" where
  "row_ok env cs r \<longleftrightarrow>
     (pr_step r \<in> {FundsHeld, SubmittedToGateway, PspCaptured, Captured} \<longrightarrow> pr_hold_id r \<noteq> None)
   \<and> (pr_step r \<in> {PspCaptured, Captured} \<longrightarrow> pr_psp_reference r \<noteq> None \<and> confirmed (pr_id r) cs)
   \<and> (pr_step r = Captured \<longrightarrow> booked env (pr_id r) cs)
   \<and> (pr_status r = Succeeded \<longleftrightarrow> pr_step r = Captured)
   \<and> (pr_status r = Failed \<longleftrightarrow> pr_step r = Done)
   \<and> (pr_status r = RequiresAction \<longrightarrow> pr_step r = FraudScreened)
   \<and> pr_status r \<notin> {Canceled, Refunded}
   \<and> pr_step r \<notin> {Recorded, Notified, Compensating}"

definition terminal_events :: "'w env \<Rightarrow> uuid \<Rightarrow> outbox_row list \<Rightarrow> string list" where
  "terminal_events env i obs =
     map ob_type (filter (\<lambda>b. (ob_type b = topic_captured \<or> ob_type b = topic_failed)
       \<and> ob_aggregateid b = uuid_str env i) obs)"

text \<open>
  One terminal event per terminal payment, of the right kind, and none before. The only
  terminal payments without one are those whose step-up expired.
\<close>

definition events_ok :: "'w env \<Rightarrow> outbox_row list \<Rightarrow> payment_row \<Rightarrow> bool" where
  "events_ok env obs r \<longleftrightarrow>
     terminal_events env (pr_id r) obs =
       (if pr_status r = Succeeded then [topic_captured]
        else if pr_status r = Failed \<and> pr_failure_code r \<noteq> Some ''step_up_expired'' then [topic_failed]
        else [])"

definition ledger_ordered :: "'w env \<Rightarrow> call list \<Rightarrow> bool" where
  "ledger_ordered env cs \<longleftrightarrow>
     (\<forall>xs req res ys. cs = xs @ CallLedgerCapture req res # ys \<longrightarrow>
        (\<exists>i. confirmed i xs \<and> cr_request_id req = ''capture:'' @ uuid_str env i))"

definition sys_ok :: "'w env \<Rightarrow> 'w sys \<Rightarrow> bool" where
  "sys_ok env s \<longleftrightarrow>
     distinct (map pr_id (payments (db s)))
   \<and> (\<forall>r \<in> set (payments (db s)). row_ok env (calls s) r \<and> events_ok env (outbox (db s)) r)
   \<and> ledger_ordered env (calls s)"

definition core :: "payment_row \<Rightarrow> uuid \<times> uuid \<times> uuid \<times> string \<times> uuid \<times> int \<times> string \<times> uuid option" where
  "core r = (pr_id r, pr_user_id r, pr_account_id r, pr_merchant_id r, pr_instrument_id r,
     pr_amount r, pr_currency r, pr_fx_quote_id r)"

definition row_ext :: "payment_row \<Rightarrow> payment_row \<Rightarrow> bool" where
  "row_ext r r' \<longleftrightarrow>
     core r' = core r
   \<and> (pr_hold_id r \<noteq> None \<longrightarrow> pr_hold_id r' \<noteq> None)
   \<and> (pr_psp_reference r \<noteq> None \<longrightarrow> pr_psp_reference r' \<noteq> None)
   \<and> (terminal (pr_status r) \<longrightarrow> r' = r\<lparr>pr_updated_at := pr_updated_at r'\<rparr>)"

definition ext :: "'w sys \<Rightarrow> 'w sys \<Rightarrow> bool" where
  "ext s s' \<longleftrightarrow>
     (\<exists>cs. calls s' = calls s @ cs)
   \<and> (\<forall>r \<in> set (payments (db s)). \<exists>r' \<in> set (payments (db s')). row_ext r r')"

definition snap_ok :: "'w sys \<Rightarrow> payment \<Rightarrow> bool" where
  "snap_ok s p \<longleftrightarrow>
     (\<exists>r \<in> set (payments (db s)). pr_id r = ID p
        \<and> (Step p \<in> {FundsHeld, SubmittedToGateway, PspCaptured} \<longrightarrow>
             HoldID p \<noteq> None \<and> pr_hold_id r \<noteq> None)
        \<and> (Step p \<in> {SubmittedToGateway, PspCaptured} \<and> PSPReference p \<noteq> None \<longrightarrow>
             pr_psp_reference r \<noteq> None))
   \<and> (Step p = PspCaptured \<longrightarrow> PSPReference p \<noteq> None \<and> confirmed (ID p) (calls s))
   \<and> (Status p = RequiresAction \<longrightarrow> Step p = FraudScreened)"

subsection \<open>Order and stability\<close>

lemma row_ext_refl [simp]: "row_ext r r"
  by (simp add: row_ext_def)

lemma row_ext_nonterminal:
  "\<not> terminal (pr_status r) \<Longrightarrow> core r' = core r
    \<Longrightarrow> (pr_hold_id r \<noteq> None \<Longrightarrow> pr_hold_id r' \<noteq> None)
    \<Longrightarrow> (pr_psp_reference r \<noteq> None \<Longrightarrow> pr_psp_reference r' \<noteq> None) \<Longrightarrow> row_ext r r'"
  by (simp add: row_ext_def)

lemma row_ext_id: "row_ext r r' \<Longrightarrow> pr_id r' = pr_id r"
  by (simp add: row_ext_def core_def)

lemma terminal_row_ext: "row_ext r r' \<Longrightarrow> terminal (pr_status r) \<Longrightarrow> pr_status r' = pr_status r"
  unfolding row_ext_def by (metis payment_row.select_convs(9) payment_row.surjective
      payment_row.update_convs(18))

lemma row_ext_trans:
  assumes "row_ext r s" and "row_ext s t"
  shows "row_ext r t"
proof -
  have "t = r\<lparr>pr_updated_at := pr_updated_at t\<rparr>" if "terminal (pr_status r)"
  proof -
    have s: "s = r\<lparr>pr_updated_at := pr_updated_at s\<rparr>"
      using assms(1) that by (simp add: row_ext_def)
    then have "pr_status s = pr_status r"
      by (metis payment_row.select_convs(9) payment_row.surjective payment_row.update_convs(18))
    then have "t = s\<lparr>pr_updated_at := pr_updated_at t\<rparr>"
      using assms(2) that by (simp add: row_ext_def)
    with s show ?thesis
      by (metis payment_row.surjective payment_row.update_convs(18))
  qed
  with assms show ?thesis by (simp add: row_ext_def)
qed

lemma ext_refl [simp, intro]: "ext s s"
  unfolding ext_def by (metis append_Nil2 row_ext_refl)

lemma ext_trans [trans]: "ext s t \<Longrightarrow> ext t u \<Longrightarrow> ext s u"
  unfolding ext_def by (metis append.assoc row_ext_trans)

lemma confirmed_append [simp]: "confirmed i (cs @ ds) \<longleftrightarrow> confirmed i cs \<or> confirmed i ds"
  by (auto simp: confirmed_def)

lemma booked_append [simp]: "booked env i (cs @ ds) \<longleftrightarrow> booked env i cs \<or> booked env i ds"
  by (auto simp: booked_def)

lemma row_ok_append: "row_ok env cs r \<Longrightarrow> row_ok env (cs @ ds) r"
  by (auto simp: row_ok_def)

lemma terminal_events_append [simp]:
  "terminal_events env i (xs @ ys) = terminal_events env i xs @ terminal_events env i ys"
  by (simp add: terminal_events_def)

lemma snap_ok_ext:
  assumes "snap_ok s p" and "ext s s'"
  shows "snap_ok s' p"
proof -
  obtain r where r: "r \<in> set (payments (db s))" "pr_id r = ID p"
    and hold: "Step p \<in> {FundsHeld, SubmittedToGateway, PspCaptured} \<longrightarrow>
             HoldID p \<noteq> None \<and> pr_hold_id r \<noteq> None"
    and ref: "Step p \<in> {SubmittedToGateway, PspCaptured} \<and> PSPReference p \<noteq> None \<longrightarrow>
             pr_psp_reference r \<noteq> None"
    using assms(1) by (auto simp: snap_ok_def)
  from assms(2) r(1) obtain r' where r': "r' \<in> set (payments (db s'))" "row_ext r r'"
    by (auto simp: ext_def)
  with r hold ref have "pr_id r' = ID p"
    "Step p \<in> {FundsHeld, SubmittedToGateway, PspCaptured} \<longrightarrow> HoldID p \<noteq> None \<and> pr_hold_id r' \<noteq> None"
    "Step p \<in> {SubmittedToGateway, PspCaptured} \<and> PSPReference p \<noteq> None \<longrightarrow> pr_psp_reference r' \<noteq> None"
    by (auto simp: row_ext_def core_def)
  with r'(1) have "\<exists>r \<in> set (payments (db s')). pr_id r = ID p
        \<and> (Step p \<in> {FundsHeld, SubmittedToGateway, PspCaptured} \<longrightarrow>
             HoldID p \<noteq> None \<and> pr_hold_id r \<noteq> None)
        \<and> (Step p \<in> {SubmittedToGateway, PspCaptured} \<and> PSPReference p \<noteq> None \<longrightarrow>
             pr_psp_reference r \<noteq> None)"
    by blast
  moreover have "confirmed i (calls s) \<Longrightarrow> confirmed i (calls s')" for i
    using assms(2) by (auto simp: ext_def)
  ultimately show ?thesis
    using assms(1) by (auto simp: snap_ok_def)
qed

lemma load_snap_ok:
  assumes "sys_ok env s" and "load env' i s = (Inr p, s')"
  shows "snap_ok s' p"
proof -
  from load_InrD [OF assms(2)] obtain r n where r: "r \<in> set (payments (db s))" "p = payment_of r n"
    by blast
  have s': "db s' = db s" "calls s' = calls s"
    using load_frame(1,4) [of env' i s] assms(2) by simp_all
  from r(1) assms(1) have "row_ok env (calls s) r"
    by (simp add: sys_ok_def)
  then show ?thesis
    unfolding snap_ok_def s' r(2) using r(1)
    by (auto simp: row_ok_def)
qed

lemma sys_ok_same:
  "sys_ok env s \<Longrightarrow> payments (db s') = payments (db s) \<Longrightarrow> outbox (db s') = outbox (db s)
    \<Longrightarrow> calls s' = calls s \<Longrightarrow> sys_ok env s' \<and> ext s s'"
  by (auto simp: sys_ok_def ext_def intro: row_ext_refl)

text \<open>A call appended to the history; a ledger capture needs its confirmation.\<close>

lemma ledger_ordered_snoc:
  assumes "ledger_ordered env cs"
    and "\<And>req res. c = CallLedgerCapture req res \<Longrightarrow>
      \<exists>i. confirmed i cs \<and> cr_request_id req = ''capture:'' @ uuid_str env i"
  shows "ledger_ordered env (cs @ [c])"
  unfolding ledger_ordered_def
proof (intro allI impI)
  fix xs req res ys
  assume eq: "cs @ [c] = xs @ CallLedgerCapture req res # ys"
  show "\<exists>i. confirmed i xs \<and> cr_request_id req = ''capture:'' @ uuid_str env i"
  proof (cases ys rule: rev_cases)
    case Nil
    with eq assms(2) show ?thesis by auto
  next
    case (snoc zs z)
    with eq have "cs = xs @ CallLedgerCapture req res # zs" by simp
    with assms(1) show ?thesis by (auto simp: ledger_ordered_def)
  qed
qed

lemma sys_ok_call:
  assumes "sys_ok env s" and "db s' = db s" and "calls s' = calls s @ [c]"
    and "\<And>req res. c = CallLedgerCapture req res \<Longrightarrow>
      \<exists>i. confirmed i (calls s) \<and> cr_request_id req = ''capture:'' @ uuid_str env i"
  shows "sys_ok env s' \<and> ext s s'"
  using assms ledger_ordered_snoc [of env "calls s" c]
  by (auto simp: sys_ok_def ext_def intro: row_ok_append row_ext_refl)

subsection \<open>Guarded transactions\<close>

text \<open>
  What the extra statements of a transaction do: to the row of the payment, and which events
  they append.
\<close>

definition extra_shape :: "uuid \<Rightarrow> (payment_row \<Rightarrow> payment_row) \<Rightarrow> (outbox_row list \<Rightarrow> bool)
    \<Rightarrow> ('w sys \<Rightarrow> 'w sys) \<Rightarrow> bool" where
  "extra_shape i g Obs extra \<longleftrightarrow>
     (\<forall>t. payments (db (extra t)) = map (\<lambda>r. if pr_id r = i then g r else r) (payments (db t))
        \<and> calls (extra t) = calls t
        \<and> (\<exists>obs. outbox (db (extra t)) = outbox (db t) @ obs \<and> Obs obs))"

definition one_event :: "string \<Rightarrow> string \<Rightarrow> outbox_row list \<Rightarrow> bool" where
  "one_event topic ag obs \<longleftrightarrow> (\<exists>b. obs = [b] \<and> ob_type b = topic \<and> ob_aggregateid b = ag)"

lemma extra_shapeD:
  assumes "extra_shape i g Obs extra"
  shows "payments (db (extra t)) = map (\<lambda>r. if pr_id r = i then g r else r) (payments (db t))"
    and "calls (extra t) = calls t"
    and "\<exists>obs. outbox (db (extra t)) = outbox (db t) @ obs \<and> Obs obs"
  using assms by (simp_all add: extra_shape_def)

lemma extra_id: "extra_shape i id (\<lambda>obs. obs = []) id"
  by (simp add: extra_shape_def map_idI)

lemma extra_set_row: "extra_shape i f (\<lambda>obs. obs = []) (set_row i f)"
  by (simp add: extra_shape_def)

lemma extra_outbox: "extra_shape i id (one_event topic ag) (outbox_write env topic ty ag body)"
proof -
  have "\<exists>obs. outbox (db (outbox_write env topic ty ag body t)) = outbox (db t) @ obs
      \<and> one_event topic ag obs" for t
    using outbox_write_outbox [of env topic ty ag body t] by (auto simp: one_event_def)
  then show ?thesis by (simp add: extra_shape_def map_idI)
qed

lemma extra_outbox_set_row:
  "extra_shape i f (one_event topic ag) (outbox_write env topic ty ag body \<circ> set_row i f)"
proof -
  have "\<exists>obs. outbox (db (outbox_write env topic ty ag body (set_row i f t))) = outbox (db t) @ obs
      \<and> one_event topic ag obs" for t
    using outbox_write_outbox [of env topic ty ag body "set_row i f t"]
    by (auto simp: one_event_def)
  then show ?thesis by (simp add: extra_shape_def)
qed

text \<open>Replacing the one row of a payment, with new events about that payment only.\<close>

lemma replace_row_ok:
  assumes ok: "sys_ok env s" and inj: "inj (uuid_str env)"
    and r: "r \<in> set (payments (db s))"
    and rows: "payments (db s') =
      map (\<lambda>x. if pr_id x = pr_id r then h x else x) (payments (db s))"
    and calls: "calls s' = calls s" and obs: "outbox (db s') = outbox (db s) @ obs"
    and new: "row_ok env (calls s) (h r)" "row_ext r (h r)"
      "events_ok env (outbox (db s) @ obs) (h r)"
    and own: "\<And>b. b \<in> set obs \<Longrightarrow> ob_type b \<in> {topic_captured, topic_failed}
      \<Longrightarrow> ob_aggregateid b = uuid_str env (pr_id r)"
  shows "sys_ok env s' \<and> ext s s'"
proof -
  have uniq: "x = r" if "x \<in> set (payments (db s))" "pr_id x = pr_id r" for x
    using ok r that by (auto simp: sys_ok_def distinct_map inj_on_def)
  have id: "pr_id (h r) = pr_id r"
    using new(2) by (rule row_ext_id)
  have "map pr_id (payments (db s')) = map pr_id (payments (db s))"
    unfolding rows using id uniq by auto
  then have dist: "distinct (map pr_id (payments (db s')))"
    using ok by (simp add: sys_ok_def)
  have others: "terminal_events env (pr_id x) obs = []" if "pr_id x \<noteq> pr_id r" for x
    using that inj own by (auto simp: terminal_events_def filter_empty_conv inj_def)
  have good: "row_ok env (calls s') x' \<and> events_ok env (outbox (db s')) x'"
    if "x' \<in> set (payments (db s'))" for x'
  proof -
    from that obtain x where x: "x \<in> set (payments (db s))"
      and x': "x' = (if pr_id x = pr_id r then h x else x)"
      by (auto simp: rows)
    show ?thesis
    proof (cases "pr_id x = pr_id r")
      case True
      with uniq [OF x True] x' new show ?thesis by (simp add: calls obs)
    next
      case False
      with x x' ok others show ?thesis
        by (simp add: sys_ok_def calls obs events_ok_def)
    qed
  qed
  have "\<exists>x' \<in> set (payments (db s')). row_ext x x'" if "x \<in> set (payments (db s))" for x
    using that uniq [OF that] new(2) row_ext_refl
    by (cases "pr_id x = pr_id r") (force simp: rows)+
  then have "ext s s'"
    by (auto simp: ext_def calls)
  with dist good ok show ?thesis by (simp add: sys_ok_def calls)
qed

lemma guarded_tx_ok:
  assumes ok: "sys_ok env s" and inj: "inj (uuid_str env)"
    and tx: "guarded_tx env err G f extra s = (e, s')"
    and guard: "\<And>r. G r \<Longrightarrow> pr_id r = i" and shape: "extra_shape i g Obs extra"
    and keep: "\<And>now r. pr_id (f now r) = pr_id r"
    and own: "\<And>obs b. Obs obs \<Longrightarrow> b \<in> set obs
      \<Longrightarrow> ob_type b \<in> {topic_captured, topic_failed} \<Longrightarrow> ob_aggregateid b = uuid_str env i"
    and new: "\<And>r now obs. r \<in> set (payments (db s)) \<Longrightarrow> G r \<Longrightarrow> row_ok env (calls s) r
      \<Longrightarrow> events_ok env (outbox (db s)) r \<Longrightarrow> Obs obs \<Longrightarrow>
        row_ok env (calls s) (g (f now r)) \<and> row_ext r (g (f now r))
        \<and> events_ok env (outbox (db s) @ obs) (g (f now r))"
  shows "sys_ok env s' \<and> ext s s'"
  using tx
proof (cases rule: guarded_tx_effect)
  case (none)
  with ok show ?thesis by (intro sys_ok_same) simp_all
next
  case (commit t r)
  define now where "now = clock env (world t)"
  let ?t = "t\<lparr>db := (db s)\<lparr>payments :=
             map (\<lambda>r. if G r then f now r else r) (payments (db s))\<rparr>\<rparr>"
  have s': "s' = extra ?t"
    unfolding now_def by (rule commit(7))
  from extra_shapeD(3) [OF shape, of ?t]
  obtain obs where obs: "outbox (db s') = outbox (db s) @ obs" "Obs obs"
    unfolding s' by auto
  have i: "pr_id r = i" using guard commit by blast
  have uniq: "x = r" if "x \<in> set (payments (db s))" "pr_id x = i" for x
    using ok commit(5) that i by (auto simp: sys_ok_def distinct_map inj_on_def)
  have "payments (db s') =
      map (\<lambda>x. if pr_id x = i then g x else x) (map (\<lambda>x. if G x then f now x else x) (payments (db s)))"
    unfolding s' by (simp add: extra_shapeD(1) [OF shape])
  also have "\<dots> = map (\<lambda>x. if pr_id x = pr_id r then g (f now x) else x) (payments (db s))"
    using uniq commit(6) guard keep i by auto
  finally have rows: "payments (db s') =
    map (\<lambda>x. if pr_id x = pr_id r then g (f now x) else x) (payments (db s))" .
  have calls: "calls s' = calls s"
    unfolding s' by (simp add: extra_shapeD(2) [OF shape] commit(4))
  have "row_ok env (calls s) r \<and> events_ok env (outbox (db s)) r"
    using ok commit(5) by (simp add: sys_ok_def)
  with new [OF commit(5,6) _ _ obs(2), of now] own [OF obs(2)] show ?thesis
    by (intro replace_row_ok [OF ok inj commit(5) rows calls obs(1)]) (auto simp: i)
qed

subsection \<open>Transitions\<close>

lemma announce_simps [simp]:
  "db (announce env p sta st s) = db s" "calls (announce env p sta st s) = calls s"
  "spawned (announce env p sta st s) = spawned s"
  by (simp_all add: announce_def)

lemma announce_ok: "sys_ok env s \<Longrightarrow> ext t s \<Longrightarrow>
    sys_ok env (announce env p sta st s) \<and> ext t (announce env p sta st s)"
  using sys_ok_same [of env s "announce env p sta st s"] ext_trans by auto

definition quiet_obs :: "outbox_row list \<Rightarrow> bool" where
  "quiet_obs obs \<longleftrightarrow> (\<forall>b \<in> set obs. ob_type b \<notin> {topic_captured, topic_failed})"

lemma quiet_obs_Nil [simp]: "quiet_obs []"
  by (simp add: quiet_obs_def)

lemma quiet_obs_terminal_events: "quiet_obs obs \<Longrightarrow> terminal_events env i obs = []"
  by (auto simp: quiet_obs_def terminal_events_def filter_empty_conv)

lemma topics_distinct [simp]:
  "topic_requested \<noteq> topic_captured" "topic_requested \<noteq> topic_failed"
  "topic_authorized \<noteq> topic_captured" "topic_authorized \<noteq> topic_failed"
  "topic_captured \<noteq> topic_failed" "topic_failed \<noteq> topic_captured"
  by (simp_all add: topic_requested_def topic_authorized_def topic_captured_def topic_failed_def)

lemma one_event_quiet: "one_event topic_authorized ag obs \<Longrightarrow> quiet_obs obs"
  by (auto simp: one_event_def quiet_obs_def)

lemma one_event_terminal:
  "one_event topic (uuid_str env i) obs \<Longrightarrow> topic \<in> {topic_captured, topic_failed} \<Longrightarrow>
     terminal_events env i obs = [topic]"
  by (auto simp: one_event_def terminal_events_def)

text \<open>
  A transition between non-terminal steps: its guard fixes the step, the invariant of the row
  says the payment is not terminal, and it writes no terminal event.
\<close>

lemma row_ok_terminal_iff:
  "row_ok env cs r \<Longrightarrow> terminal (pr_status r) \<longleftrightarrow> pr_step r = Captured \<or> pr_step r = Done"
  unfolding row_ok_def terminal_def by metis

lemma transition_ok:
  assumes ok: "sys_ok env s" and inj: "inj (uuid_str env)"
    and tr: "transition env p st Processing extra s = (e, s')"
    and frm: "Step p \<in> {Requested, FraudScreened, FundsHeld, SubmittedToGateway}"
    and shape: "extra_shape (ID p) g Obs extra" and Obs: "\<And>obs. Obs obs \<Longrightarrow> quiet_obs obs"
    and new: "\<And>r now. r \<in> set (payments (db s)) \<Longrightarrow> pr_id r = ID p \<Longrightarrow> pr_step r = Step p
      \<Longrightarrow> row_ok env (calls s) r \<Longrightarrow>
        (let r' = g (transition_row st Processing now r)
         in row_ok env (calls s) r' \<and> core r' = core r \<and> pr_status r' = Processing
          \<and> (pr_hold_id r \<noteq> None \<longrightarrow> pr_hold_id r' \<noteq> None)
          \<and> (pr_psp_reference r \<noteq> None \<longrightarrow> pr_psp_reference r' \<noteq> None))"
  shows "sys_ok env s' \<and> ext s s'"
proof -
  obtain e' t where t: "guarded_tx env (ConcurrentTransition (ID p))
      (\<lambda>r. pr_id r = ID p \<and> pr_step r = Step p) (transition_row st Processing) extra s = (e', t)"
    by fastforce
  have "sys_ok env t \<and> ext s t"
  proof (rule guarded_tx_ok [OF ok inj t _ shape])
    fix r now obs
    assume r: "r \<in> set (payments (db s))" "pr_id r = ID p \<and> pr_step r = Step p"
      "row_ok env (calls s) r" "events_ok env (outbox (db s)) r" "Obs obs"
    let ?r' = "g (transition_row st Processing now r)"
    have n: "row_ok env (calls s) ?r' \<and> core ?r' = core r \<and> pr_status ?r' = Processing
          \<and> (pr_hold_id r \<noteq> None \<longrightarrow> pr_hold_id ?r' \<noteq> None)
          \<and> (pr_psp_reference r \<noteq> None \<longrightarrow> pr_psp_reference ?r' \<noteq> None)"
      using new [of r now] r by (simp add: Let_def)
    have nt: "\<not> terminal (pr_status r)"
      using row_ok_terminal_iff [OF r(3)] r(2) frm by auto
    have "terminal_events env (pr_id ?r') obs = []"
      using Obs [OF r(5)] by (rule quiet_obs_terminal_events)
    moreover have "pr_id ?r' = pr_id r"
      using n by (simp add: core_def)
    ultimately have "events_ok env (outbox (db s) @ obs) ?r'"
      using n nt r(4) by (simp add: events_ok_def terminal_def)
    moreover have "row_ext r ?r'"
      by (rule row_ext_nonterminal [OF nt]) (use n in simp_all)
    ultimately show "row_ok env (calls s) ?r' \<and> row_ext r ?r'
        \<and> events_ok env (outbox (db s) @ obs) ?r'"
      using n by simp
  next
    fix obs b
    assume "Obs obs" "b \<in> set obs" "ob_type b \<in> {topic_captured, topic_failed}"
    with Obs [of obs] show "ob_aggregateid b = uuid_str env (ID p)"
      by (auto simp: quiet_obs_def)
  qed (auto simp: transition_row_def)
  with tr t announce_ok [of env t s] show ?thesis
    by (auto simp: transition_def split: option.splits)
qed

text \<open>A terminal or parking transition: its guard is the status alone.\<close>

lemma transitionWith_ok:
  assumes ok: "sys_ok env s" and inj: "inj (uuid_str env)"
    and tr: "transitionWith env p st sta code detail risk extra s = (e, s')"
    and shape: "extra_shape (ID p) id Obs extra"
    and own: "\<And>obs b. Obs obs \<Longrightarrow> b \<in> set obs
      \<Longrightarrow> ob_type b \<in> {topic_captured, topic_failed} \<Longrightarrow> ob_aggregateid b = uuid_str env (ID p)"
    and new: "\<And>r now obs. r \<in> set (payments (db s)) \<Longrightarrow> pr_id r = ID p \<Longrightarrow> Obs obs
      \<Longrightarrow> pr_status r = Processing \<Longrightarrow> row_ok env (calls s) r
      \<Longrightarrow> terminal_events env (pr_id r) (outbox (db s)) = [] \<Longrightarrow>
        (let r' = transition_with_row st sta code detail risk now r
         in row_ok env (calls s) r' \<and> events_ok env obs r')"
  shows "sys_ok env s' \<and> ext s s'"
proof -
  obtain e' t where t: "guarded_tx env (NoLongerProcessing (ID p))
      (\<lambda>r. pr_id r = ID p \<and> pr_status r = Processing)
      (transition_with_row st sta code detail risk) extra s = (e', t)"
    by fastforce
  have "sys_ok env t \<and> ext s t"
  proof (rule guarded_tx_ok [OF ok inj t _ shape _ own])
    fix r now obs
    assume r: "r \<in> set (payments (db s))" "pr_id r = ID p \<and> pr_status r = Processing"
      "row_ok env (calls s) r" "events_ok env (outbox (db s)) r" "Obs obs"
    let ?r' = "transition_with_row st sta code detail risk now r"
    have none: "terminal_events env (pr_id r) (outbox (db s)) = []"
      using r(2,4) by (simp add: events_ok_def)
    with new [of r obs now] r have n: "row_ok env (calls s) ?r' \<and> events_ok env obs ?r'"
      by (simp add: Let_def)
    have "\<not> terminal (pr_status r)"
      using r(2) by (simp add: terminal_def)
    then have "pr_id ?r' = pr_id r" "row_ext r ?r'"
      by (auto simp: transition_with_row_def core_def intro: row_ext_nonterminal)
    with n none show "row_ok env (calls s) (id ?r') \<and> row_ext r (id ?r')
        \<and> events_ok env (outbox (db s) @ obs) (id ?r')"
      by (simp add: events_ok_def)
  qed (auto simp: transition_with_row_def)
  with tr t announce_ok [of env t s] show ?thesis
    by (auto simp: transitionWith_def split: option.splits)
qed

end
