(* ===== verification/SagaSafety.thy ===== *)
theory SagaSafety
  imports Invariants
begin

section \<open>Every operation of the engine keeps the invariant\<close>

text \<open>
  One preservation lemma per operation of \<open>Saga\<close> and \<open>Sweeps\<close>, from a good state and a
  possibly stale snapshot; the external calls in between may answer anything.
\<close>

definition grows :: "'w env \<Rightarrow> 'w sys \<Rightarrow> 'w sys \<Rightarrow> bool" where
  "grows env s s' \<longleftrightarrow> sys_ok env s' \<and> ext s s'"

lemma grows_trans: "grows env s t \<Longrightarrow> grows env t u \<Longrightarrow> grows env s u"
  using ext_trans by (auto simp: grows_def)

lemma growsI: "sys_ok env s' \<and> ext s s' \<Longrightarrow> grows env s s'"
  by (simp add: grows_def)

lemma grows_ok: "grows env s s' \<Longrightarrow> sys_ok env s'"
  by (simp add: grows_def)

lemma grows_snap: "grows env s s' \<Longrightarrow> snap_ok s p \<Longrightarrow> snap_ok s' p"
  using snap_ok_ext by (auto simp: grows_def)

lemma grows_same:
  "sys_ok env s \<Longrightarrow> payments (db s') = payments (db s) \<Longrightarrow> outbox (db s') = outbox (db s)
    \<Longrightarrow> calls s' = calls s \<Longrightarrow> grows env s s'"
  by (rule growsI) (rule sys_ok_same)

lemma grows_refl: "sys_ok env s \<Longrightarrow> grows env s s"
  by (simp add: grows_def)

lemma next_if_ok_snd [simp]: "snd (next_if_ok es) = snd es"
  by (auto simp: next_if_ok_def split: prod.splits option.splits)

subsection \<open>Queries, touch and compensation\<close>

lemma ask_grows: "sys_ok env s \<Longrightarrow> grows env s (snd (ask f s))"
  by (rule grows_same) simp_all

lemma quiet_grows: "quiet fn \<Longrightarrow> fn s = (a, s') \<Longrightarrow> sys_ok env s \<Longrightarrow> grows env s s'"
  by (rule grows_same) (auto dest: quietD)

lemma load_grows: "sys_ok env s \<Longrightarrow> grows env s (snd (load env' i s))"
  by (rule grows_same) simp_all

lemma call_grows:
  assumes "sys_ok env s" and "db s' = db s" and "calls s' = calls s @ [c]"
    and "\<And>req res. c \<noteq> CallLedgerCapture req res"
  shows "grows env s s'"
  by (rule growsI, rule sys_ok_call [OF assms(1-3)]) (use assms(4) in auto)

lemma log_call_grows:
  "sys_ok env s \<Longrightarrow> (\<And>req res. c \<noteq> CallLedgerCapture req res) \<Longrightarrow> grows env s (log_call c s)"
  by (rule call_grows [of env s _ c]) simp_all

text \<open>Updating \<open>updated_at\<close> alone changes nothing the invariant speaks of.\<close>

lemma touch_row_ext: "row_ext r (r\<lparr>pr_updated_at := t\<rparr>)"
  by (simp add: row_ext_def core_def)

lemma touch_rows:
  "\<exists>now. payments (db (touch env i s)) = payments (db s) \<or>
     payments (db (touch env i s)) =
       map (\<lambda>r. if pr_id r = i then r\<lparr>pr_updated_at := now\<rparr> else r) (payments (db s))"
  "outbox (db (touch env i s)) = outbox (db s)" "calls (touch env i s) = calls s"
  using pool_exec_update_effect [of env "\<lambda>_ r. pr_id r = i" "\<lambda>now r. r\<lparr>pr_updated_at := now\<rparr>" s,
      OF prod.collapse [symmetric]]
  unfolding touch_def by fastforce+

lemma touch_grows:
  assumes "sys_ok env s"
  shows "grows env s (touch env i s)"
proof -
  obtain now where rows: "payments (db (touch env i s)) = payments (db s) \<or>
     payments (db (touch env i s)) =
       map (\<lambda>r. if pr_id r = i then r\<lparr>pr_updated_at := now\<rparr> else r) (payments (db s))"
    using touch_rows(1) by blast
  define f :: "payment_row \<Rightarrow> payment_row" where "f = (\<lambda>r. if pr_id r = i then r\<lparr>pr_updated_at := now\<rparr> else r)"
  have f: "pr_id (f r) = pr_id r" "row_ok env cs (f r) = row_ok env cs r"
      "events_ok env obs (f r) = events_ok env obs r" "row_ext r (f r)" for cs obs r
    by (simp_all add: f_def row_ok_def events_ok_def touch_row_ext)
  have "pr_id \<circ> f = pr_id"
    by (simp add: fun_eq_iff f(1))
  then have "sys_ok env (s\<lparr>db := (db s)\<lparr>payments := map f (payments (db s))\<rparr>\<rparr>)"
    using assms unfolding sys_ok_def by (auto simp: f)
  moreover have "ext s (s\<lparr>db := (db s)\<lparr>payments := map f (payments (db s))\<rparr>\<rparr>)"
    using f(4) by (auto simp: ext_def)
  moreover have "payments (db (touch env i s)) = payments (db s) \<or>
      payments (db (touch env i s)) = map f (payments (db s))"
    using rows by (simp add: f_def)
  ultimately show ?thesis
    using grows_same [OF assms, of "touch env i s"]
    by (auto simp: grows_def sys_ok_def ext_def touch_rows(2,3))
qed

lemma release_hold_grows:
  assumes "sys_ok env s"
  shows "grows env s (release_hold env' p s)"
proof (cases "HoldID p")
  case None
  with assms show ?thesis by (simp add: release_hold_def grows_refl)
next
  case (Some h)
  obtain req r where c: "calls (release_hold env' p s) = calls s @ [CallRelease req r]"
    using Release_calls [of env' "ID p" h "''compensation''" s] Some
    by (auto simp: release_hold_def)
  show ?thesis
    by (rule call_grows [OF assms _ c]) (simp_all add: release_hold_def Some)
qed

lemma nullif_not_expired:
  "code \<noteq> ''step_up_expired'' \<Longrightarrow> nullif_empty code \<noteq> Some ''step_up_expired''"
  by (simp add: nullif_empty_def)

lemma failed_row_ok:
  assumes "one_event topic_failed (uuid_str env i) obs" and "pr_id r = i" and "code \<noteq> ''step_up_expired''"
  shows "row_ok env cs (transition_with_row Done Failed code detail risk now r)
    \<and> events_ok env obs (transition_with_row Done Failed code detail risk now r)"
proof
  show "row_ok env cs (transition_with_row Done Failed code detail risk now r)"
    by (simp add: row_ok_def transition_with_row_def)
  have "terminal_events env i obs = [topic_failed]"
    using assms(1) by (auto simp: one_event_def terminal_events_def)
  with assms(2) nullif_not_expired [OF assms(3)]
  show "events_ok env obs (transition_with_row Done Failed code detail risk now r)"
    by (simp add: events_ok_def transition_with_row_def)
qed

lemma failAndCompensate_grows:
  assumes ok: "sys_ok env s" and inj: "inj (uuid_str env)"
    and code: "code \<noteq> ''step_up_expired''"
  shows "grows env s (failAndCompensate env p code detail s)"
proof -
  have 1: "grows env s (release_hold env p s)"
    by (rule release_hold_grows [OF ok])
  obtain e s' where tr: "transitionWith env p Done Failed code detail None
      (outbox_write env topic_failed ''payment'' (uuid_str env (ID p))
         (failed_payload env p code detail)) (release_hold env p s) = (e, s')"
    by fastforce
  have "sys_ok env s' \<and> ext (release_hold env p s) s'"
    by (rule transitionWith_ok [OF grows_ok [OF 1] inj tr extra_outbox])
      (auto simp: Let_def one_event_def intro!: failed_row_ok [OF _ _ code])
  then have "grows env (release_hold env p s) s'"
    by (rule growsI)
  with 1 tr show ?thesis
    by (auto simp: failAndCompensate_def intro: grows_trans)
qed

subsection \<open>The steps\<close>

lemma stepFraud_grows:
  assumes ok: "sys_ok env s" and inj: "inj (uuid_str env)" and step: "Step p = Requested"
    and run: "stepFraud env p s = (f, s')"
  shows "grows env s s'"
proof -
  obtain v s1 where v: "Screen env (score_request_of env p (clock env (world s))) s = (v, s1)"
    by fastforce
  have 1: "grows env s s1"
    using Screen_frame [of env "score_request_of env p (clock env (world s))" s] v
    by (intro call_grows [OF ok, of s1 "CallScore (score_request_of env p (clock env (world s)))"]) auto
  note ok1 = grows_ok [OF 1]
  have park: "grows env s1 (snd (transitionWith env p FraudScreened RequiresAction [] d risk id s1))"
    for d risk
    by (rule growsI, rule transitionWith_ok [OF ok1 inj prod.collapse [symmetric] extra_id])
      (auto simp: Let_def transition_with_row_def row_ok_def events_ok_def terminal_events_def)
  have pass: "grows env s1 (snd (transition env p FraudScreened Processing
      (set_row (ID p) (\<lambda>r. r\<lparr>pr_risk_score := risk\<rparr>)) s1))" for risk
    by (rule growsI, rule transition_ok [OF ok1 inj prod.collapse [symmetric] _ extra_set_row])
      (auto simp: Let_def step transition_row_def row_ok_def core_def)
  have "grows env s1 s'"
    using run v park pass failAndCompensate_grows [OF ok1 inj, of "''fraud_denied''" p]
    by (auto simp: stepFraud_def split: if_splits prod.splits dest!: arg_cong [where f = snd])
  with 1 show ?thesis by (rule grows_trans)
qed

lemma stepHold_grows:
  assumes ok: "sys_ok env s" and inj: "inj (uuid_str env)" and step: "Step p = FraudScreened"
    and run: "stepHold env p s = (f, s')"
  shows "grows env s s'"
proof -
  obtain r s1 where r: "Hold env (ID p) (AccountID p) (Amount p) (Currency p) s = (r, s1)"
    by fastforce
  obtain req where req: "calls s1 = calls s @ [CallHold req r]" "db s1 = db s"
    using Hold_calls [of env "ID p" "AccountID p" "Amount p" "Currency p" s]
      Hold_frame(1) [of env "ID p" "AccountID p" "Amount p" "Currency p" s] r by auto
  have 1: "grows env s s1"
    by (rule call_grows [OF ok req(2,1)]) simp
  note ok1 = grows_ok [OF 1]
  have held: "grows env s1 (snd (transition env p FundsHeld Processing
      (set_row (ID p) (\<lambda>r. r\<lparr>pr_hold_id := Some h\<rparr>)) s1))" for h
    by (rule growsI, rule transition_ok [OF ok1 inj prod.collapse [symmetric] _ extra_set_row])
      (auto simp: Let_def step transition_row_def row_ok_def core_def)
  have "grows env s1 s'"
    using run r held failAndCompensate_grows [OF ok1 inj, of "''insufficient_funds''" p]
      grows_refl [OF ok1]
    by (auto simp: stepHold_def split: if_splits sum.splits option.splits
        dest!: arg_cong [where f = snd])
  with 1 show ?thesis by (rule grows_trans)
qed

lemma snap_row:
  assumes "sys_ok env s" and "snap_ok s p" and "r \<in> set (payments (db s))" and "pr_id r = ID p"
  shows "Step p \<in> {FundsHeld, SubmittedToGateway, PspCaptured} \<Longrightarrow> HoldID p \<noteq> None \<and> pr_hold_id r \<noteq> None"
    and "Step p \<in> {SubmittedToGateway, PspCaptured} \<Longrightarrow> PSPReference p \<noteq> None \<Longrightarrow> pr_psp_reference r \<noteq> None"
proof -
  have "x = r" if "x \<in> set (payments (db s))" "pr_id x = ID p" for x
    using assms that by (auto simp: sys_ok_def distinct_map inj_on_def)
  with assms(2) show "Step p \<in> {FundsHeld, SubmittedToGateway, PspCaptured} \<Longrightarrow> HoldID p \<noteq> None \<and> pr_hold_id r \<noteq> None"
    and "Step p \<in> {SubmittedToGateway, PspCaptured} \<Longrightarrow> PSPReference p \<noteq> None \<Longrightarrow> pr_psp_reference r \<noteq> None"
    unfolding snap_ok_def by blast+
qed

lemma submit_result_grows:
  assumes ok: "sys_ok env s" and inj: "inj (uuid_str env)" and step: "Step p = FundsHeld"
  shows "grows env s (snd (submit_result env p r s))"
proof (cases r)
  case (Inl err)
  then show ?thesis
    using touch_grows [OF ok] failAndCompensate_grows [OF ok inj, of "''gateway_declined''" p]
    by (simp add: submit_result_def)
next
  case (Inr res)
  have pending: "grows env s (snd (transition env p SubmittedToGateway Processing id s))"
    by (rule growsI, rule transition_ok [OF ok inj prod.collapse [symmetric] _ extra_id])
      (auto simp: Let_def step transition_row_def row_ok_def core_def)
  have approved: "grows env s (snd (transition env p SubmittedToGateway Processing
      (outbox_write env topic_authorized ty (uuid_str env (ID p)) body
         \<circ> set_row (ID p) (\<lambda>r. r\<lparr>pr_psp_reference := Some ref\<rparr>)) s))" for ty body ref
    by (rule growsI, rule transition_ok [OF ok inj prod.collapse [symmetric] _ extra_outbox_set_row])
      (auto simp: Let_def step transition_row_def row_ok_def core_def dest: one_event_quiet)
  from Inr pending approved failAndCompensate_grows [OF ok inj, of "''gateway_declined''" p]
  show ?thesis
    by (simp add: submit_result_def split: outcome.splits)
qed

lemma stepSubmit_grows:
  assumes ok: "sys_ok env s" and inj: "inj (uuid_str env)" and step: "Step p = FundsHeld"
    and run: "stepSubmit env p s = (f, s')"
  shows "grows env s s'"
proof (cases "factory_for env (Method p)")
  case (Inl err)
  with run failAndCompensate_grows [OF ok inj, of "''gateway_declined''" p] show ?thesis
    by (auto simp: stepSubmit_def)
next
  case (Inr P)
  obtain r s1 where r: "Authorize P (ID p) (Amount p) (Currency p) (Token p) s = (r, s1)"
    by fastforce
  have 1: "grows env s s1"
    by (rule quiet_grows [OF payment_processor.authorize_quiet [OF factory_port [OF Inr]] r ok])
  have 2: "grows env s1 (log_call (CallAuthorize (ID p) r) s1)"
    by (rule log_call_grows [OF grows_ok [OF 1]]) simp
  have "s' = snd (submit_result env p r (log_call (CallAuthorize (ID p) r) s1))"
    using run Inr r by (simp add: stepSubmit_def)
  with 1 2 submit_result_grows [OF grows_ok [OF 2] inj step] show ?thesis
    by (blast intro: grows_trans)
qed

lemma psp_capture_result_grows:
  assumes ok: "sys_ok env s" and inj: "inj (uuid_str env)" and step: "Step p = SubmittedToGateway"
    and snap: "snap_ok s p" and ref: "PSPReference p \<noteq> None"
    and conf: "\<And>u. r = Inr u \<Longrightarrow> confirmed (ID p) (calls s)"
  shows "grows env s (snd (psp_capture_result env p r s))"
proof (cases r)
  case (Inl err)
  then show ?thesis
    using touch_grows [OF ok] failAndCompensate_grows [OF ok inj, of "''gateway_capture_failed''" p]
    by (simp add: psp_capture_result_def)
next
  case (Inr u)
  have "grows env s (snd (transition env p PspCaptured Processing id s))"
  proof (rule growsI, rule transition_ok [OF ok inj prod.collapse [symmetric] _ extra_id])
    fix r now
    assume r: "r \<in> set (payments (db s))" "pr_id r = ID p" "pr_step r = Step p"
      "row_ok env (calls s) r"
    from snap_row(2) [OF ok snap r(1,2)] step ref conf [OF Inr] r
    show "let r' = id (transition_row PspCaptured Processing now r)
         in row_ok env (calls s) r' \<and> core r' = core r \<and> pr_status r' = Processing
          \<and> (pr_hold_id r \<noteq> None \<longrightarrow> pr_hold_id r' \<noteq> None)
          \<and> (pr_psp_reference r \<noteq> None \<longrightarrow> pr_psp_reference r' \<noteq> None)"
      by (auto simp: Let_def transition_row_def row_ok_def core_def)
  qed (simp_all add: step)
  with Inr show ?thesis by (simp add: psp_capture_result_def)
qed

lemma stepPSPCapture_grows:
  assumes ok: "sys_ok env s" and inj: "inj (uuid_str env)" and step: "Step p = SubmittedToGateway"
    and snap: "snap_ok s p" and ref: "PSPReference p \<noteq> None"
    and run: "stepPSPCapture env p s = (f, s')"
  shows "grows env s s'"
proof (cases "factory_for env (Method p)")
  case (Inl err)
  with run failAndCompensate_grows [OF ok inj, of "''gateway_declined''" p] show ?thesis
    by (auto simp: stepPSPCapture_def)
next
  case (Inr P)
  from ref obtain t where t: "PSPReference p = Some t" by blast
  obtain r s1 where r: "PCapture P t s = (r, s1)"
    by fastforce
  let ?s2 = "log_call (CallPspCapture (ID p) t (capture_error r)) s1"
  have 1: "grows env s s1"
    by (rule quiet_grows [OF payment_processor.capture_quiet [OF factory_port [OF Inr]] r ok])
  have 2: "grows env s1 ?s2"
    by (rule log_call_grows [OF grows_ok [OF 1]]) simp
  have snap2: "snap_ok ?s2 p"
    by (rule grows_snap [OF grows_trans [OF 1 2] snap])
  have "confirmed (ID p) (calls ?s2)" if "r = Inr u" for u
    using that by (auto simp: confirmed_def capture_error_def)
  from psp_capture_result_grows [OF grows_ok [OF 2] inj step snap2 ref this]
  have "grows env ?s2 (snd (psp_capture_result env p r ?s2))" .
  moreover have "s' = snd (psp_capture_result env p r ?s2)"
    using run Inr r t by (simp add: stepPSPCapture_def)
  ultimately show ?thesis
    using 1 2 by (blast intro: grows_trans)
qed

lemma fxRateUsed_grows: "sys_ok env s \<Longrightarrow> grows env s (snd (fxRateUsed env' p s))"
  by (rule grows_same)
    (auto simp: fxRateUsed_def split: option.splits prod.splits dest!: ask_eqD)

lemma stepLedgerCapture_grows:
  assumes ok: "sys_ok env s" and inj: "inj (uuid_str env)" and step: "Step p = PspCaptured"
    and snap: "snap_ok s p" and run: "stepLedgerCapture env p s = (f, s')"
  shows "grows env s s'"
proof -
  obtain h where h: "HoldID p = Some h"
    using snap step by (auto simp: snap_ok_def)
  obtain r s1 where r: "Capture env (ID p) h (Amount p) (Currency p) s = (r, s1)"
    by fastforce
  obtain req where req: "cr_request_id req = ''capture:'' @ uuid_str env (ID p)"
    "calls s1 = calls s @ [CallLedgerCapture req r]" and db1: "db s1 = db s"
    using Capture_calls [of env "ID p" h "Amount p" "Currency p" s]
      Capture_frame(1) [of env "ID p" h "Amount p" "Currency p" s] r by auto
  have conf: "confirmed (ID p) (calls s)"
    using snap step by (simp add: snap_ok_def)
  have 1: "grows env s s1"
    by (rule growsI, rule sys_ok_call [OF ok db1 req(2)]) (use conf req(1) in auto)
  show ?thesis
  proof (cases r)
    case (Inl err)
    with run h r touch_grows [OF grows_ok [OF 1]] 1 show ?thesis
      by (auto simp: stepLedgerCapture_def intro: grows_trans)
  next
    case (Inr txn)
    obtain fx s2 where fx: "fxRateUsed env p s1 = (fx, s2)" by fastforce
    have 2: "grows env s1 s2"
      using fxRateUsed_grows [OF grows_ok [OF 1], of env p] fx by simp
    have snap2: "snap_ok s2 p"
      by (rule grows_snap [OF grows_trans [OF 1 2] snap])
    have bk: "booked env (ID p) (calls s2)" "confirmed (ID p) (calls s2)"
    proof -
      have "booked env (ID p) (calls s1)" "confirmed (ID p) (calls s1)"
        using req Inr conf by (auto simp: booked_def)
      with 2 show "booked env (ID p) (calls s2)" "confirmed (ID p) (calls s2)"
        by (auto simp: grows_def ext_def)
    qed
    have "grows env s2 (snd (terminalTx env p Captured Succeeded
        (outbox_write env topic_captured ''payment'' (uuid_str env (ID p))
           (captured_payload env p txn fx)) s2))"
      unfolding terminalTx_def
    proof (rule growsI, rule transitionWith_ok [OF grows_ok [OF 2] inj prod.collapse [symmetric] extra_outbox])
      fix r now obs
      assume r: "r \<in> set (payments (db s2))" "pr_id r = ID p" "pr_status r = Processing"
        "one_event topic_captured (uuid_str env (ID p)) obs"
      from snap_row [OF grows_ok [OF 2] snap2 r(1,2)] snap2 step
      have "pr_hold_id r \<noteq> None" "pr_psp_reference r \<noteq> None"
        by (auto simp: snap_ok_def)
      with bk r one_event_terminal [OF r(4)]
      show "let r' = transition_with_row Captured Succeeded [] [] None now r
         in row_ok env (calls s2) r' \<and> events_ok env obs r'"
        by (simp add: Let_def transition_with_row_def row_ok_def events_ok_def)
    qed (auto simp: one_event_def)
    moreover have "s' = snd (terminalTx env p Captured Succeeded
        (outbox_write env topic_captured ''payment'' (uuid_str env (ID p))
           (captured_payload env p txn fx)) s2)"
      using run h r Inr fx by (auto simp: stepLedgerCapture_def dest!: arg_cong [where f = snd])
    ultimately show ?thesis
      using 1 2 by (blast intro: grows_trans)
  qed
qed

text \<open>One iteration of the loop, whatever the step the payment was loaded at.\<close>

lemma drive_grows:
  assumes "sys_ok env s" and "inj (uuid_str env)" and "snap_ok s p"
  shows "grows env s (snd (drive env p s))"
  using assms stepFraud_grows [OF assms(1,2) _ prod.collapse [symmetric]]
    stepHold_grows [OF assms(1,2) _ prod.collapse [symmetric]]
    stepSubmit_grows [OF assms(1,2) _ prod.collapse [symmetric]]
    stepPSPCapture_grows [OF assms(1,2) _ assms(3) _ prod.collapse [symmetric]]
    stepLedgerCapture_grows [OF assms(1,2) _ assms(3) prod.collapse [symmetric]]
    grows_refl [OF assms(1)]
  by (simp add: drive_def split: saga_step.splits)

subsection \<open>Loop, sweepers and entry points\<close>

lemma advance_grows:
  assumes inj: "inj (uuid_str env)"
  shows "sys_ok env s \<Longrightarrow> advance n env i s = Some (f, s') \<Longrightarrow> grows env s s'"
proof (induction n arbitrary: s)
  case 0
  then show ?case by simp
next
  case (Suc n)
  obtain r s1 where r: "load env i s = (r, s1)" by fastforce
  have 1: "grows env s s1"
    using load_grows [OF Suc.prems(1), of env i] r by simp
  show ?case
  proof (cases r)
    case (Inl err)
    with Suc.prems r 1 show ?thesis by simp
  next
    case (Inr p)
    obtain fl s2 where d: "drive env p s1 = (fl, s2)" by fastforce
    have 2: "grows env s1 s2"
      using drive_grows [OF grows_ok [OF 1] inj load_snap_ok [OF Suc.prems(1), of env i p s1]] r Inr d
      by simp
    note 12 = grows_trans [OF 1 2]
    show ?thesis
      using Suc.prems(2) r Inr d 1 12 Suc.IH [OF grows_ok [OF 2]] grows_trans [OF 12]
      by (auto split: if_splits flow.splits)
  qed
qed

lemma scan_ids_grows: "sys_ok env s \<Longrightarrow> grows env s (snd (scan_ids env' cols P s))"
  by (rule grows_same)
    (auto simp: scan_ids_def query_payments_def split: prod.splits sum.splits dest!: ask_eqD)

lemma compensate_all_grows:
  assumes inj: "inj (uuid_str env)" and code: "code \<noteq> ''step_up_expired''"
  shows "sys_ok env s \<Longrightarrow> grows env s (compensate_all env code detail ids s)"
proof (induction ids arbitrary: s)
  case Nil
  then show ?case by (simp add: grows_refl)
next
  case (Cons i ids)
  obtain r s1 where r: "load env i s = (r, s1)" by fastforce
  have 1: "grows env s s1"
    using load_grows [OF Cons.prems, of env i] r by simp
  show ?case
  proof (cases r)
    case (Inl err)
    with r 1 Cons.IH [OF grows_ok [OF 1]] show ?thesis by (auto intro: grows_trans)
  next
    case (Inr p)
    have 2: "grows env s1 (failAndCompensate env p code detail s1)"
      by (rule failAndCompensate_grows [OF grows_ok [OF 1] inj code])
    with r Inr 1 Cons.IH [OF grows_ok [OF 2]] show ?thesis
      by (auto intro: grows_trans)
  qed
qed

lemma sweep_grows:
  assumes ok: "sys_ok env s" and inj: "inj (uuid_str env)" and code: "code \<noteq> ''step_up_expired''"
  shows "grows env s (sweep env cols P code detail s)"
proof -
  obtain r s1 where r: "scan_ids env cols P s = (r, s1)" by fastforce
  have 1: "grows env s s1"
    using scan_ids_grows [OF ok, of env cols P] r by simp
  with r compensate_all_grows [OF inj code grows_ok [OF 1]] show ?thesis
    by (auto simp: sweep_def intro: grows_trans split: sum.splits)
qed

lemma ResumeStale_grows: "sys_ok env s \<Longrightarrow> grows env s (ResumeStale env' d s)"
  by (rule grows_same)
    (auto simp: ResumeStale_def scan_ids_def query_payments_def split: prod.splits sum.splits
      dest!: ask_eqD)

text \<open>The step-up expiry updates many rows in one statement, and writes no event.\<close>

lemma expire_row_ok:
  assumes "row_ok env cs r" and "events_ok env obs r" and "pr_status r = RequiresAction"
  shows "row_ok env cs (expire_row now r) \<and> events_ok env obs (expire_row now r)
    \<and> row_ext r (expire_row now r)"
proof -
  have "\<not> terminal (pr_status r)"
    using assms(3) by (simp add: terminal_def)
  then have "row_ext r (expire_row now r)"
    by (rule row_ext_nonterminal) (simp_all add: expire_row_def core_def)
  with assms show ?thesis
    by (simp add: row_ok_def events_ok_def expire_row_def)
qed

lemma ExpireStaleRequiresAction_grows:
  assumes ok: "sys_ok env s"
  shows "grows env s (ExpireStaleRequiresAction env' d s)"
proof -
  define G where "G now r \<longleftrightarrow> pr_status r = RequiresAction \<and> stale d now r" for now and r :: payment_row
  define f where "f now r = (if G now r then expire_row now r else r)" for now r
  note eff = pool_exec_update_effect [of env' G expire_row s, OF prod.collapse [symmetric]]
  have def': "ExpireStaleRequiresAction env' d s =
      snd (pool_exec env' (\<lambda>now. update_payments (G now) (expire_row now)) s)"
    by (simp add: ExpireStaleRequiresAction_def G_def [abs_def])
  obtain now where rows: "payments (db (ExpireStaleRequiresAction env' d s)) = payments (db s) \<or>
      payments (db (ExpireStaleRequiresAction env' d s)) = map (f now) (payments (db s))"
    and rest: "outbox (db (ExpireStaleRequiresAction env' d s)) = outbox (db s)"
      "calls (ExpireStaleRequiresAction env' d s) = calls s"
    using eff unfolding def' f_def [abs_def] by fastforce
  have f: "pr_id (f now r) = pr_id r" "row_ext r (f now r)"
    "row_ok env (calls s) (f now r) \<and> events_ok env (outbox (db s)) (f now r)"
    if "r \<in> set (payments (db s))" for r
    using ok that expire_row_ok [of env "calls s" r "outbox (db s)" now]
    by (auto simp: f_def G_def sys_ok_def expire_row_def)
  have "map pr_id (map (f now) (payments (db s))) = map pr_id (payments (db s))"
    using f(1) by simp
  then have "distinct (map pr_id (map (f now) (payments (db s))))"
    using ok unfolding sys_ok_def by (simp only: simp_thms)
  moreover have "row_ok env (calls s) r \<and> events_ok env (outbox (db s)) r"
    if "r \<in> set (map (f now) (payments (db s)))" for r
    using that f(3) by auto
  moreover have "\<exists>r' \<in> set (map (f now) (payments (db s))). row_ext r r'"
    if "r \<in> set (payments (db s))" for r
    using f(2) [OF that] that by auto
  ultimately show ?thesis
    using ok rows grows_same [OF ok _ rest]
    by (auto simp: grows_def sys_ok_def ext_def rest)
qed

text \<open>The entry points, with the load and the write in one call.\<close>

lemma CompleteFromGateway_persist_grows:
  assumes ok: "sys_ok env s" and inj: "inj (uuid_str env)"
    and step: "Step p = SubmittedToGateway"
    and tr: "transition env p SubmittedToGateway Processing
      (set_row (ID p) (\<lambda>r. r\<lparr>pr_psp_reference := Some ref\<rparr>)) s = (e, s')"
  shows "grows env s s'"
  by (rule growsI, rule transition_ok [OF ok inj tr _ extra_set_row])
    (auto simp: Let_def step transition_row_def row_ok_def core_def)

lemma ResumeAfterStepUp_persist_grows:
  assumes ok: "sys_ok env s" and inj: "inj (uuid_str env)" and step: "Step p = FraudScreened"
    and tr: "transition env p FraudScreened Processing id s = (e, s')"
  shows "grows env s s'"
  by (rule growsI, rule transition_ok [OF ok inj tr _ extra_id])
    (auto simp: Let_def step transition_row_def row_ok_def core_def)

lemma ResumeAfterStepUp_grows:
  assumes ok: "sys_ok env s" and inj: "inj (uuid_str env)"
  shows "grows env s (snd (ResumeAfterStepUp env i user s))"
proof -
  obtain r s1 where r: "load env i s = (r, s1)" by fastforce
  have 1: "grows env s s1"
    using load_grows [OF ok, of env i] r by simp
  show ?thesis
  proof (cases r)
    case (Inl err)
    with r 1 show ?thesis by (simp add: ResumeAfterStepUp_def)
  next
    case (Inr p)
    obtain e s2 where t: "transition env p FraudScreened Processing id s1 = (e, s2)" by fastforce
    have "Step p = FraudScreened" if "Status p = RequiresAction"
      using load_snap_ok [OF ok, of env i p s1] r Inr that by (simp add: snap_ok_def)
    then have 2: "grows env s1 s2" if "Status p = RequiresAction"
      using ResumeAfterStepUp_persist_grows [OF grows_ok [OF 1] inj _ t] that by blast
    have 3: "grows env s2 (s2\<lparr>spawned := sp\<rparr>)" if "Status p = RequiresAction" for sp
      using grows_same [OF grows_ok [OF 2 [OF that]]] by simp
    show ?thesis
    proof (cases "UserID p \<noteq> user \<or> Status p \<noteq> RequiresAction")
      case True
      with r Inr 1 show ?thesis by (simp add: ResumeAfterStepUp_def)
    next
      case False
      then have "grows env s (s2\<lparr>spawned := sp\<rparr>)" "grows env s s2" for sp
        using grows_trans [OF 1 grows_trans [OF 2 3]] grows_trans [OF 1 2] by auto
      with False r Inr t show ?thesis
        by (simp add: ResumeAfterStepUp_def split: option.splits)
    qed
  qed
qed

end
