(* ===== verification/Lifecycle.thy ===== *)
theory Lifecycle
  imports SagaSafety
begin

section \<open>One driver at a time: termination and the documented lifecycle\<close>

text \<open>
  The abstract specification of a payment is the state machine of the package comment of
  \<open>saga.go\<close>: \<open>lifecycle\<close>, on pairs of status and step. A payment driven from a fresh load
  moves along it and no other payment moves (\<open>advance_refines\<close>); in particular a driver that
  sees its own writes never fails a payment at \<open>psp_captured\<close>. The loop returns after at
  most six loads.
\<close>

subsection \<open>The abstract machine\<close>

inductive lifecycle :: "status \<times> saga_step \<Rightarrow> status \<times> saga_step \<Rightarrow> bool" where
  screened: "lifecycle (Processing, Requested) (Processing, FraudScreened)"
| parked: "lifecycle (Processing, Requested) (RequiresAction, FraudScreened)"
| resumed: "lifecycle (RequiresAction, FraudScreened) (Processing, FraudScreened)"
| held: "lifecycle (Processing, FraudScreened) (Processing, FundsHeld)"
| submitted: "lifecycle (Processing, FundsHeld) (Processing, SubmittedToGateway)"
| completed: "lifecycle (Processing, SubmittedToGateway) (Processing, SubmittedToGateway)"
| collected: "lifecycle (Processing, SubmittedToGateway) (Processing, PspCaptured)"
| booked: "lifecycle (Processing, PspCaptured) (Succeeded, Captured)"
| failed: "st \<le> SubmittedToGateway \<Longrightarrow> lifecycle (Processing, st) (Failed, Done)"
| expired: "lifecycle (RequiresAction, FraudScreened) (Failed, Done)"

inductive_cases from_psp_captured: "lifecycle (Processing, PspCaptured) x"
inductive_cases from_succeeded: "lifecycle (Succeeded, st) x"
inductive_cases from_failed: "lifecycle (Failed, st) x"

definition lstate :: "payment_row \<Rightarrow> status \<times> saga_step" where
  "lstate r = (pr_status r, pr_step r)"

lemma terminal_stuck: "terminal sta \<Longrightarrow> \<not> lifecycle (sta, st) x"
  by (auto simp: terminal_def elim: from_succeeded from_failed)

lemma psp_captured_only_books: "lifecycle (Processing, PspCaptured) x \<Longrightarrow> x = (Succeeded, Captured)"
  by (auto elim: from_psp_captured simp: less_eq_saga_step_def)

text \<open>The payment may move along the lifecycle, everything else stays.\<close>

definition moves :: "uuid \<Rightarrow> 'w sys \<Rightarrow> 'w sys \<Rightarrow> bool" where
  "moves i s s' \<longleftrightarrow>
     list_all2 (\<lambda>r r'. pr_id r' = pr_id r \<and> lifecycle\<^sup>*\<^sup>* (lstate r) (lstate r')
         \<and> (pr_id r \<noteq> i \<longrightarrow> r' = r))
       (payments (db s)) (payments (db s'))"

lemma moves_same: "payments (db s') = payments (db s) \<Longrightarrow> moves i s s'"
  by (simp add: moves_def list.rel_refl)

lemma moves_trans: "moves i s t \<Longrightarrow> moves i t u \<Longrightarrow> moves i s u"
  unfolding moves_def
  by (erule (1) list_all2_trans [rotated]) (auto intro: rtranclp_trans)

lemma moves_map:
  assumes "payments (db s') = map h (payments (db s))"
    and "\<And>r. r \<in> set (payments (db s)) \<Longrightarrow> pr_id (h r) = pr_id r \<and> lifecycle\<^sup>*\<^sup>* (lstate r) (lstate (h r))
         \<and> (pr_id r \<noteq> i \<longrightarrow> h r = r)"
  shows "moves i s s'"
  unfolding moves_def assms(1) list_all2_map2
  by (rule list.rel_refl_strong) (rule assms(2))

text \<open>A snapshot that agrees with the row of its payment.\<close>

definition fresh :: "'w sys \<Rightarrow> payment \<Rightarrow> bool" where
  "fresh s p \<longleftrightarrow>
     (\<forall>r \<in> set (payments (db s)). pr_id r = ID p \<longrightarrow> pr_status r = Status p \<and> pr_step r = Step p)"

lemma load_fresh:
  assumes "sys_ok env s" and "load env' i s = (Inr p, s')"
  shows "fresh s' p"
proof -
  from load_InrD [OF assms(2)] obtain r n where r: "r \<in> set (payments (db s))" "p = payment_of r n"
    by blast
  have "db s' = db s"
    using load_frame(1) [of env' i s] assms(2) by simp
  moreover have "x = r" if "x \<in> set (payments (db s))" "pr_id x = pr_id r" for x
    using assms(1) r(1) that by (auto simp: sys_ok_def distinct_map inj_on_def)
  ultimately show ?thesis
    unfolding fresh_def r(2) by auto
qed

lemma fresh_same: "fresh s p \<Longrightarrow> payments (db s') = payments (db s) \<Longrightarrow> fresh s' p"
  by (simp add: fresh_def)

lemma guarded_tx_moves:
  assumes tx: "guarded_tx env err G f extra s = (e, s')"
    and shape: "extra_shape i g Obs extra"
    and guard: "\<And>r now. r \<in> set (payments (db s)) \<Longrightarrow> G r \<Longrightarrow>
      pr_id r = i \<and> pr_id (f now r) = i \<and> lifecycle (lstate r) (lstate (f now r))"
    and g: "\<And>r. pr_id (g r) = pr_id r \<and> lstate (g r) = lstate r"
  shows "moves i s s'"
  using tx
proof (cases rule: guarded_tx_effect)
  case none
  then show ?thesis by (simp add: moves_same)
next
  case (commit t r)
  define now where "now = clock env (world t)"
  have s': "s' = extra (t\<lparr>db := (db s)\<lparr>payments :=
             map (\<lambda>r. if G r then f now r else r) (payments (db s))\<rparr>\<rparr>)"
    unfolding now_def by (rule commit(7))
  have "payments (db s') = map (\<lambda>r. let x = (if G r then f now r else r)
      in if pr_id x = i then g x else x) (payments (db s))"
    unfolding s' by (simp add: extra_shapeD(1) [OF shape] Let_def)
  then show ?thesis
    by (rule moves_map) (use guard g in \<open>auto simp: Let_def\<close>)
qed

lemma transition_moves:
  assumes "transition env p st Processing extra s = (e, s')" and "fresh s p"
    and "lifecycle (Status p, Step p) (Processing, st)"
    and "extra_shape (ID p) g Obs extra" and "\<And>r. pr_id (g r) = pr_id r \<and> lstate (g r) = lstate r"
  shows "moves (ID p) s s'"
proof -
  obtain e' t where t: "guarded_tx env (ConcurrentTransition (ID p))
      (\<lambda>r. pr_id r = ID p \<and> pr_step r = Step p) (transition_row st Processing) extra s = (e', t)"
    by fastforce
  have "moves (ID p) s t"
    by (rule guarded_tx_moves [OF t assms(4) _ assms(5)])
      (use assms(2,3) in \<open>auto simp: fresh_def transition_row_def lstate_def\<close>)
  moreover have "payments (db s') = payments (db t)"
    using assms(1) t by (auto simp: transition_def split: option.splits)
  ultimately show ?thesis
    using moves_trans moves_same by blast
qed

lemma transitionWith_moves:
  assumes "transitionWith env p st sta code detail risk extra s = (e, s')" and "fresh s p"
    and "lifecycle (Status p, Step p) (sta, st)" and "extra_shape (ID p) id Obs extra"
  shows "moves (ID p) s s'"
proof -
  obtain e' t where t: "guarded_tx env (NoLongerProcessing (ID p))
      (\<lambda>r. pr_id r = ID p \<and> pr_status r = Processing)
      (transition_with_row st sta code detail risk) extra s = (e', t)"
    by fastforce
  have "moves (ID p) s t"
    by (rule guarded_tx_moves [OF t assms(4)])
      (use assms(2,3) in \<open>auto simp: fresh_def transition_with_row_def lstate_def\<close>)
  moreover have "payments (db s') = payments (db t)"
    using assms(1) t by (auto simp: transitionWith_def split: option.splits)
  ultimately show ?thesis
    using moves_trans moves_same by blast
qed

subsection \<open>Each step is a step of the machine\<close>

lemma release_hold_frame [simp]:
  "db (release_hold env p s) = db s" "bus (release_hold env p s) = bus s"
  "spawned (release_hold env p s) = spawned s" "produced (release_hold env p s) = produced s"
  by (simp_all add: release_hold_def split: option.splits)

lemma failAndCompensate_moves:
  assumes "fresh s p" and "Status p = Processing" and "Step p \<le> SubmittedToGateway"
  shows "moves (ID p) s (failAndCompensate env p code detail s)"
proof -
  have "moves (ID p) (release_hold env p s) (failAndCompensate env p code detail s)"
    unfolding failAndCompensate_def
    by (rule transitionWith_moves [OF prod.collapse [symmetric] fresh_same [OF assms(1)] _ extra_outbox])
      (use assms in \<open>auto intro: lifecycle.failed\<close>)
  then show ?thesis
    using moves_trans [OF moves_same, of "release_hold env p s" s] by simp
qed

lemma touch_moves: "moves j s (touch env i s)" if "i = j"
proof -
  from touch_rows(1) [of env i s] obtain now where
    "payments (db (touch env i s)) = payments (db s) \<or>
     payments (db (touch env i s)) =
       map (\<lambda>r. if pr_id r = i then r\<lparr>pr_updated_at := now\<rparr> else r) (payments (db s))"
    by blast
  then show ?thesis
    using that by (auto simp: moves_same lstate_def intro: moves_map)
qed

lemma stepFraud_moves:
  assumes "fresh s p" and "Status p = Processing" and "Step p = Requested"
  shows "moves (ID p) s (snd (stepFraud env p s))"
proof -
  obtain v s1 where v: "Screen env (score_request_of env p (clock env (world s))) s = (v, s1)"
    by fastforce
  have pay: "payments (db s1) = payments (db s)"
    using Screen_frame(1) [of env "score_request_of env p (clock env (world s))" s] v by simp
  note fr = fresh_same [OF assms(1) pay]
  have "moves (ID p) s1 (snd (transitionWith env p FraudScreened RequiresAction [] d risk id s1))"
    for d risk
    by (rule transitionWith_moves [OF prod.collapse [symmetric] fr _ extra_id])
      (use assms in \<open>auto intro: lifecycle.intros\<close>)
  moreover have "moves (ID p) s1 (snd (transition env p FraudScreened Processing
      (set_row (ID p) (\<lambda>r. r\<lparr>pr_risk_score := risk\<rparr>)) s1))" for risk
    by (rule transition_moves [OF prod.collapse [symmetric] fr _ extra_set_row])
      (use assms in \<open>auto simp: lstate_def intro: lifecycle.intros\<close>)
  moreover have "moves (ID p) s1 (failAndCompensate env p c d s1)" for c d
    by (rule failAndCompensate_moves [OF fr]) (use assms in \<open>auto simp: less_eq_saga_step_def\<close>)
  ultimately have "moves (ID p) s1 (snd (stepFraud env p s))"
    by (simp add: stepFraud_def v)
  then show ?thesis
    by (rule moves_trans [OF moves_same [OF pay]])
qed

lemma stepHold_moves:
  assumes "fresh s p" and "Status p = Processing" and "Step p = FraudScreened"
  shows "moves (ID p) s (snd (stepHold env p s))"
proof -
  obtain r s1 where r: "Hold env (ID p) (AccountID p) (Amount p) (Currency p) s = (r, s1)"
    by fastforce
  have pay: "payments (db s1) = payments (db s)"
    using Hold_frame(1) [of env "ID p" "AccountID p" "Amount p" "Currency p" s] r by simp
  note fr = fresh_same [OF assms(1) pay]
  have "moves (ID p) s1 (snd (transition env p FundsHeld Processing
      (set_row (ID p) (\<lambda>r. r\<lparr>pr_hold_id := h\<rparr>)) s1))" for h
    by (rule transition_moves [OF prod.collapse [symmetric] fr _ extra_set_row])
      (use assms in \<open>auto simp: lstate_def intro: lifecycle.intros\<close>)
  moreover have "moves (ID p) s1 (failAndCompensate env p c d s1)" for c d
    by (rule failAndCompensate_moves [OF fr]) (use assms in \<open>auto simp: less_eq_saga_step_def\<close>)
  ultimately have "moves (ID p) s1 (snd (stepHold env p s))"
    by (simp add: stepHold_def r moves_same split: sum.splits option.splits)
  then show ?thesis
    by (rule moves_trans [OF moves_same [OF pay]])
qed

lemma submit_result_moves:
  assumes "fresh s p" and "Status p = Processing" and "Step p = FundsHeld"
  shows "moves (ID p) s (snd (submit_result env p r s))"
proof -
  have "moves (ID p) s (snd (transition env p SubmittedToGateway Processing id s))"
    by (rule transition_moves [OF prod.collapse [symmetric] assms(1) _ extra_id])
      (use assms in \<open>auto intro: lifecycle.intros\<close>)
  moreover have "moves (ID p) s (snd (transition env p SubmittedToGateway Processing
      (outbox_write env topic_authorized ty (uuid_str env (ID p)) body
         \<circ> set_row (ID p) (\<lambda>r. r\<lparr>pr_psp_reference := Some ref\<rparr>)) s))" for ty body ref
    by (rule transition_moves [OF prod.collapse [symmetric] assms(1) _ extra_outbox_set_row])
      (use assms in \<open>auto simp: lstate_def intro: lifecycle.intros\<close>)
  moreover have "moves (ID p) s (failAndCompensate env p c d s)" for c d
    by (rule failAndCompensate_moves [OF assms(1)]) (use assms in \<open>auto simp: less_eq_saga_step_def\<close>)
  ultimately show ?thesis
    by (simp add: submit_result_def touch_moves split: sum.splits outcome.splits)
qed

lemma stepSubmit_moves:
  assumes "fresh s p" and "Status p = Processing" and "Step p = FundsHeld"
  shows "moves (ID p) s (snd (stepSubmit env p s))"
proof (cases "factory_for env (Method p)")
  case (Inl err)
  then show ?thesis
    using failAndCompensate_moves [OF assms(1,2)] assms(3)
    by (simp add: stepSubmit_def less_eq_saga_step_def)
next
  case (Inr P)
  obtain r s1 where r: "Authorize P (ID p) (Amount p) (Currency p) (Token p) s = (r, s1)"
    by fastforce
  let ?s2 = "log_call (CallAuthorize (ID p) r) s1"
  have pay: "payments (db ?s2) = payments (db s)"
    using payment_processor.authorize_frame [OF factory_port [OF Inr] r] by simp
  have "moves (ID p) ?s2 (snd (stepSubmit env p s))"
    using submit_result_moves [OF fresh_same [OF assms(1) pay] assms(2,3), of env r]
    by (simp add: stepSubmit_def Inr r)
  then show ?thesis
    by (rule moves_trans [OF moves_same [OF pay]])
qed

lemma psp_capture_result_moves:
  assumes "fresh s p" and "Status p = Processing" and "Step p = SubmittedToGateway"
  shows "moves (ID p) s (snd (psp_capture_result env p r s))"
proof -
  have "moves (ID p) s (snd (transition env p PspCaptured Processing id s))"
    by (rule transition_moves [OF prod.collapse [symmetric] assms(1) _ extra_id])
      (use assms in \<open>auto intro: lifecycle.intros\<close>)
  moreover have "moves (ID p) s (failAndCompensate env p c d s)" for c d
    by (rule failAndCompensate_moves [OF assms(1)]) (use assms in \<open>auto simp: less_eq_saga_step_def\<close>)
  ultimately show ?thesis
    by (simp add: psp_capture_result_def touch_moves split: sum.splits)
qed

lemma stepPSPCapture_moves:
  assumes "fresh s p" and "Status p = Processing" and "Step p = SubmittedToGateway"
  shows "moves (ID p) s (snd (stepPSPCapture env p s))"
proof (cases "factory_for env (Method p)")
  case (Inl err)
  with failAndCompensate_moves [OF assms(1,2)] assms(3) show ?thesis
    by (simp add: stepPSPCapture_def)
next
  case (Inr P)
  show ?thesis
  proof (cases "PSPReference p")
    case None
    with Inr show ?thesis by (simp add: stepPSPCapture_def moves_same)
  next
    case (Some ref)
    obtain r s1 where r: "PCapture P ref s = (r, s1)" by fastforce
    let ?s2 = "log_call (CallPspCapture (ID p) ref (capture_error r)) s1"
    have pay: "payments (db ?s2) = payments (db s)"
      using payment_processor.capture_frame [OF factory_port [OF Inr] r] by simp
    have "moves (ID p) ?s2 (snd (stepPSPCapture env p s))"
      using psp_capture_result_moves [OF fresh_same [OF assms(1) pay] assms(2,3), of env r]
      by (simp add: stepPSPCapture_def Inr Some r)
    then show ?thesis
      by (rule moves_trans [OF moves_same [OF pay]])
  qed
qed

lemma fxRateUsed_frame: "fxRateUsed env p s = (fx, s') \<Longrightarrow> db s' = db s"
  by (auto simp: fxRateUsed_def split: option.splits prod.splits if_splits dest!: ask_eqD)

lemma stepLedgerCapture_moves:
  assumes "fresh s p" and "Status p = Processing" and "Step p = PspCaptured"
  shows "moves (ID p) s (snd (stepLedgerCapture env p s))"
proof (cases "HoldID p")
  case None
  then show ?thesis by (simp add: stepLedgerCapture_def moves_same)
next
  case (Some h)
  obtain r s1 where r: "Capture env (ID p) h (Amount p) (Currency p) s = (r, s1)"
    by fastforce
  have pay: "payments (db s1) = payments (db s)"
    using Capture_frame(1) [of env "ID p" h "Amount p" "Currency p" s] r by simp
  obtain fx s2 where fx: "fxRateUsed env p s1 = (fx, s2)" by fastforce
  have pay2: "payments (db s2) = payments (db s)"
    using fxRateUsed_frame [OF fx] pay by simp
  have "moves (ID p) s2 (snd (terminalTx env p Captured Succeeded
      (outbox_write env topic_captured ty (uuid_str env (ID p)) body) s2))" for ty body
    unfolding terminalTx_def
    by (rule transitionWith_moves [OF prod.collapse [symmetric] fresh_same [OF assms(1) pay2] _ extra_outbox])
      (use assms in \<open>auto intro: lifecycle.intros\<close>)
  then have "moves (ID p) s (snd (terminalTx env p Captured Succeeded
      (outbox_write env topic_captured ty (uuid_str env (ID p)) body) s2))" for ty body
    by (rule moves_trans [OF moves_same [OF pay2]])
  moreover have "moves (ID p) s (touch env (ID p) s1)"
    by (rule moves_trans [OF moves_same [OF pay] touch_moves]) simp
  ultimately show ?thesis
    by (simp add: stepLedgerCapture_def Some r fx split: sum.splits)
qed

lemma drive_moves:
  assumes "fresh s p" and "Status p = Processing"
  shows "moves (ID p) s (snd (drive env p s))"
  using stepFraud_moves [OF assms] stepHold_moves [OF assms] stepSubmit_moves [OF assms]
    stepPSPCapture_moves [OF assms] stepLedgerCapture_moves [OF assms]
  by (simp add: drive_def moves_same split: saga_step.splits)

lemma load_ID: "load env i s = (Inr p, s') \<Longrightarrow> ID p = i"
  by (auto dest!: load_InrD)

lemma advance_moves:
  assumes inj: "inj (uuid_str env)"
  shows "sys_ok env s \<Longrightarrow> advance n env i s = Some (f, s') \<Longrightarrow> moves i s s'"
proof (induction n arbitrary: s)
  case 0
  then show ?case by simp
next
  case (Suc n)
  obtain r s1 where r: "load env i s = (r, s1)" by fastforce
  have same: "moves i s s1"
    using load_frame(1) [of env i s] r by (simp add: moves_same)
  have ok1: "sys_ok env s1"
    using load_grows [OF Suc.prems(1), of env i] r by (auto dest: grows_ok)
  show ?case
  proof (cases r)
    case (Inl err)
    with Suc.prems r same show ?thesis by simp
  next
    case (Inr p)
    obtain fl s2 where d: "drive env p s1 = (fl, s2)" by fastforce
    have ok2: "sys_ok env s2"
      using drive_grows [OF ok1 inj load_snap_ok [OF Suc.prems(1), of env i p s1]] r Inr d
      by (auto dest: grows_ok)
    have "moves i s1 s2" if "Status p = Processing"
      using drive_moves [OF load_fresh [OF Suc.prems(1), of env i p s1] that, of env] r Inr d
        load_ID [of env i s p s1] by simp
    with same have then_drive: "moves i s s2" if "Status p = Processing"
      using that moves_trans by blast
    consider "s' = s1" | "Status p = Processing" "s' = s2"
      | "Status p = Processing" "advance n env i s2 = Some (f, s')"
      using Suc.prems(2) r Inr d by (cases "Status p = Processing"; cases fl) simp_all
    then show ?thesis
      using same then_drive Suc.IH [OF ok2] moves_trans by cases blast+
  qed
qed

subsection \<open>The loop returns\<close>

definition row_of :: "uuid \<Rightarrow> 'w sys \<Rightarrow> payment_row option" where
  "row_of i s = sql_select_one (\<lambda>r. pr_id r = i) (payments (db s))"

lemma row_of_same: "payments (db s') = payments (db s) \<Longrightarrow> row_of i s' = row_of i s"
  by (simp add: row_of_def)

lemma moves_row_of:
  assumes "moves i s s'" and "row_of j s = Some r"
  shows "\<exists>r'. row_of j s' = Some r' \<and> lifecycle\<^sup>*\<^sup>* (lstate r) (lstate r')"
proof -
  have "\<exists>r'. find (\<lambda>x. pr_id x = j) ys = Some r' \<and> lifecycle\<^sup>*\<^sup>* (lstate r) (lstate r')"
    if "list_all2 (\<lambda>r r'. pr_id r' = pr_id r \<and> lifecycle\<^sup>*\<^sup>* (lstate r) (lstate r')
         \<and> (pr_id r \<noteq> i \<longrightarrow> r' = r)) xs ys" and "find (\<lambda>x. pr_id x = j) xs = Some r" for xs ys
    using that by (induction rule: list_all2_induct) (auto split: if_splits)
  with assms show ?thesis
    unfolding moves_def row_of_def sql_select_one_def by blast
qed

lemma guarded_tx_row_of:
  assumes tx: "guarded_tx env err G f extra s = (None, s')"
    and shape: "extra_shape i g Obs extra" and r: "row_of i s = Some r" and "G r"
    and f: "\<And>r now. pr_id (f now r) = pr_id r" and g: "\<And>r. pr_id (g r) = pr_id r"
  shows "\<exists>now. row_of i s' = Some (g (f now r))"
  using tx
proof (cases rule: guarded_tx_effect)
  case none
  then show ?thesis by simp
next
  case (commit t x)
  define now where "now = clock env (world t)"
  have s': "s' = extra (t\<lparr>db := (db s)\<lparr>payments :=
             map (\<lambda>r. if G r then f now r else r) (payments (db s))\<rparr>\<rparr>)"
    unfolding now_def by (rule commit(7))
  let ?h = "\<lambda>r. let x = (if G r then f now r else r) in if pr_id x = i then g x else x"
  have "payments (db s') = map ?h (payments (db s))"
    unfolding s' by (simp add: extra_shapeD(1) [OF shape] Let_def)
  then have "row_of i s' = map_option ?h (row_of i s)"
    unfolding row_of_def by (simp only:) (rule sql_select_one_map_key, simp add: f g Let_def)
  moreover have "pr_id r = i"
    using r by (auto simp: row_of_def dest: sql_select_one_SomeD)
  ultimately show ?thesis
    using r \<open>G r\<close> f by (auto simp: Let_def)
qed

lemma transition_row_now:
  assumes "transition env p st sta extra s = (None, s')"
    and "extra_shape (ID p) g Obs extra" and "row_of (ID p) s = Some r" and "pr_step r = Step p"
    and g: "\<And>r. pr_id (g r) = pr_id r"
  shows "\<exists>now. row_of (ID p) s' = Some (g (transition_row st sta now r))"
proof -
  obtain t where t: "guarded_tx env (ConcurrentTransition (ID p))
      (\<lambda>r. pr_id r = ID p \<and> pr_step r = Step p) (transition_row st sta) extra s = (None, t)"
    and s': "payments (db s') = payments (db t)"
    using assms(1) by (auto simp: transition_def split: prod.splits option.splits)
  have id: "pr_id r = ID p"
    using assms(3) by (auto simp: row_of_def dest: sql_select_one_SomeD)
  have "\<exists>now. row_of (ID p) t = Some (g (transition_row st sta now r))"
    by (rule guarded_tx_row_of [OF t assms(2,3)]) (simp_all add: assms(4) id transition_row_def g)
  then show ?thesis
    using row_of_same [OF s'] by simp
qed

lemma transition_row_of:
  assumes "transition env p st sta extra s = (None, s')"
    and "extra_shape (ID p) g Obs extra" and "row_of (ID p) s = Some r" and "pr_step r = Step p"
    and "\<And>r. pr_id (g r) = pr_id r" "\<And>r. lstate (g r) = lstate r"
  shows "\<exists>r'. row_of (ID p) s' = Some r' \<and> lstate r' = (sta, st)"
  using transition_row_now [OF assms(1-5)] assms(6) by (auto simp: transition_row_def lstate_def)

lemma next_if_ok_Continue: "next_if_ok es = (Continue, s') \<longleftrightarrow> es = (None, s')"
  by (auto simp: next_if_ok_def split: prod.splits option.splits)

text \<open>A step that continues has moved its payment to the next step.\<close>

lemma drive_continues:
  assumes run: "drive env p s = (Continue, s')" and r: "row_of (ID p) s = Some r"
    and step: "pr_step r = Step p" and sta: "pr_status r = Processing"
  shows "\<exists>r'. row_of (ID p) s' = Some r' \<and> step_rank (pr_step r') = Suc (step_rank (Step p))
     \<and> step_rank (Step p) \<le> 4
     \<and> pr_status r' = (if Step p = PspCaptured then Succeeded else Processing)"
proof -
  note simps = lstate_def step extra_set_row extra_id extra_outbox_set_row
  have go: "\<exists>r'. row_of (ID p) u = Some r' \<and> pr_step r' = st \<and> pr_status r' = Processing"
    if "transition env p st Processing extra t = (None, u)" "payments (db t) = payments (db s)"
      "extra_shape (ID p) g Obs extra" "\<And>r. pr_id (g r) = pr_id r" "\<And>r. lstate (g r) = lstate r"
    for st extra t u g Obs
    using transition_row_of [OF that(1,3) _ step that(4,5)] r row_of_same [OF that(2)]
    by (auto simp: lstate_def)
  show ?thesis
  proof (cases "Step p")
    case Requested
    obtain v t where v: "Screen env (score_request_of env p (clock env (world s))) s = (v, t)"
      by fastforce
    have "db t = db s"
      using Screen_frame(1) [of env "score_request_of env p (clock env (world s))" s] v by simp
    with run Requested v show ?thesis
      by (auto simp: drive_def stepFraud_def next_if_ok_Continue lstate_def split: if_splits
          dest!: go [OF _ _ extra_set_row])
  next
    case FraudScreened
    obtain v t where v: "Hold env (ID p) (AccountID p) (Amount p) (Currency p) s = (v, t)"
      by fastforce
    have "db t = db s"
      using Hold_frame(1) [of env "ID p" "AccountID p" "Amount p" "Currency p" s] v by simp
    with run FraudScreened v show ?thesis
      by (auto simp: drive_def stepHold_def next_if_ok_Continue lstate_def
          split: if_splits sum.splits option.splits dest!: go [OF _ _ extra_set_row])
  next
    case FundsHeld
    with run obtain P where P: "factory_for env (Method p) = Inr P"
      by (auto simp: drive_def stepSubmit_def split: sum.splits)
    obtain v t where v: "Authorize P (ID p) (Amount p) (Currency p) (Token p) s = (v, t)"
      by fastforce
    have "db t = db s"
      using payment_processor.authorize_frame [OF factory_port [OF P] v] by simp
    with run FundsHeld P v show ?thesis
      by (auto simp: drive_def stepSubmit_def submit_result_def next_if_ok_Continue lstate_def
          split: if_splits sum.splits outcome.splits dest!: go [OF _ _ extra_outbox_set_row])
  next
    case SubmittedToGateway
    with run obtain P ref where P: "factory_for env (Method p) = Inr P" "PSPReference p = Some ref"
      by (auto simp: drive_def stepPSPCapture_def split: sum.splits if_splits option.splits)
    obtain v t where v: "PCapture P ref s = (v, t)" by fastforce
    have "db t = db s"
      using payment_processor.capture_frame [OF factory_port [OF P(1)] v] by simp
    with run SubmittedToGateway P v show ?thesis
      by (auto simp: drive_def stepPSPCapture_def psp_capture_result_def next_if_ok_Continue
          split: if_splits sum.splits dest!: go [OF _ _ extra_id])
  next
    case PspCaptured
    with run obtain h where h: "HoldID p = Some h"
      by (auto simp: drive_def stepLedgerCapture_def split: option.splits)
    obtain v t where v: "Capture env (ID p) h (Amount p) (Currency p) s = (v, t)" by fastforce
    have t: "db t = db s"
      using Capture_frame(1) [of env "ID p" h "Amount p" "Currency p" s] v by simp
    with run PspCaptured h v obtain txn fx u where fx: "fxRateUsed env p t = (fx, u)"
      and tr: "transitionWith env p Captured Succeeded [] [] None
        (outbox_write env topic_captured ''payment'' (uuid_str env (ID p))
           (captured_payload env p txn fx)) u = (None, s')"
      by (auto simp: drive_def stepLedgerCapture_def terminalTx_def next_if_ok_Continue
          split: if_splits sum.splits prod.splits)
    obtain w where w: "guarded_tx env (NoLongerProcessing (ID p))
        (\<lambda>r. pr_id r = ID p \<and> pr_status r = Processing)
        (transition_with_row Captured Succeeded [] [] None)
        (outbox_write env topic_captured ''payment'' (uuid_str env (ID p))
           (captured_payload env p txn fx)) u = (None, w)"
      and s': "payments (db s') = payments (db w)"
      using tr by (auto simp: transitionWith_def split: prod.splits option.splits)
    have u: "payments (db u) = payments (db s)"
      using fxRateUsed_frame [OF fx] t by simp
    have "pr_id r = ID p"
      using r by (auto simp: row_of_def dest: sql_select_one_SomeD)
    then have "\<exists>now. row_of (ID p) w = Some (id (transition_with_row Captured Succeeded [] [] None now r))"
      using r row_of_same [OF u]
      by (intro guarded_tx_row_of [OF w extra_outbox]) (simp_all add: sta transition_with_row_def)
    with PspCaptured row_of_same [OF s'] show ?thesis
      by (auto simp: transition_with_row_def)
  qed (use run in \<open>auto simp: drive_def\<close>)
qed

lemma advance_enough:
  assumes "1 \<le> n" and "\<And>r. row_of i s = Some r \<Longrightarrow> 6 \<le> n + step_rank (pr_step r)"
  shows "\<exists>res. advance n env i s = Some res"
  using assms
proof (induction n arbitrary: s)
  case 0
  then show ?case by simp
next
  case (Suc n)
  obtain l s1 where l: "load env i s = (l, s1)" by fastforce
  show ?case
  proof (cases l)
    case (Inl err)
    with l show ?thesis by simp
  next
    case (Inr p)
    obtain r m where r: "row_of i s = Some r" "p = payment_of r m" "pr_id r = i"
      using load_InrD [of env i s p s1] l Inr by (auto simp: row_of_def)
    have "row_of i s1 = Some r"
      using load_frame(1) [of env i s] l r by (simp add: row_of_def)
    moreover obtain fl s2 where d: "drive env p s1 = (fl, s2)" by fastforce
    ultimately have "fl = Continue \<Longrightarrow> Status p = Processing \<Longrightarrow>
        \<exists>r'. row_of i s2 = Some r' \<and> step_rank (pr_step r') = Suc (step_rank (pr_step r))
          \<and> step_rank (pr_step r) \<le> 4"
      using drive_continues [of env p s1 s2 r] r by auto
    then have "fl = Continue \<Longrightarrow> Status p = Processing \<Longrightarrow> \<exists>res. advance n env i s2 = Some res"
      using Suc.prems(2) [OF r(1)] by (intro Suc.IH) auto
    with l Inr d show ?thesis by (auto split: flow.splits)
  qed
qed

lemma advance_six: "advance 6 env i s = Some (Advance env i s)"
  using advance_enough [of 6 i s env] by (auto simp: Advance_def)

text \<open>More iterations never change the result.\<close>

lemma advance_mono: "advance n env i s = Some r \<Longrightarrow> advance (Suc n) env i s = Some r"
proof (induction n arbitrary: s)
  case 0
  then show ?case by simp
next
  case (Suc n)
  obtain l s1 where l: "load env i s = (l, s1)" by fastforce
  show ?case
  proof (cases l)
    case (Inl err)
    with l Suc.prems show ?thesis by simp
  next
    case (Inr p)
    obtain fl s2 where d: "drive env p s1 = (fl, s2)" by fastforce
    show ?thesis
    proof (cases "Status p = Processing \<and> fl = Continue")
      case True
      with l Inr d Suc.prems have "advance n env i s2 = Some r" by simp
      from Suc.IH [OF this] True l Inr d show ?thesis
        by (simp only: advance.simps(2) [of "Suc n" env i s]) simp
    next
      case False
      with l Inr d Suc.prems show ?thesis by (auto split: flow.splits)
    qed
  qed
qed

end
