(* ===== verification/Interleaving.thy ===== *)
theory Interleaving
  imports Lifecycle
begin

section \<open>Goroutines, sweepers and handlers interleaved\<close>

text \<open>
  The service runs many workers on one database. A \<open>task\<close> is a worker between two of its
  atomic pieces: what it loaded, and what it will do next. A piece is a load, or one step
  from its external calls to its transaction (the calls touch only the environment and the
  history, so running them together with the transaction loses no interleaving of database
  states). Any task may run next; tickers and requests add tasks; the environment, and
  everything that is not a payment, an event or a money call, changes at will between pieces. \<open>reachable\<close> starts from an empty payments table. What the invariant of
  \<open>Invariants\<close> says holds in every reachable configuration.
\<close>

datatype task =
    TAdvance uuid
  | TDrive payment
  | TCompensate string string uuid
  | TFail string string payment
  | TComplete uuid bool string string
  | TPersist payment bool string string
  | TResume uuid uuid
  | TUnpark payment

fun run_task :: "'w env \<Rightarrow> task \<Rightarrow> 'w sys \<Rightarrow> task list \<times> 'w sys" where
  "run_task env (TAdvance i) s =
     (case load env i s of
        (Inl _, s1) \<Rightarrow> ([], s1)
      | (Inr p, s1) \<Rightarrow> (if Status p = Processing then [TDrive p] else [], s1))"
| "run_task env (TDrive p) s =
     (case drive env p s of (f, s1) \<Rightarrow> (if f = Continue then [TAdvance (ID p)] else [], s1))"
| "run_task env (TCompensate code detail i) s =
     (case load env i s of
        (Inl _, s1) \<Rightarrow> ([], s1)
      | (Inr p, s1) \<Rightarrow> ([TFail code detail p], s1))"
| "run_task env (TFail code detail p) s = ([], failAndCompensate env p code detail s)"
| "run_task env (TComplete i approved ref code) s =
     (case load env i s of
        (Inl _, s1) \<Rightarrow> ([], s1)
      | (Inr p, s1) \<Rightarrow>
          (if Status p \<noteq> Processing \<or> Step p \<noteq> SubmittedToGateway then []
           else [TPersist p approved ref code], s1))"
| "run_task env (TPersist p approved ref code) s =
     (if approved then
        (case transition env p SubmittedToGateway Processing
                (set_row (ID p) (\<lambda>r. r\<lparr>pr_psp_reference := Some ref\<rparr>)) s of
           (e, s1) \<Rightarrow> (if e = None then [TAdvance (ID p)] else [], s1))
      else ([], failAndCompensate env p ''gateway_declined'' code s))"
| "run_task env (TResume i user) s =
     (case load env i s of
        (Inl _, s1) \<Rightarrow> ([], s1)
      | (Inr p, s1) \<Rightarrow>
          (if UserID p \<noteq> user \<or> Status p \<noteq> RequiresAction then [] else [TUnpark p], s1))"
| "run_task env (TUnpark p) s =
     (case transition env p FraudScreened Processing id s of
        (e, s1) \<Rightarrow> (if e = None then [TAdvance (ID p)] else [], s1))"

text \<open>What starts a task: tickers, the consumer, requests.\<close>

definition sweep_tasks :: "string \<Rightarrow> string \<Rightarrow> go_error + uuid list \<Rightarrow> task list" where
  "sweep_tasks code detail r =
     (case r of Inl _ \<Rightarrow> [] | Inr ids \<Rightarrow> map (TCompensate code detail) ids)"

definition resume_tasks :: "go_error + uuid list \<Rightarrow> task list" where
  "resume_tasks r = (case r of Inl _ \<Rightarrow> [] | Inr ids \<Rightarrow> map TAdvance ids)"

definition new_payment :: "payment_row \<Rightarrow> bool" where
  "new_payment r \<longleftrightarrow> pr_status r = Processing \<and> pr_step r = Requested \<and> pr_hold_id r = None
     \<and> pr_psp_reference r = None \<and> pr_failure_code r = None"

text \<open>
  Everything else the service does (idempotency keys, quotes, subscribers, the relay's marks on
  published events) leaves the payments, the events and the money calls as they are.
\<close>

definition unmarked :: "outbox_row \<Rightarrow> outbox_row" where
  "unmarked b = b\<lparr>ob_processed_at := None\<rparr>"

definition same_books :: "'w sys \<Rightarrow> 'w sys \<Rightarrow> bool" where
  "same_books s s' \<longleftrightarrow> payments (db s') = payments (db s)
     \<and> map unmarked (outbox (db s')) = map unmarked (outbox (db s)) \<and> calls s' = calls s"

type_synonym 'w conf = "task list \<times> 'w sys"

inductive conf_step :: "'w env \<Rightarrow> 'w conf \<Rightarrow> 'w conf \<Rightarrow> bool" for env where
  run: "run_task env t s = (new, s') \<Longrightarrow>
    conf_step env (ts @ t # us, s) (ts @ new @ us, s')"
| resume: "scan_ids env [''id'', ''status'', ''updated_at''] (resume_query d) s = (r, s') \<Longrightarrow>
    conf_step env (ts, s) (ts @ resume_tasks r, s')"
| sweep_submissions:
    "scan_ids env [''id'', ''status'', ''step'', ''updated_at''] (stuck_submission d) s = (r, s') \<Longrightarrow>
    conf_step env (ts, s) (ts @ sweep_tasks ''gateway_unavailable''
      ''processor unreachable past the submission timeout'' r, s')"
| sweep_captures:
    "scan_ids env [''id'', ''status'', ''step'', ''psp_reference'', ''updated_at''] (stuck_capture d) s
       = (r, s') \<Longrightarrow>
    conf_step env (ts, s) (ts @ sweep_tasks ''gateway_capture_failed''
      ''processor did not confirm the capture in time'' r, s')"
| sweep_wallets: "scan_ids env wallet_columns (stale_wallet d) s = (r, s') \<Longrightarrow>
    conf_step env (ts, s) (ts @ sweep_tasks ''gateway_timeout''
      ''wallet processor did not report an outcome'' r, s')"
| expire: "conf_step env (ts, s) (ts, ExpireStaleRequiresAction env d s)"
| completion: "conf_step env (ts, s) (ts @ [TComplete i approved ref code], s)"
| step_up: "conf_step env (ts, s) (ts @ [TResume i user], s)"
| create: "new_payment r \<Longrightarrow> pr_id r \<notin> pr_id ` set (payments (db s)) \<Longrightarrow>
    uuid_str env (pr_id r) \<notin> ob_aggregateid ` set (outbox (db s)) \<Longrightarrow>
    payments (db t) = payments (db s) @ [r] \<Longrightarrow> outbox (db t) = outbox (db s) \<Longrightarrow> calls t = calls s \<Longrightarrow>
    WriteRequestedEvent env (pr_id r) user merchant amount currency fx t = s' \<Longrightarrow>
    new = [] \<or> new = [TAdvance (pr_id r)] \<Longrightarrow>
    conf_step env (ts, s) (ts @ new, s')"
| elsewhere: "same_books s s' \<Longrightarrow> conf_step env (ts, s) (ts, s')"

definition initial :: "'w sys \<Rightarrow> bool" where
  "initial s \<longleftrightarrow> payments (db s) = [] \<and> outbox (db s) = [] \<and> calls s = []"

inductive reachable :: "'w env \<Rightarrow> 'w conf \<Rightarrow> bool" for env where
  start: "initial s \<Longrightarrow> reachable env ([], s)"
| move: "reachable env c \<Longrightarrow> conf_step env c c' \<Longrightarrow> reachable env c'"

subsection \<open>The invariant of a configuration\<close>

text \<open>What a task may assume of the payment it carries, and the codes it may fail it with.\<close>

fun task_ok :: "'w sys \<Rightarrow> task \<Rightarrow> bool" where
  "task_ok s (TAdvance i) = True"
| "task_ok s (TDrive p) = snap_ok s p"
| "task_ok s (TCompensate code detail i) = (code \<noteq> ''step_up_expired'')"
| "task_ok s (TFail code detail p) = (code \<noteq> ''step_up_expired'')"
| "task_ok s (TComplete i approved ref code) = True"
| "task_ok s (TPersist p approved ref code) = (Step p = SubmittedToGateway)"
| "task_ok s (TResume i user) = True"
| "task_ok s (TUnpark p) = (Step p = FraudScreened)"

definition conf_ok :: "'w env \<Rightarrow> 'w conf \<Rightarrow> bool" where
  "conf_ok env c \<longleftrightarrow> sys_ok env (snd c) \<and> (\<forall>t \<in> set (fst c). task_ok (snd c) t)"

lemma task_ok_grows: "grows env s s' \<Longrightarrow> task_ok s t \<Longrightarrow> task_ok s' t"
  by (cases t) (auto intro: grows_snap)

lemma run_task_ok:
  assumes ok: "sys_ok env s" and inj: "inj (uuid_str env)" and t: "task_ok s t"
    and run: "run_task env t s = (new, s')"
  shows "grows env s s' \<and> (\<forall>u \<in> set new. task_ok s' u)"
proof (cases t)
  case (TAdvance i)
  obtain r s1 where r: "load env i s = (r, s1)" by fastforce
  with run TAdvance load_grows [OF ok, of env i] load_snap_ok [OF ok, of env i] show ?thesis
    by (auto split: sum.splits if_splits)
next
  case (TDrive p)
  with run t drive_grows [OF ok inj, of p] show ?thesis
    by (auto split: prod.splits if_splits)
next
  case (TCompensate code detail i)
  obtain r s1 where r: "load env i s = (r, s1)" by fastforce
  with run TCompensate t load_grows [OF ok, of env i] show ?thesis
    by (auto split: sum.splits)
next
  case (TFail code detail p)
  with run t failAndCompensate_grows [OF ok inj] show ?thesis by auto
next
  case (TComplete i a ref code)
  obtain r s1 where r: "load env i s = (r, s1)" by fastforce
  with run TComplete load_grows [OF ok, of env i] show ?thesis
    by (auto split: sum.splits if_splits)
next
  case (TPersist p a ref code)
  obtain e s1 where e: "transition env p SubmittedToGateway Processing
      (set_row (ID p) (\<lambda>r. r\<lparr>pr_psp_reference := Some ref\<rparr>)) s = (e, s1)" by fastforce
  with run TPersist t CompleteFromGateway_persist_grows [OF ok inj _ e]
    failAndCompensate_grows [OF ok inj, of "''gateway_declined''" p code]
  show ?thesis by (auto split: if_splits)
next
  case (TResume i user)
  obtain r s1 where r: "load env i s = (r, s1)" by fastforce
  with run TResume load_grows [OF ok, of env i] load_snap_ok [OF ok, of env i] show ?thesis
    by (auto simp: snap_ok_def split: sum.splits if_splits)
next
  case (TUnpark p)
  obtain e s1 where e: "transition env p FraudScreened Processing id s = (e, s1)" by fastforce
  with run TUnpark t ResumeAfterStepUp_persist_grows [OF ok inj _ e] show ?thesis
    by (auto split: if_splits)
qed

text \<open>A new payment: one more row, with the event of its request.\<close>

lemma create_grows:
  assumes ok: "sys_ok env s" and new: "new_payment r" and id: "pr_id r \<notin> pr_id ` set (payments (db s))"
    and ag: "uuid_str env (pr_id r) \<notin> ob_aggregateid ` set (outbox (db s))"
    and t: "payments (db t) = payments (db s) @ [r]" "outbox (db t) = outbox (db s)" "calls t = calls s"
  shows "grows env s (WriteRequestedEvent env (pr_id r) u m a c fx t)" (is "grows env s ?s'")
proof -
  obtain b where b: "outbox (db ?s') = outbox (db s) @ [b]" "ob_type b = topic_requested"
    using outbox_write_outbox [of env topic_requested "''payment''" "uuid_str env (pr_id r)"
      "requested_payload env (pr_id r) u m a c fx" t]
    unfolding WriteRequestedEvent_def t by auto
  have rows: "payments (db ?s') = payments (db s) @ [r]" and calls: "calls ?s' = calls s"
    by (simp_all add: WriteRequestedEvent_def t)
  have none: "terminal_events env i [b] = []" for i
    using b(2) by (simp add: terminal_events_def)
  have "terminal_events env (pr_id r) (outbox (db s)) = []"
    using ag by (auto simp: terminal_events_def filter_empty_conv image_iff)
  with new none have "row_ok env (calls s) r" "events_ok env (outbox (db s) @ [b]) r"
    by (auto simp: new_payment_def row_ok_def events_ok_def)
  moreover have "events_ok env (outbox (db s) @ [b]) x = events_ok env (outbox (db s)) x" for x
    by (simp add: events_ok_def none)
  ultimately show ?thesis
    using ok id unfolding grows_def sys_ok_def ext_def rows calls b(1)
    by (auto intro: row_ext_refl)
qed

text \<open>A scan that adds tasks.\<close>

lemma scan_step_ok:
  assumes "scan_ids env cols P s = (r, s')" and ok: "conf_ok env (ts, s)"
    and "\<forall>t \<in> set new. task_ok s' t"
  shows "conf_ok env (ts @ new, s') \<and> grows env s s'"
proof -
  have "sys_ok env s"
    using ok by (simp add: conf_ok_def)
  then have g: "grows env s s'"
    using scan_ids_grows [of env s env cols P] assms(1) by simp
  with ok assms(3) show ?thesis
    by (auto simp: conf_ok_def intro: grows_ok task_ok_grows)
qed

lemma scan_tasks_ok:
  "\<forall>t \<in> set (resume_tasks r). task_ok s t"
  "code \<noteq> ''step_up_expired'' \<Longrightarrow> \<forall>t \<in> set (sweep_tasks code detail r). task_ok s t"
  by (auto simp: resume_tasks_def sweep_tasks_def split: sum.splits)

lemma terminal_events_unmarked: "terminal_events env i obs = terminal_events env i (map unmarked obs)"
  by (simp add: terminal_events_def unmarked_def filter_map comp_def)

lemma same_books_grows:
  assumes "sys_ok env s" and "same_books s s'"
  shows "grows env s s'"
proof -
  have "terminal_events env i (outbox (db s')) = terminal_events env i (outbox (db s))" for i
    using assms(2) terminal_events_unmarked by (metis same_books_def)
  with assms show ?thesis
    by (auto simp: same_books_def grows_def sys_ok_def events_ok_def ext_def intro: row_ext_refl)
qed

lemma same_books_refl [simp]: "same_books s s"
  by (simp add: same_books_def)

lemma same_books_trans: "same_books s t \<Longrightarrow> same_books t u \<Longrightarrow> same_books s u"
  by (simp add: same_books_def)

lemma conf_step_ok:
  assumes inj: "inj (uuid_str env)" and "conf_step env c c'" and "conf_ok env c"
  shows "conf_ok env c' \<and> grows env (snd c) (snd c')"
  using assms(2,3)
proof (induction rule: conf_step.induct)
  case (run t s new s' ts us)
  from run.prems have "sys_ok env s" "task_ok s t"
    and rest: "\<forall>t \<in> set ts \<union> set us. task_ok s t"
    by (auto simp: conf_ok_def)
  with run_task_ok [OF _ inj _ run.hyps] have "grows env s s'" "\<forall>u \<in> set new. task_ok s' u"
    by auto
  with rest show ?case
    by (auto simp: conf_ok_def intro: grows_ok task_ok_grows)
next
  case (resume d s r s' ts)
  show ?case
    unfolding snd_conv
    by (rule scan_step_ok [OF resume.hyps resume.prems scan_tasks_ok(1)])
next
  case (sweep_submissions d s r s' ts)
  show ?case
    unfolding snd_conv
    by (rule scan_step_ok [OF sweep_submissions.hyps sweep_submissions.prems scan_tasks_ok(2)]) simp
next
  case (sweep_captures d s r s' ts)
  show ?case
    unfolding snd_conv
    by (rule scan_step_ok [OF sweep_captures.hyps sweep_captures.prems scan_tasks_ok(2)]) simp
next
  case (sweep_wallets d s r s' ts)
  show ?case
    unfolding snd_conv
    by (rule scan_step_ok [OF sweep_wallets.hyps sweep_wallets.prems scan_tasks_ok(2)]) simp
next
  case (expire ts s d)
  then have "grows env s (ExpireStaleRequiresAction env d s)"
    by (intro ExpireStaleRequiresAction_grows) (simp add: conf_ok_def)
  with expire.prems show ?case
    by (auto simp: conf_ok_def intro: grows_ok task_ok_grows)
next
  case (create r s t user merchant amount currency fx s' new ts)
  then have "grows env s s'"
    using create_grows [of env s r t] by (auto simp: conf_ok_def)
  with create.prems create.hyps(8) show ?case
    by (auto simp: conf_ok_def intro: grows_ok task_ok_grows)
next
  case (elsewhere s s' ts)
  then have "grows env s s'"
    by (intro same_books_grows) (simp_all add: conf_ok_def)
  with elsewhere.prems show ?case
    by (auto simp: conf_ok_def intro: grows_ok task_ok_grows)
qed (auto simp: conf_ok_def intro: grows_refl)

lemma initial_ok: "initial s \<Longrightarrow> conf_ok env ([], s)"
  by (simp add: initial_def conf_ok_def sys_ok_def ledger_ordered_def)

lemma reachable_ok:
  assumes "inj (uuid_str env)"
  shows "reachable env c \<Longrightarrow> conf_ok env c"
  by (induction rule: reachable.induct)
    (simp_all add: initial_ok conf_step_ok [OF assms])

lemma steps_grow:
  assumes inj: "inj (uuid_str env)"
  shows "(conf_step env)\<^sup>*\<^sup>* c c' \<Longrightarrow> conf_ok env c \<Longrightarrow> conf_ok env c' \<and> grows env (snd c) (snd c')"
proof (induction rule: rtranclp_induct)
  case base
  then show ?case by (simp add: conf_ok_def grows_refl)
next
  case (step d e)
  with conf_step_ok [OF inj step.hyps(2)] show ?case
    by (blast intro: grows_trans)
qed

subsection \<open>An uninterrupted worker is the loop\<close>

text \<open>
  Running only the tasks of one driver, in order, is \<open>advance\<close>: the interleaved model runs
  the same code.
\<close>

lemma advance_as_tasks:
  "advance n env i s = Some (f, s') \<Longrightarrow>
     (conf_step env)\<^sup>*\<^sup>* (ts @ TAdvance i # us, s) (ts @ us, s')"
proof (induction n arbitrary: s)
  case 0
  then show ?case by simp
next
  case (Suc n)
  obtain r s1 where r: "load env i s = (r, s1)" by fastforce
  show ?case
  proof (cases "\<exists>p. r = Inr p \<and> Status p = Processing")
    case False
    then have "run_task env (TAdvance i) s = ([], s1)"
      using r by (auto split: sum.splits)
    from conf_step.run [OF this, of ts us] have "conf_step env (ts @ TAdvance i # us, s) (ts @ us, s1)"
      by simp
    moreover have "s' = s1"
      using False Suc.prems r by (auto split: sum.splits)
    ultimately show ?thesis by blast
  next
    case True
    then obtain p where p: "r = Inr p" "Status p = Processing" by blast
    obtain fl s2 where d: "drive env p s1 = (fl, s2)" by fastforce
    have "run_task env (TAdvance i) s = ([TDrive p], s1)"
      using r p by simp
    from conf_step.run [OF this, of ts us]
    have 1: "conf_step env (ts @ TAdvance i # us, s) (ts @ TDrive p # us, s1)" by simp
    have "run_task env (TDrive p) s1 = (if fl = Continue then [TAdvance i] else [], s2)"
      using d load_ID r p by auto
    from conf_step.run [OF this, of ts us]
    have 2: "conf_step env (ts @ TDrive p # us, s1)
        (ts @ (if fl = Continue then [TAdvance i] else []) @ us, s2)" by simp
    have "(conf_step env)\<^sup>*\<^sup>* (ts @ (if fl = Continue then [TAdvance i] else []) @ us, s2) (ts @ us, s')"
      using Suc.prems r p d Suc.IH [of s2] by (auto split: flow.splits)
    with 1 2 show ?thesis
      by (blast intro: converse_rtranclp_into_rtranclp)
  qed
qed

end
