(* ===== verification/Scenario.thy ===== *)
theory Scenario
  imports Interleaving
begin

section \<open>Schedules and concrete environments\<close>

text \<open>
  An executable scheduler for the interleaved model, and environments in which every outside
  service gives a fixed answer, with small states of the service. The witnesses of the
  properties are evaluated on them. The environment's own state is its clock; each new event id
  takes a nanosecond, a backoff takes as long as it says.
\<close>

subsection \<open>Schedules\<close>

text \<open>A move names the next step of a configuration; a task that does not exist does not run.\<close>

datatype 'w move =
    Run nat
  | Resumes duration
  | SweepCaptures duration
  | Completion uuid bool string string
  | World 'w

fun apply_move :: "'w env \<Rightarrow> 'w move \<Rightarrow> 'w conf \<Rightarrow> 'w conf" where
  "apply_move env (Run k) (ts, s) =
     (if k < length ts
      then (case run_task env (ts ! k) s of (new, s') \<Rightarrow> (take k ts @ new @ drop (Suc k) ts, s'))
      else (ts, s))"
| "apply_move env (Resumes d) (ts, s) =
     (case scan_ids env [''id'', ''status'', ''updated_at''] (resume_query d) s of
        (r, s') \<Rightarrow> (ts @ resume_tasks r, s'))"
| "apply_move env (SweepCaptures d) (ts, s) =
     (case scan_ids env [''id'', ''status'', ''step'', ''psp_reference'', ''updated_at'']
             (stuck_capture d) s of
        (r, s') \<Rightarrow> (ts @ sweep_tasks ''gateway_capture_failed''
           ''processor did not confirm the capture in time'' r, s'))"
| "apply_move env (Completion i approved ref code) (ts, s) = (ts @ [TComplete i approved ref code], s)"
| "apply_move env (World w) (ts, s) = (ts, s\<lparr>world := w\<rparr>)"

lemma apply_move_step: "apply_move env m c = c \<or> conf_step env c (apply_move env m c)"
proof (induction env m c rule: apply_move.induct)
  case (1 env k ts s)
  show ?case
  proof (cases "k < length ts")
    case True
    obtain new s' where r: "run_task env (ts ! k) s = (new, s')" by fastforce
    from conf_step.run [OF r, of "take k ts" "drop (Suc k) ts"] True r
    show ?thesis by (simp add: id_take_nth_drop [OF True, symmetric])
  qed simp
qed (auto simp: same_books_def intro: conf_step.intros split: prod.splits)

lemma reachable_apply_move: "reachable env c \<Longrightarrow> reachable env (apply_move env m c)"
  using apply_move_step [of env m c] reachable.move [of env c] by metis

lemma reachable_moves: "reachable env c \<Longrightarrow> reachable env (fold (apply_move env) ms c)"
  by (induction ms arbitrary: c) (simp_all add: reachable_apply_move)

lemma reachable_steps: "(conf_step env)\<^sup>*\<^sup>* c c' \<Longrightarrow> reachable env c \<Longrightarrow> reachable env c'"
  by (induction rule: rtranclp_induct) (auto intro: reachable.move)

subsection \<open>Concrete environments\<close>

record answers =
  an_score :: "rpc_code + score_response"
  an_hold :: "rpc_code + string"
  an_capture :: "rpc_code + string"
  an_release :: "rpc_code option"
  an_authorize :: http_reply
  an_post :: http_reply
  an_commit :: db_outcome
  an_get :: get_reply
  an_produce :: "string option"

definition demo_uuid :: "uuid \<Rightarrow> string" where
  "demo_uuid i = replicate i CHR ''u''"

definition demo_env :: "answers \<Rightarrow> int env" where
  "demo_env a =
     \<lparr>clock = (\<lambda>w. w),
      db_commit = (\<lambda>w. (an_commit a, w)),
      db_read = (\<lambda>w. (True, w)),
      uuid_str = demo_uuid,
      uuid_parse = (\<lambda>t. if t = ''hold'' then Some 7 else None),
      uuid_new = (\<lambda>w. (nat (w mod 1000), w + 1)),
      decision_str = (\<lambda>_. ''step_up''),
      score_rpc = (\<lambda>_ w. (an_score a, w)),
      hold_rpc = (\<lambda>_ w. (an_hold a, w)),
      capture_rpc = (\<lambda>_ w. (an_capture a, w)),
      release_rpc = (\<lambda>_ w. (an_release a, w)),
      http_authorize = (\<lambda>_ _ w. (an_authorize a, w)),
      http_post = (\<lambda>_ w. (an_post a, w)),
      breaker_admit = (\<lambda>_ w. (None, w)),
      breaker_record = (\<lambda>_ _ w. w),
      rand_intn = (\<lambda>_ w. (0, w)),
      wait_backoff = (\<lambda>d w. (None, w + d)),
      fail_open_limit = 5000,
      psp_base = ''psp'',
      jsonb_norm = (\<lambda>b. b),
      numeric_inverse = (\<lambda>r. r),
      text_le = (\<lambda>a b. True),
      http_get = (\<lambda>_ w. (an_get a, w)),
      produce_sync = (\<lambda>_ w. (an_produce a, w)),
      kafka_ping = (\<lambda>w. (True, w)),
      ctx_done = (\<lambda>w. (False, w)),
      kafka_poll = (\<lambda>w. (Inr [], w)),
      kafka_commit = (\<lambda>w. (None, w)),
      registry_base = ''registry'',
      sprint_error = (\<lambda>_. ''error''),
      js_document = (\<lambda>_. None),
      js_add = (\<lambda>_ _. None),
      js_compile = (\<lambda>_ _ w. (None, w)),
      js_validate = (\<lambda>_ _. None)\<rparr>"

lemma inj_demo_uuid [simp]: "inj (uuid_str (demo_env a))"
  by (simp add: inj_def demo_env_def demo_uuid_def)

text \<open>Every service answers, and answers yes.\<close>

definition approved_resp :: authorize_resp where
  "approved_resp = \<lparr>ap_psp_reference = ''ref'', ap_outcome = ''approved'', ap_decline_code = [],
     ap_pending = False\<rparr>"

definition yes :: answers where
  "yes = \<lparr>an_score = Inr \<lparr>sr_decision = DECISION_APPROVE, sr_risk_score = 10\<rparr>,
     an_hold = Inr ''hold'', an_capture = Inr ''txn'', an_release = None,
     an_authorize = HttpReply 200 [] (Some approved_resp), an_post = HttpReply 200 [] None,
     an_commit = DbOk, an_get = GetFailed ''down'', an_produce = None\<rparr>"

definition demo_row :: "status \<Rightarrow> saga_step \<Rightarrow> payment_row" where
  "demo_row sta st =
     \<lparr>pr_id = 1, pr_user_id = 2, pr_account_id = 3, pr_merchant_id = ''m'', pr_instrument_id = 4,
      pr_amount = 1250, pr_currency = ''EUR'', pr_fx_quote_id = None, pr_status = sta,
      pr_step = st, pr_hold_id = None, pr_psp_reference = None, pr_failure_code = None,
      pr_failure_detail = None, pr_risk_score = None, pr_version = 0, pr_created_at = 0,
      pr_updated_at = 0\<rparr>"

definition demo_instrument :: instrument_row where
  "demo_instrument = \<lparr>in_id = 4, in_method = ''card'', in_brand = Some ''visa'', in_last4 = Some ''4242'',
     in_exp_month = Some 12, in_exp_year = Some 2030, in_gateway_token = ''tok''\<rparr>"

definition demo_merchant :: merchant_row where
  "demo_merchant = \<lparr>mc_id = ''m'', mc_display_name = ''Merchant'', mc_category = ''retail''\<rparr>"

definition no_snapshot :: snapshot where
  "no_snapshot = \<lparr>sn_status = [], sn_ran_at = [], sn_report_since = [], sn_settled_not_booked = 0,
     sn_booked_not_settled = 0, sn_double_settled = 0, sn_out_of_coverage = 0, sn_detail = []\<rparr>"

definition demo_sys :: "payment_row list \<Rightarrow> int \<Rightarrow> int sys" where
  "demo_sys rows now =
     \<lparr>db = \<lparr>payments = rows, instruments = [demo_instrument], merchants = [demo_merchant],
        exchange_rates = [], fx_quotes = [], outbox = [], idempotency_keys = [],
        processed_events = []\<rparr>,
      bus = bus_new, spawned = [], calls = [], schema_ids = Map.empty, schemas = Map.empty,
      last_snapshot = no_snapshot, produced = [], world = now\<rparr>"

text \<open>The service right after the request of the demo payment.\<close>

definition demo_created :: "answers \<Rightarrow> int \<Rightarrow> int sys" where
  "demo_created a now =
     WriteRequestedEvent (demo_env a) 1 2 ''m'' 1250 ''EUR'' None
       (demo_sys [demo_row Processing Requested] now)"

lemma reachable_created: "reachable (demo_env a) ([TAdvance 1], demo_created a now)"
proof -
  have "reachable (demo_env a) ([], demo_sys [] now)"
    by (rule reachable.start) (simp add: initial_def demo_sys_def)
  moreover have "conf_step (demo_env a) ([], demo_sys [] now) ([] @ [TAdvance 1], demo_created a now)"
    by (rule conf_step.create [where r = "demo_row Processing Requested"
          and t = "demo_sys [demo_row Processing Requested] now"])
      (simp_all add: new_payment_def demo_row_def demo_sys_def demo_created_def)
  ultimately show ?thesis
    by (auto intro: reachable.move)
qed

lemma reachable_advanced:
  "reachable (demo_env a) ([], snd (Advance (demo_env a) 1 (demo_created a now)))"
proof -
  obtain f s' where r: "Advance (demo_env a) 1 (demo_created a now) = (f, s')" by fastforce
  with advance_six have "advance 6 (demo_env a) 1 (demo_created a now) = Some (f, s')" by metis
  from reachable_steps [OF advance_as_tasks [OF this, of "[]" "[]"]] reachable_created r
  show ?thesis by simp
qed

end
