(* ===== verification/Liveness.thy ===== *)
theory Liveness
  imports Scenario
begin

section \<open>No panics, and a payment that its services support succeeds\<close>

text \<open>
  Two facts about one run of the loop. It never dereferences a missing hold or processor
  reference: the only panic left is \<open>uuid.MustParse\<close> on a malformed hold id. And when every
  service answers, and answers yes, a run from any resumable step ends with the payment
  captured, which is what the periodic resume relies on after a crash.
\<close>

subsection \<open>Panics\<close>

definition holds_parse :: "'w env \<Rightarrow> bool" where
  "holds_parse env \<longleftrightarrow>
     (\<forall>req w. case fst (hold_rpc env req w) of Inl _ \<Rightarrow> True | Inr h \<Rightarrow> uuid_parse env h \<noteq> None)"

lemma Hold_answer:
  "fst (Hold env i a m c s) = fst (hold_rpc env \<lparr>hr_request_id = ''hold:'' @ uuid_str env i,
     hr_account_id = uuid_str env a, hr_payment_id = uuid_str env i, hr_minor_units = m,
     hr_currency_code = c\<rparr> (world s))"
  by (simp add: Hold_def ask_def Let_def case_prod_beta)

lemma Hold_parse:
  assumes "holds_parse env" and "Hold env i a m c s = (Inr h, s')"
  shows "uuid_parse env h \<noteq> None"
proof -
  have "case fst (Hold env i a m c s) of Inl _ \<Rightarrow> True | Inr h \<Rightarrow> uuid_parse env h \<noteq> None"
    using assms(1) unfolding Hold_answer holds_parse_def by blast
  with assms(2) show ?thesis by simp
qed

lemma next_if_ok_no_panic [simp]: "fst (next_if_ok es) \<noteq> Panic"
  by (auto simp: next_if_ok_def split: prod.splits option.splits)

lemma drive_no_panic:
  assumes "holds_parse env" and "snap_ok s p"
  shows "fst (drive env p s) \<noteq> Panic"
proof (cases "Step p")
  case Requested
  then show ?thesis
    by (auto simp: drive_def stepFraud_def split: prod.splits)
next
  case FraudScreened
  obtain r s1 where r: "Hold env (ID p) (AccountID p) (Amount p) (Currency p) s = (r, s1)" by fastforce
  with FraudScreened Hold_parse [OF assms(1)] show ?thesis
    by (cases r) (auto simp: drive_def stepHold_def split: option.splits)
next
  case FundsHeld
  then show ?thesis
    by (auto simp: drive_def stepSubmit_def submit_result_def
        split: prod.splits sum.splits outcome.splits)
next
  case SubmittedToGateway
  then show ?thesis
    by (auto simp: drive_def stepPSPCapture_def psp_capture_result_def
        split: prod.splits sum.splits option.splits)
next
  case PspCaptured
  with assms(2) have "HoldID p \<noteq> None"
    by (auto simp: snap_ok_def)
  with PspCaptured show ?thesis
    by (auto simp: drive_def stepLedgerCapture_def split: prod.splits sum.splits option.splits)
qed (auto simp: drive_def)

lemma advance_no_panic:
  assumes inj: "inj (uuid_str env)" and h: "holds_parse env"
  shows "sys_ok env s \<Longrightarrow> advance n env i s = Some (f, s') \<Longrightarrow> f \<noteq> Panic"
proof (induction n arbitrary: s)
  case 0
  then show ?case by simp
next
  case (Suc n)
  obtain r s1 where r: "load env i s = (r, s1)" by fastforce
  show ?case
  proof (cases r)
    case (Inl err)
    with Suc.prems r show ?thesis by auto
  next
    case (Inr p)
    obtain fl s2 where d: "drive env p s1 = (fl, s2)" by fastforce
    have snap: "snap_ok s1 p" and ok1: "sys_ok env s1"
      using load_snap_ok [OF Suc.prems(1), of env i p s1] load_grows [OF Suc.prems(1), of env i] r Inr
      by (auto dest: grows_ok)
    have ok2: "sys_ok env s2"
      using drive_grows [OF ok1 inj snap] d by (auto dest: grows_ok)
    have "fl \<noteq> Panic"
      using drive_no_panic [OF h snap] d by simp
    then show ?thesis
      using Suc.prems(2) r Inr d Suc.IH [OF ok2] by (auto split: if_splits flow.splits)
  qed
qed

subsection \<open>Cooperative services\<close>

definition cooperative :: "'w env \<Rightarrow> bool" where
  "cooperative env \<longleftrightarrow>
     (\<forall>w. fst (db_commit env w) = DbOk \<and> fst (db_read env w))
   \<and> (\<forall>req w. \<exists>resp. fst (score_rpc env req w) = Inr resp \<and> sr_decision resp = DECISION_APPROVE)
   \<and> (\<forall>req w. \<exists>h. fst (hold_rpc env req w) = Inr h \<and> uuid_parse env h \<noteq> None)
   \<and> (\<forall>req w. \<exists>txn. fst (capture_rpc env req w) = Inr txn)
   \<and> (\<forall>url body w. \<exists>code text out. fst (http_authorize env url body w) = HttpReply code text (Some out)
        \<and> code < 400 \<and> \<not> ap_pending out \<and> ap_outcome out = ''approved'')
   \<and> (\<forall>url w. \<exists>code text d. fst (http_post env url w) = HttpReply code text d \<and> code < 400)
   \<and> (\<forall>br w. fst (breaker_admit env br w) = None)"

lemma begin_func_ok:
  assumes "\<And>w. fst (db_commit env w) = DbOk"
  shows "\<exists>s0. db s0 = db s \<and> begin_func env body s =
    (case body s0 of (Some e, s1) \<Rightarrow> (Some e, s1\<lparr>db := db s\<rparr>) | (None, s1) \<Rightarrow> (None, s1))"
proof -
  obtain oc s0 where a: "ask (db_commit env) s = (oc, s0)" by fastforce
  moreover have "oc = DbOk"
    using assms [of "world s"] ask_eqD [OF a] by simp
  ultimately show ?thesis
    using ask_eqD [OF a] by (auto simp: begin_func_def intro!: exI [of _ s0] split: prod.splits option.splits)
qed

lemma guarded_tx_commits:
  assumes "\<And>w. fst (db_commit env w) = DbOk" and "r \<in> set (payments (db s))" and "G r"
  shows "fst (guarded_tx env err G f extra s) = None"
proof -
  define body where "body = (\<lambda>t. case update_payments G (f (clock env (world t))) (db t) of (n, d) \<Rightarrow>
         (if n = 0 then (Some err, t) else (None, extra (t\<lparr>db := d\<rparr>))))"
  obtain s0 where s0: "db s0 = db s" "begin_func env body s =
    (case body s0 of (Some e, s1) \<Rightarrow> (Some e, s1\<lparr>db := db s\<rparr>) | (None, s1) \<Rightarrow> (None, s1))"
    using begin_func_ok [OF assms(1), of s body] by blast
  have "filter G (payments (db s0)) \<noteq> []"
    using assms(2,3) s0(1) by (auto simp: filter_empty_conv)
  then have "fst (body s0) = None"
    by (simp add: body_def case_prod_beta)
  then show ?thesis
    using s0(2) by (auto simp: guarded_tx_def body_def [symmetric] split: prod.splits)
qed

lemma row_of_set: "row_of i s = Some r \<Longrightarrow> r \<in> set (payments (db s)) \<and> pr_id r = i"
  by (auto simp: row_of_def dest: sql_select_one_SomeD)

lemma transition_commits:
  assumes "\<And>w. fst (db_commit env w) = DbOk" and "row_of (ID p) s = Some r" and "pr_step r = Step p"
  shows "fst (next_if_ok (transition env p st sta extra s)) = Continue"
  using guarded_tx_commits [OF assms(1), of r s "\<lambda>r. pr_id r = ID p \<and> pr_step r = Step p"] row_of_set [OF assms(2)]
    assms(3)
  by (auto simp: transition_def next_if_ok_def split: prod.splits option.splits)
    (metis fst_conv option.distinct(1))

lemma transitionWith_commits:
  assumes "\<And>w. fst (db_commit env w) = DbOk" and "row_of (ID p) s = Some r" and "pr_status r = Processing"
  shows "fst (next_if_ok (transitionWith env p st sta code detail risk extra s)) = Continue"
  using guarded_tx_commits [OF assms(1), of r s "\<lambda>r. pr_id r = ID p \<and> pr_status r = Processing"] row_of_set [OF assms(2)]
    assms(3)
  by (auto simp: transitionWith_def next_if_ok_def split: prod.splits option.splits)
    (metis fst_conv option.distinct(1))

text \<open>A call that always answers, with a value of which \<open>Q\<close> holds.\<close>

definition yields :: "('w sys \<Rightarrow> (go_error + 'a) \<times> 'w sys) \<Rightarrow> ('a \<Rightarrow> bool) \<Rightarrow> bool" where
  "yields fn Q \<longleftrightarrow> (\<forall>s. \<exists>a s'. fn s = (Inr a, s') \<and> Q a)"

lemma yields_breaker:
  assumes "cooperative env" and "yields fn Q"
  shows "yields (breaker_execute env br fn) Q"
  unfolding yields_def
proof
  fix s
  obtain r t where t: "ask (breaker_admit env br) s = (r, t)" by fastforce
  have "r = None"
    using assms(1) ask_eqD [OF t] by (metis cooperative_def fst_conv)
  with t assms(2) show "\<exists>a s'. breaker_execute env br fn s = (Inr a, s') \<and> Q a"
    unfolding yields_def breaker_execute_def by (metis (no_types, lifting) case_prod_conv option.simps(4))
qed

lemma yields_map_error: "yields fn Q \<Longrightarrow> yields (\<lambda>s. map_error f (fn s)) Q"
  unfolding yields_def map_error_def by (metis (no_types, lifting) case_prod_conv id_apply map_sum.simps(2))

lemma yields_retry: "yields fn Q \<Longrightarrow> yields (retry env i (Suc n) fn out) Q"
  unfolding yields_def by (metis retry_first_success)

lemma yields_doAuthorize:
  assumes "cooperative env"
  shows "yields (doAuthorize env body) (\<lambda>res. Outcome res = OutcomeApproved)"
  unfolding yields_def
proof
  fix s
  obtain r t where t: "ask (http_authorize env (psp_base env @ ''/authorize'') body) s = (r, t)"
    by fastforce
  obtain code msg out where "r = HttpReply code msg (Some out)" "code < 400"
    "\<not> ap_pending out" "ap_outcome out = ''approved''"
    using assms ask_eqD [OF t] by (metis cooperative_def fst_conv)
  with t show "\<exists>a s'. doAuthorize env body s = (Inr a, s') \<and> Outcome a = OutcomeApproved"
    by (simp add: doAuthorize_def auth_result_of_def)
qed

lemma yields_doPost:
  assumes "cooperative env"
  shows "yields (doPost env url) (\<lambda>_. True)"
  unfolding yields_def
proof
  fix s
  obtain r t where t: "ask (http_post env url) s = (r, t)" by fastforce
  obtain code msg d where "r = HttpReply code msg d" "code < 400"
    using assms ask_eqD [OF t] by (metis cooperative_def fst_conv)
  with t show "\<exists>a s'. doPost env url s = (Inr a, s') \<and> True"
    by (simp add: doPost_def)
qed

lemma yields_wallet:
  assumes "cooperative env"
  shows "yields (walletAuthorize env i a c t) (\<lambda>res. Outcome res = OutcomeApproved)"
  unfolding yields_def
proof
  fix s
  let ?body = "\<lparr>aq_reference = uuid_str env i, aq_amount_minor = a, aq_currency = c,
    aq_method = ''wallet'', aq_token = t\<rparr>"
  obtain res s' where "doAuthorize env ?body s = (Inr res, s')" "Outcome res = OutcomeApproved"
    using yields_doAuthorize [OF assms] unfolding yields_def by blast
  then show "\<exists>r s'. walletAuthorize env i a c t s = (Inr r, s') \<and> Outcome r = OutcomeApproved"
    by (simp add: walletAuthorize_def)
qed

lemma factory_yields:
  assumes "cooperative env" and "m \<in> {''card'', ''wallet''}"
  shows "\<exists>P. factory_for env m = Inr P
    \<and> yields (Authorize P i a c t) (\<lambda>res. Outcome res = OutcomeApproved)
    \<and> yields (PCapture P ref) (\<lambda>_. True)"
  using assms(2) yields_doAuthorize [OF assms(1)] yields_wallet [OF assms(1)] yields_doPost [OF assms(1)]
  by (auto simp: factory_for_def withResilience_def cardProcessor_def walletProcessor_def numeral_3_eq_3
      simp del: retry.simps
      intro!: yields_retry yields_map_error yields_breaker [OF assms(1)])

lemma cooperative_continues:
  assumes co: "cooperative env" and r: "row_of (ID p) s = Some r" and st: "pr_step r = Step p"
    and sta: "pr_status r = Processing" and range: "Step p \<le> PspCaptured"
    and m: "Method p \<in> {''card'', ''wallet''}"
    and ref: "Step p = SubmittedToGateway \<Longrightarrow> PSPReference p \<noteq> None"
    and hold: "Step p = PspCaptured \<Longrightarrow> HoldID p \<noteq> None"
  shows "fst (drive env p s) = Continue"
proof -
  have ok: "fst (db_commit env w) = DbOk" for w
    using co by (simp add: cooperative_def)
  have go: "fst (next_if_ok (transition env p x y extra t)) = Continue"
    if "payments (db t) = payments (db s)" for x y extra t
    using transition_commits [OF ok _ st, of t] r row_of_same [OF that] by simp
  have book: "fst (next_if_ok (transitionWith env p x y c d k extra t)) = Continue"
    if "payments (db t) = payments (db s)" for x y c d k extra t
    using transitionWith_commits [OF ok _ sta, of p t] r row_of_same [OF that] by simp
  consider "Step p = Requested" | "Step p = FraudScreened" | "Step p = FundsHeld"
    | "Step p = SubmittedToGateway" | "Step p = PspCaptured"
    using range by (cases "Step p") (auto simp: less_eq_saga_step_def)
  then show ?thesis
  proof cases
    case 1
    let ?req = "score_request_of env p (clock env (world s))"
    obtain v t where v: "Screen env ?req s = (v, t)" by fastforce
    obtain resp where "fst (score_rpc env ?req (world s)) = Inr resp" "sr_decision resp = DECISION_APPROVE"
      using co unfolding cooperative_def by blast
    then have "Proceed v" "\<not> RequiresActionV v"
      using v by (auto simp: Screen_def ask_def decision_verdict_def verdict_zero_def split: prod.splits)
    moreover have "db t = db s"
      using Screen_frame(1) [of env ?req s] v by simp
    ultimately show ?thesis
      using v by (simp add: drive_def stepFraud_def 1 go)
  next
    case 2
    obtain v t where v: "Hold env (ID p) (AccountID p) (Amount p) (Currency p) s = (v, t)" by fastforce
    obtain h where "v = Inr h" "uuid_parse env h \<noteq> None"
      using co Hold_answer [of env "ID p" "AccountID p" "Amount p" "Currency p" s] v
      unfolding cooperative_def by (metis fst_conv)
    moreover have "db t = db s"
      using Hold_frame(1) [of env "ID p" "AccountID p" "Amount p" "Currency p" s] v by simp
    ultimately show ?thesis
      using v by (auto simp: drive_def stepHold_def 2 go)
  next
    case 3
    obtain P where P: "factory_for env (Method p) = Inr P"
      and y: "yields (Authorize P (ID p) (Amount p) (Currency p) (Token p)) (\<lambda>res. Outcome res = OutcomeApproved)"
      using factory_yields [OF co m] by blast
    obtain res t where t: "Authorize P (ID p) (Amount p) (Currency p) (Token p) s = (Inr res, t)"
      "Outcome res = OutcomeApproved"
      using y unfolding yields_def by blast
    have "db t = db s"
      using payment_processor.authorize_frame [OF factory_port [OF P] t(1)] by simp
    with P t show ?thesis
      by (simp add: drive_def stepSubmit_def submit_result_def 3 go)
  next
    case 4
    then obtain rf where rf: "PSPReference p = Some rf" using ref by auto
    obtain P where P: "factory_for env (Method p) = Inr P" and y: "yields (PCapture P rf) (\<lambda>_. True)"
      using factory_yields [OF co m] by blast
    obtain u t where t: "PCapture P rf s = (Inr u, t)"
      using y unfolding yields_def by blast
    have "db t = db s"
      using payment_processor.capture_frame [OF factory_port [OF P] t] by simp
    with P t rf show ?thesis
      by (simp add: drive_def stepPSPCapture_def psp_capture_result_def 4 go)
  next
    case 5
    then obtain h where h: "HoldID p = Some h" using hold by auto
    obtain v t where v: "Capture env (ID p) h (Amount p) (Currency p) s = (v, t)" by fastforce
    have "fst (Capture env (ID p) h (Amount p) (Currency p) s)
        = fst (capture_rpc env \<lparr>cr_request_id = ''capture:'' @ uuid_str env (ID p),
            cr_hold_id = uuid_str env h, cr_minor_units = Amount p, cr_currency_code = Currency p\<rparr> (world s))"
      by (simp add: Capture_def ask_def Let_def case_prod_beta)
    then obtain txn where "v = Inr txn"
      using co v unfolding cooperative_def by (metis fst_conv)
    moreover obtain fx u where fx: "fxRateUsed env p t = (fx, u)" by fastforce
    moreover have "payments (db u) = payments (db s)"
      using Capture_frame(1) [of env "ID p" h "Amount p" "Currency p" s] v fxRateUsed_frame [OF fx] by simp
    ultimately show ?thesis
      using v h by (simp add: drive_def stepLedgerCapture_def terminalTx_def 5 book)
  qed
qed

text \<open>After an approved submission the row carries the reference of the processor.\<close>

lemma submit_continues_ref:
  assumes run: "drive env p s = (Continue, s')" and r: "row_of (ID p) s = Some r"
    and step: "pr_step r = Step p" and held: "Step p = FundsHeld"
  shows "\<exists>r'. row_of (ID p) s' = Some r' \<and> pr_psp_reference r' \<noteq> None"
proof -
  obtain P where P: "factory_for env (Method p) = Inr P"
    using run held by (auto simp: drive_def stepSubmit_def split: sum.splits)
  obtain v t where v: "Authorize P (ID p) (Amount p) (Currency p) (Token p) s = (v, t)" by fastforce
  have "db t = db s"
    using payment_processor.authorize_frame [OF factory_port [OF P] v] by simp
  then have t: "row_of (ID p) (log_call c t) = Some r" for c
    using r by (simp add: row_of_def)
  show ?thesis
    using run held P v
    by (auto simp: drive_def stepSubmit_def submit_result_def next_if_ok_Continue
        split: if_splits sum.splits outcome.splits
        dest!: transition_row_now [OF _ extra_outbox_set_row t step])
qed

text \<open>No operation of the loop writes the instruments or the handled events, starts a goroutine or
  publishes a record.\<close>

definition kept :: "'w sys \<Rightarrow> instrument_row list \<times> uuid list \<times> uuid list \<times> kafka_record list" where
  "kept s = (instruments (db s), processed_events (db s), spawned s, produced s)"

definition keeps :: "('w sys \<Rightarrow> 'w sys) \<Rightarrow> bool" where
  "keeps f \<longleftrightarrow> (\<forall>t. kept (f t) = kept t)"

lemma keeps_extra [intro!]:
  "keeps id" "keeps (set_row i f)"
  "keeps (outbox_write env topic ty ag body)"
  "keeps (outbox_write env topic ty ag body \<circ> set_row i f)"
  by (simp_all add: keeps_def kept_def)

lemma kept_log_call [simp]: "kept (log_call c s) = kept s"
  by (simp add: kept_def)

lemma quiet_kept: "db s' = db s \<and> bus s' = bus s \<and> spawned s' = spawned s \<and> calls s' = calls s \<and> produced s' = produced s
    \<Longrightarrow> kept s' = kept s"
  by (simp add: kept_def)

lemma guarded_tx_kept:
  assumes "keeps extra"
  shows "kept (snd (guarded_tx env err G f extra s)) = kept s"
proof -
  obtain e s' where g: "guarded_tx env err G f extra s = (e, s')" by fastforce
  then show ?thesis
    by (cases rule: guarded_tx_effect) (use assms g in \<open>auto simp: keeps_def kept_def\<close>)
qed

lemma announce_kept: "kept (announce env p sta st s) = kept s"
  by (simp add: announce_def kept_def)

lemma transition_kept [simp]:
  "keeps extra \<Longrightarrow> kept (snd (transition env p st sta extra s)) = kept s"
  using guarded_tx_kept [of extra env "ConcurrentTransition (ID p)"
      "\<lambda>r. pr_id r = ID p \<and> pr_step r = Step p" "transition_row st sta" s]
  by (auto simp: transition_def announce_kept split: prod.splits option.splits)

lemma transitionWith_kept [simp]:
  "keeps extra \<Longrightarrow> kept (snd (transitionWith env p st sta c d k extra s)) = kept s"
  using guarded_tx_kept [of extra env "NoLongerProcessing (ID p)"
      "\<lambda>r. pr_id r = ID p \<and> pr_status r = Processing" "transition_with_row st sta c d k" s]
  by (auto simp: transitionWith_def announce_kept split: prod.splits option.splits)

lemma touch_kept [simp]: "kept (touch env i s) = kept s"
  using pool_exec_update_effect [of env "\<lambda>_ r. pr_id r = i" "\<lambda>now r. r\<lparr>pr_updated_at := now\<rparr>" s,
      OF prod.collapse [symmetric]]
  by (auto simp: touch_def kept_def)

lemma failAndCompensate_kept [simp]: "kept (failAndCompensate env p c d s) = kept s"
  by (simp add: failAndCompensate_def keeps_extra) (simp add: kept_def)

lemma next_if_ok_kept [simp]: "kept (snd (next_if_ok x)) = kept (snd x)"
  by (cases x) (simp add: next_if_ok_def split: option.split)

lemma load_kept: "load env i s = (r, s') \<Longrightarrow> kept s' = kept s"
  using load_frame [of env i s] by (simp add: kept_def)

lemma fxRateUsed_kept: "fxRateUsed env p s = (fx, s') \<Longrightarrow> kept s' = kept s"
  by (auto simp: fxRateUsed_def kept_def split: option.splits prod.splits if_splits dest!: ask_eqD)

lemma drive_kept: "kept (snd (drive env p s)) = kept s"
proof (cases "Step p")
  case Requested
  let ?req = "score_request_of env p (clock env (world s))"
  obtain v t where v: "Screen env ?req s = (v, t)" by fastforce
  then have "kept t = kept s"
    using Screen_frame [of env ?req s] by (simp add: kept_def)
  with v show ?thesis
    by (simp add: drive_def stepFraud_def Requested keeps_extra)
next
  case FraudScreened
  obtain v t where v: "Hold env (ID p) (AccountID p) (Amount p) (Currency p) s = (v, t)" by fastforce
  then have "kept t = kept s"
    using Hold_frame [of env "ID p" "AccountID p" "Amount p" "Currency p" s] by (simp add: kept_def)
  with v show ?thesis
    by (simp add: drive_def stepHold_def FraudScreened keeps_extra split: sum.splits option.splits)
next
  case FundsHeld
  show ?thesis
  proof (cases "factory_for env (Method p)")
    case (Inr P)
    obtain v t where v: "Authorize P (ID p) (Amount p) (Currency p) (Token p) s = (v, t)" by fastforce
    then have "kept t = kept s"
      using payment_processor.authorize_frame [OF factory_port [OF Inr]] quiet_kept by blast
    with v show ?thesis
      by (simp add: drive_def stepSubmit_def submit_result_def FundsHeld Inr keeps_extra
          split: sum.splits outcome.splits)
  qed (simp add: drive_def stepSubmit_def FundsHeld)
next
  case SubmittedToGateway
  show ?thesis
  proof (cases "factory_for env (Method p)")
    case (Inr P)
    have "kept (snd (PCapture P ref s)) = kept s" for ref
      using payment_processor.capture_frame [OF factory_port [OF Inr] prod.collapse [symmetric]] quiet_kept by metis
    then show ?thesis
      by (simp add: drive_def stepPSPCapture_def psp_capture_result_def SubmittedToGateway Inr keeps_extra
          case_prod_beta split: sum.splits option.splits)
  qed (simp add: drive_def stepPSPCapture_def SubmittedToGateway)
next
  case PspCaptured
  show ?thesis
  proof (cases "HoldID p")
    case (Some h)
    obtain v t where v: "Capture env (ID p) h (Amount p) (Currency p) s = (v, t)" by fastforce
    obtain fx u where fx: "fxRateUsed env p t = (fx, u)" by fastforce
    have "kept t = kept s" "kept u = kept t"
      using Capture_frame [of env "ID p" h "Amount p" "Currency p" s] v fxRateUsed_kept [OF fx]
      by (simp_all add: kept_def)
    with v fx show ?thesis
      by (simp add: drive_def stepLedgerCapture_def terminalTx_def PspCaptured Some keeps_extra split: sum.splits)
  qed (simp add: drive_def stepLedgerCapture_def PspCaptured)
qed (simp_all add: drive_def)

lemma advance_kept: "advance n env i s = Some (f, s') \<Longrightarrow> kept s' = kept s"
proof (induction n arbitrary: s)
  case (Suc n)
  obtain r s1 where r: "load env i s = (r, s1)" by fastforce
  note load = load_kept [OF r]
  show ?case
  proof (cases r)
    case (Inr p)
    obtain fl s2 where d: "drive env p s1 = (fl, s2)" by fastforce
    have "kept s2 = kept s" using drive_kept [of env p s1] d load by simp
    with Suc Inr r d load show ?thesis
      by (cases fl) (auto split: if_splits)
  qed (use Suc.prems r load in auto)
qed simp

lemma Advance_kept: "Advance env i s = (f, s') \<Longrightarrow> kept s' = kept s"
  using advance_six [of env i s] by (auto intro: advance_kept)

lemma CompleteFromGateway_kept:
  assumes "CompleteFromGateway env i approved ref code s = (e, f, s')"
  shows "kept s' = kept s"
proof -
  obtain r s1 where r: "load env i s = (r, s1)" by fastforce
  have "kept s2 = kept s1"
    if "transition env p SubmittedToGateway Processing (set_row (ID p) (\<lambda>r. r\<lparr>pr_psp_reference := Some ref\<rparr>)) s1 = (x, s2)"
    for p x s2
    using transition_kept [OF keeps_extra(2)] that by (metis snd_conv)
  with assms r load_kept [OF r] show ?thesis
    by (auto simp: CompleteFromGateway_def dest: Advance_kept split: sum.splits if_splits option.splits prod.splits)
qed

subsection \<open>A supported payment succeeds\<close>

definition instrument_of :: "'w sys \<Rightarrow> payment_row \<Rightarrow> instrument_row option" where
  "instrument_of s r = sql_select_one (\<lambda>n. in_id n = pr_instrument_id r) (instruments (db s))"

text \<open>The payment can be driven: it is processing, its instrument is known, and it does not
  wait for a wallet.\<close>

definition supported :: "'w sys \<Rightarrow> payment_row \<Rightarrow> bool" where
  "supported s r \<longleftrightarrow> pr_status r = Processing
     \<and> (\<exists>n. instrument_of s r = Some n \<and> in_method n \<in> {''card'', ''wallet''})
     \<and> (pr_step r = SubmittedToGateway \<longrightarrow> pr_psp_reference r \<noteq> None)"

lemma load_supported:
  assumes "cooperative env" and "row_of i s = Some r" and "instrument_of s r = Some n"
  shows "\<exists>s1. load env i s = (Inr (payment_of r n), s1) \<and> db s1 = db s"
proof -
  obtain ok s1 where a: "ask (db_read env) s = (ok, s1)" by fastforce
  have "ok"
    using assms(1) ask_eqD [OF a] by (metis cooperative_def fst_conv)
  with a ask_eqD [OF a] assms(2,3) show ?thesis
    by (simp add: load_def row_of_def instrument_of_def)
qed

lemma ext_row_of:
  assumes "sys_ok env s'" and "ext s s'" and "row_of i s = Some r" and "row_of i s' = Some r'"
  shows "core r' = core r"
proof -
  obtain x where x: "x \<in> set (payments (db s'))" "row_ext r x"
    using assms(2) row_of_set [OF assms(3)] by (auto simp: ext_def)
  then have "pr_id x = i"
    using row_ext_id row_of_set [OF assms(3)] by auto
  then have "x = r'"
    using assms(1) x(1) row_of_set [OF assms(4)] by (auto simp: sys_ok_def distinct_map inj_on_def)
  with x(2) show ?thesis by (simp add: row_ext_def)
qed

lemma advance_succeeds:
  assumes inj: "inj (uuid_str env)" and co: "cooperative env"
  shows "sys_ok env s \<Longrightarrow> row_of i s = Some r \<Longrightarrow> supported s r \<Longrightarrow> advance n env i s = Some (f, s') \<Longrightarrow>
    f = Return \<and> (\<exists>r'. row_of i s' = Some r' \<and> pr_status r' = Succeeded)"
proof (induction n arbitrary: s r)
  case 0
  then show ?case by simp
next
  case (Suc n)
  obtain m where m: "instrument_of s r = Some m" "in_method m \<in> {''card'', ''wallet''}"
    and sta: "pr_status r = Processing"
    using Suc.prems(3) by (auto simp: supported_def)
  let ?p = "payment_of r m"
  obtain s1 where l: "load env i s = (Inr ?p, s1)" "db s1 = db s"
    using load_supported [OF co Suc.prems(2) m(1)] by blast
  have rid: "pr_id r = i"
    using row_of_set [OF Suc.prems(2)] by simp
  have r1: "row_of (ID ?p) s1 = Some r"
    using Suc.prems(2) l(2) rid by (simp add: row_of_def)
  have ok1: "sys_ok env s1" and snap: "snap_ok s1 ?p"
    using load_grows [OF Suc.prems(1), of env i] load_snap_ok [OF Suc.prems(1) l(1)] l(1)
    by (auto dest: grows_ok)
  have rok: "row_ok env (calls s1) r"
    using ok1 row_of_set [OF r1] by (simp add: sys_ok_def)
  obtain fl s2 where d: "drive env ?p s1 = (fl, s2)" by fastforce
  have "pr_step r \<le> PspCaptured"
    using rok sta by (cases "pr_step r") (auto simp: row_ok_def less_eq_saga_step_def)
  moreover have "pr_step r = PspCaptured \<Longrightarrow> pr_hold_id r \<noteq> None"
    using rok by (simp add: row_ok_def)
  ultimately have fl: "fl = Continue"
    using cooperative_continues [OF co r1] sta Suc.prems(3) m(2) d by (auto simp: supported_def)
  obtain r2 where r2: "row_of i s2 = Some r2"
      "step_rank (pr_step r2) = Suc (step_rank (pr_step r))"
      "pr_status r2 = (if pr_step r = PspCaptured then Succeeded else Processing)"
    using drive_continues [of env ?p s1 s2 r] d fl r1 sta rid by auto
  have g2: "grows env s1 s2"
    using drive_grows [OF ok1 inj snap] d by simp
  have rest: "advance n env i s2 = Some (f, s')"
    using Suc.prems(4) l(1) d fl sta by simp
  have core: "core r2 = core r"
    using ext_row_of [OF grows_ok [OF g2]] g2 r1 r2(1) rid by (auto simp: grows_def)
  then have inst: "instrument_of s2 r2 = Some m"
    using m(1) l(2) drive_kept [of env ?p s1] d by (simp add: instrument_of_def core_def kept_def)
  show ?case
  proof (cases "pr_step r = PspCaptured")
    case True
    obtain s3 where "load env i s2 = (Inr (payment_of r2 m), s3)" "db s3 = db s2"
      using load_supported [OF co r2(1) inst] by blast
    with rest True r2 show ?thesis
      by (cases n) (auto simp: row_of_def)
  next
    case False
    have "pr_psp_reference r2 \<noteq> None" if "pr_step r2 = SubmittedToGateway"
    proof -
      have "pr_step r = FundsHeld"
        using r2(2) that by (cases "pr_step r") auto
      then show ?thesis
        using submit_continues_ref [of env ?p s1 s2 r] d fl r1 r2(1) rid by auto
    qed
    then have "supported s2 r2"
      using False r2(3) inst m(2) by (simp add: supported_def)
    from Suc.IH [OF grows_ok [OF g2] r2(1) this rest] show ?thesis .
  qed
qed

end
