(* ===== verification/SagaProperties.thy ===== *)
theory SagaProperties
  imports Liveness
begin

section \<open>Properties of the saga\<close>

text \<open>
  What the engine guarantees: first in every reachable configuration of the interleaved
  model, then for one run of the loop, then for the single operations.
\<close>

lemma reachable_sys_ok: "inj (uuid_str env) \<Longrightarrow> reachable env (ts, s) \<Longrightarrow> sys_ok env s"
  using reachable_ok [of env "(ts, s)"] by (simp add: conf_ok_def)

lemma reachable_row:
  assumes "inj (uuid_str env)" and "reachable env (ts, s)" and "r \<in> set (payments (db s))"
  shows "row_ok env (calls s) r" and "events_ok env (outbox (db s)) r"
  using reachable_sys_ok [OF assms(1,2)] assms(3) by (auto simp: sys_ok_def)

lemma example_rows:
  "payments (db (snd (Advance (demo_env yes) 1 (demo_created yes 0)))) =
     [(demo_row Succeeded Captured)\<lparr>pr_hold_id := Some 7, pr_psp_reference := Some ''ref'',
        pr_risk_score := Some 10, pr_version := 5, pr_updated_at := 2\<rparr>]"
  by code_simp

text \<open>
  C1. A succeeded payment has been collected and booked.\<close>

theorem succeeded_means_collected_and_booked:
  assumes "inj (uuid_str env)" and "reachable env (ts, s)" and "r \<in> set (payments (db s))"
    and "pr_status r = Succeeded"
  shows "pr_step r = Captured
    \<and> (\<exists>ref. CallPspCapture (pr_id r) ref None \<in> set (calls s))
    \<and> (\<exists>req txn. CallLedgerCapture req (Inr txn) \<in> set (calls s)
          \<and> cr_request_id req = ''capture:'' @ uuid_str env (pr_id r))
    \<and> terminal_events env (pr_id r) (outbox (db s)) = [topic_captured]"
  using reachable_row [OF assms(1-3)] assms(4)
  by (auto simp: row_ok_def events_ok_def confirmed_def booked_def)

theorem succeeded_means_collected_and_booked_witness:
  "\<exists>ref. CallPspCapture 1 ref None
     \<in> set (calls (snd (Advance (demo_env yes) 1 (demo_created yes 0))))"
  using succeeded_means_collected_and_booked [OF inj_demo_uuid reachable_advanced, of _ yes 0]
  unfolding example_rows by (simp add: demo_row_def)

text \<open>
  C2. The ledger is asked to capture only after the processor confirmed its capture.\<close>

theorem ledger_capture_follows_confirmed_capture:
  assumes "inj (uuid_str env)" and "reachable env (ts, s)"
    and "calls s = xs @ CallLedgerCapture req res # ys"
  shows "\<exists>i ref. CallPspCapture i ref None \<in> set xs
    \<and> cr_request_id req = ''capture:'' @ uuid_str env i"
  using reachable_sys_ok [OF assms(1,2)] assms(3)
  by (auto simp: sys_ok_def ledger_ordered_def confirmed_def)

definition example_capture :: call where
  "example_capture = CallLedgerCapture \<lparr>cr_request_id = ''capture:u'', cr_hold_id = ''uuuuuuu'',
     cr_minor_units = 1250, cr_currency_code = ''EUR''\<rparr> (Inr ''txn'')"

lemma example_calls:
  "calls (snd (Advance (demo_env yes) 1 (demo_created yes 0))) =
     take 4 (calls (snd (Advance (demo_env yes) 1 (demo_created yes 0)))) @ example_capture # []"
  by code_simp

theorem ledger_capture_follows_confirmed_capture_witness:
  "\<exists>i ref. CallPspCapture i ref None
     \<in> set (take 4 (calls (snd (Advance (demo_env yes) 1 (demo_created yes 0)))))"
  using ledger_capture_follows_confirmed_capture [OF inj_demo_uuid reachable_advanced
      example_calls [unfolded example_capture_def]] by blast

text \<open>
  C3. Every payment has exactly the terminal event its status calls for: one
  \<open>captured\<close> event when it succeeded, one \<open>failed\<close> event when it failed, none before, and
  none for a failed payment whose step-up expired.
\<close>

theorem terminal_event_matches_status:
  assumes "inj (uuid_str env)" and "reachable env (ts, s)" and "r \<in> set (payments (db s))"
  shows "terminal_events env (pr_id r) (outbox (db s)) =
    (case pr_status r of
       Succeeded \<Rightarrow> [topic_captured]
     | Failed \<Rightarrow> (if pr_failure_code r = Some ''step_up_expired'' then [] else [topic_failed])
     | _ \<Rightarrow> [])"
  using reachable_row(2) [OF assms] by (auto simp: events_ok_def split: status.splits)

definition declining :: answers where
  "declining = yes\<lparr>an_authorize := HttpReply 200 []
     (Some (approved_resp\<lparr>ap_outcome := ''declined'', ap_decline_code := ''do_not_honor''\<rparr>))\<rparr>"

lemma example_declined:
  "map (\<lambda>r. (pr_id r, pr_status r, pr_failure_code r))
     (payments (db (snd (Advance (demo_env declining) 1 (demo_created declining 0))))) =
     [(1, Failed, Some ''gateway_declined'')]"
  by code_simp

theorem terminal_event_matches_status_witness:
  "terminal_events (demo_env declining) 1
     (outbox (db (snd (Advance (demo_env declining) 1 (demo_created declining 0))))) = [topic_failed]"
proof -
  obtain r where r: "r \<in> set (payments (db (snd (Advance (demo_env declining) 1 (demo_created declining 0)))))"
    "pr_id r = 1" "pr_status r = Failed" "pr_failure_code r = Some ''gateway_declined''"
    using example_declined by (auto simp: map_eq_Cons_conv)
  from terminal_event_matches_status [OF inj_demo_uuid reachable_advanced r(1)] r(2-4)
  show ?thesis by simp
qed

text \<open>
  C4. Whatever runs next, a payment keeps its identity and money fields, a hold or processor
  reference once recorded stays recorded, and a terminal payment never changes again, but for
  the time of its last update.
\<close>

theorem payments_evolve_monotonically:
  assumes "inj (uuid_str env)" and "reachable env c" and "(conf_step env)\<^sup>*\<^sup>* c c'"
    and "r \<in> set (payments (db (snd c)))"
  shows "\<exists>r' \<in> set (payments (db (snd c'))).
    pr_id r' = pr_id r \<and> pr_user_id r' = pr_user_id r \<and> pr_account_id r' = pr_account_id r
    \<and> pr_merchant_id r' = pr_merchant_id r \<and> pr_amount r' = pr_amount r
    \<and> pr_currency r' = pr_currency r
    \<and> (pr_hold_id r \<noteq> None \<longrightarrow> pr_hold_id r' \<noteq> None)
    \<and> (pr_psp_reference r \<noteq> None \<longrightarrow> pr_psp_reference r' \<noteq> None)
    \<and> (pr_status r \<in> {Succeeded, Failed} \<longrightarrow> r' = r\<lparr>pr_updated_at := pr_updated_at r'\<rparr>)"
proof -
  have "grows env (snd c) (snd c')"
    using steps_grow [OF assms(1,3) reachable_ok [OF assms(1,2)]] by simp
  then obtain r' where "r' \<in> set (payments (db (snd c')))" "row_ext r r'"
    using assms(4) by (auto simp: grows_def ext_def)
  then show ?thesis
    by (intro bexI [of _ r']) (simp_all add: row_ext_def core_def terminal_def)
qed

theorem payments_evolve_monotonically_witness:
  "\<exists>r \<in> set (payments (db (snd (Advance (demo_env yes) 1 (demo_created yes 0))))). pr_amount r = 1250"
proof -
  obtain f s' where a: "Advance (demo_env yes) 1 (demo_created yes 0) = (f, s')" by fastforce
  with advance_six have "advance 6 (demo_env yes) 1 (demo_created yes 0) = Some (f, s')" by metis
  from advance_as_tasks [OF this, of "[]" "[]"]
  have steps: "(conf_step (demo_env yes))\<^sup>*\<^sup>* ([TAdvance 1], demo_created yes 0) ([], s')" by simp
  have "demo_row Processing Requested \<in> set (payments (db (snd ([TAdvance 1], demo_created yes 0))))"
    by (simp add: demo_created_def WriteRequestedEvent_def demo_sys_def)
  from payments_evolve_monotonically [OF inj_demo_uuid reachable_created steps this] a
  show ?thesis by (auto simp: demo_row_def)
qed

subsection \<open>One run of the loop\<close>

text \<open>
  C10. \<open>Advance\<close> returns: six iterations are enough, and more give the same result.\<close>

theorem advance_returns:
  "\<exists>f s'. \<forall>n \<ge> 6. advance n env i s = Some (f, s')"
proof -
  obtain f s' where r: "Advance env i s = (f, s')" by fastforce
  have "advance n env i s = Some (f, s')" if "6 \<le> n" for n
    using that
  proof (induction n rule: dec_induct)
    case base
    with advance_six [of env i s] r show ?case by simp
  qed (rule advance_mono)
  then show ?thesis by blast
qed

theorem advance_returns_witness:
  "\<exists>s'. advance 6 (demo_env yes) 1 (demo_created yes 0) = Some (Return, s')"
proof -
  obtain f s' where "advance 6 (demo_env yes) 1 (demo_created yes 0) = Some (f, s')"
    using advance_returns [of "demo_env yes" 1 "demo_created yes 0"] by auto
  moreover have "map_option fst (advance 6 (demo_env yes) 1 (demo_created yes 0)) = Some Return"
    by code_simp
  ultimately show ?thesis by simp
qed









text \<open>
  C13. With well-formed hold ids a run of \<open>Advance\<close> never panics: every pointer it
  dereferences was set by an earlier step.
\<close>

theorem advance_never_panics:
  assumes "inj (uuid_str env)" and "reachable env (ts, s)"
    and "\<And>req w h. fst (hold_rpc env req w) = Inr h \<Longrightarrow> uuid_parse env h \<noteq> None"
  shows "fst (Advance env i s) \<noteq> Panic"
proof -
  obtain f s' where a: "Advance env i s = (f, s')" by fastforce
  with advance_six have "advance 6 env i s = Some (f, s')" by metis
  moreover have "holds_parse env"
    using assms(3) by (auto simp: holds_parse_def split: sum.splits)
  ultimately show ?thesis
    using advance_no_panic [OF assms(1) _ reachable_sys_ok [OF assms(1,2)]] a by auto
qed

theorem advance_never_panics_witness: "fst (Advance (demo_env yes) 1 (demo_created yes 0)) \<noteq> Panic"
proof (rule advance_never_panics [OF inj_demo_uuid reachable_created])
  show "uuid_parse (demo_env yes) h \<noteq> None" if "fst (hold_rpc (demo_env yes) req w) = Inr h" for req w h
    using that by (simp add: demo_env_def yes_def)
qed

text \<open>
  Resumption: when every service answers, and answers yes, one run of \<open>Advance\<close> takes a
  processing payment from whatever step it was left at to success.
\<close>

lemma advance_completes_supported_payment:
  assumes "inj (uuid_str env)" and "reachable env (ts, s)" and "cooperative env"
    and "row_of i s = Some r" and "supported s r"
  shows "fst (Advance env i s) = Return
    \<and> (\<exists>r'. row_of i (snd (Advance env i s)) = Some r'
         \<and> pr_status r' = Succeeded \<and> pr_step r' = Captured)"
proof -
  obtain f s' where a: "Advance env i s = (f, s')" by fastforce
  with advance_six have adv: "advance 6 env i s = Some (f, s')" by metis
  note ok = reachable_sys_ok [OF assms(1,2)]
  obtain r' where r': "f = Return" "row_of i s' = Some r'" "pr_status r' = Succeeded"
    using advance_succeeds [OF assms(1,3) ok assms(4,5) adv] by blast
  moreover have "sys_ok env s'"
    using advance_grows [OF assms(1) ok adv] by (rule grows_ok)
  ultimately have "pr_step r' = Captured"
    using row_of_set [of i s' r'] by (auto simp: sys_ok_def row_ok_def)
  with r' a show ?thesis by simp
qed

lemma cooperative_demo: "cooperative (demo_env yes)"
  by (simp add: cooperative_def demo_env_def yes_def approved_resp_def)

definition halfway :: "int conf" where
  "halfway = fold (apply_move (demo_env yes)) (replicate 6 (Run 0)) ([TAdvance 1], demo_created yes 0)"

lemma reachable_halfway: "reachable (demo_env yes) halfway"
  unfolding halfway_def by (rule reachable_moves) (rule reachable_created)

lemma halfway_row:
  "row_of 1 (snd halfway) = Some ((demo_row Processing SubmittedToGateway)\<lparr>pr_hold_id := Some 7,
     pr_psp_reference := Some ''ref'', pr_risk_score := Some 10, pr_version := 3,
     pr_updated_at := 1\<rparr>)"
  by code_simp

lemma halfway_instruments: "instruments (db (snd halfway)) = [demo_instrument]"
  by code_simp

lemma advance_completes_supported_payment_witness:
  "\<exists>r'. row_of 1 (snd (Advance (demo_env yes) 1 (snd halfway))) = Some r' \<and> pr_status r' = Succeeded"
proof -
  have "supported (snd halfway) ((demo_row Processing SubmittedToGateway)\<lparr>pr_hold_id := Some 7,
     pr_psp_reference := Some ''ref'', pr_risk_score := Some 10, pr_version := 3,
     pr_updated_at := 1\<rparr>)"
    by (simp add: supported_def instrument_of_def halfway_instruments demo_row_def
        demo_instrument_def sql_select_one_def)
  with advance_completes_supported_payment [OF inj_demo_uuid _ cooperative_demo halfway_row]
    reachable_halfway show ?thesis
    by (metis prod.collapse)
qed

end
