(* ===== verification/SagaOperations.thy ===== *)
theory SagaOperations
  imports SagaProperties
begin

section \<open>Properties of the operations\<close>

text \<open>
  Compensation, processor outages, the retry policy, fraud outages, resumption after
  step-up, and what modelling the sweepers showed: the wallet sweep cannot run, retries
  postpone the submission timeout, and a sweep can fail a payment that was collected.
\<close>

subsection \<open>Compensation\<close>

lemma release_hold_calls:
  "case HoldID p of
     None \<Rightarrow> calls (release_hold env p s) = calls s
   | Some h \<Rightarrow> (\<exists>req r. calls (release_hold env p s) = calls s @ [CallRelease req r]
        \<and> rr_request_id req = ''release:'' @ uuid_str env (ID p)
        \<and> rr_hold_id req = uuid_str env h)"
  using Release_calls [of env "ID p" _ "''compensation''" s]
  by (auto simp: release_hold_def split: option.splits) blast

lemma failAndCompensate_effect:
  "(case HoldID p of
      None \<Rightarrow> calls (failAndCompensate env p code detail s) = calls s
    | Some h \<Rightarrow> (\<exists>req r. calls (failAndCompensate env p code detail s) = calls s @ [CallRelease req r]
         \<and> rr_request_id req = ''release:'' @ uuid_str env (ID p)
         \<and> rr_hold_id req = uuid_str env h))
   \<and> (db (failAndCompensate env p code detail s) = db s
     \<or> (\<exists>r \<in> set (payments (db s)). pr_id r = ID p \<and> pr_status r = Processing)
       \<and> (\<exists>now. payments (db (failAndCompensate env p code detail s)) =
            map (\<lambda>r. if pr_id r = ID p \<and> pr_status r = Processing
                     then transition_with_row Done Failed code detail None now r else r)
              (payments (db s)))
       \<and> (\<exists>b. outbox (db (failAndCompensate env p code detail s)) = outbox (db s) @ [b]
            \<and> ob_type b = topic_failed \<and> ob_aggregateid b = uuid_str env (ID p)
            \<and> ob_payload b = failed_payload env p code detail))"
proof -
  let ?s1 = "release_hold env p s"
  let ?ev = "outbox_write env topic_failed ''payment'' (uuid_str env (ID p)) (failed_payload env p code detail)"
  obtain e t where t: "guarded_tx env (NoLongerProcessing (ID p))
      (\<lambda>r. pr_id r = ID p \<and> pr_status r = Processing)
      (transition_with_row Done Failed code detail None) ?ev ?s1 = (e, t)"
    by fastforce
  have fc: "db (failAndCompensate env p code detail s) = db t"
      "calls (failAndCompensate env p code detail s) = calls t"
    using t by (auto simp: failAndCompensate_def transitionWith_def split: option.splits)
  show ?thesis
    using t
  proof (cases rule: guarded_tx_effect)
    case none
    with release_hold_calls [where p = p and env = env and s = s] show ?thesis
      unfolding fc by (auto split: option.splits)
  next
    case (commit u r)
    define v where "v = u\<lparr>db := (db ?s1)\<lparr>payments := map (\<lambda>r. if pr_id r = ID p \<and> pr_status r = Processing
        then transition_with_row Done Failed code detail None (clock env (world u)) r else r)
          (payments (db ?s1))\<rparr>\<rparr>"
    have v: "t = ?ev v" "outbox (db v) = outbox (db s)"
      using commit(7) by (simp_all add: v_def)
    have "\<exists>b. outbox (db t) = outbox (db s) @ [b]
            \<and> ob_type b = topic_failed \<and> ob_aggregateid b = uuid_str env (ID p)
            \<and> ob_payload b = failed_payload env p code detail"
      using outbox_write_outbox [of env topic_failed "''payment''" "uuid_str env (ID p)"
          "failed_payload env p code detail" v] unfolding v by auto
    moreover have "calls t = calls ?s1"
      using commit(4,7) by simp
    ultimately show ?thesis
      using release_hold_calls [where p = p and env = env and s = s] commit(1,5-7)
      unfolding fc by (auto split: option.splits)
  qed
qed

text \<open>
  Compensation releases the hold exactly once, under the payment's own request id, and
  then either changes nothing or fails the payment and writes its one failed event, together.
\<close>

lemma compensation_is_atomic:
  "(case HoldID p of
      None \<Rightarrow> calls (failAndCompensate env p code detail s) = calls s
    | Some h \<Rightarrow> (\<exists>req r. calls (failAndCompensate env p code detail s) = calls s @ [CallRelease req r]
         \<and> rr_request_id req = ''release:'' @ uuid_str env (ID p)
         \<and> rr_hold_id req = uuid_str env h))
   \<and> (db (failAndCompensate env p code detail s) = db s
     \<or> (\<exists>r \<in> set (payments (db s)). pr_id r = ID p \<and> pr_status r = Processing)
       \<and> (\<exists>now. payments (db (failAndCompensate env p code detail s)) =
            map (\<lambda>r. if pr_id r = ID p \<and> pr_status r = Processing
                     then transition_with_row Done Failed code detail None now r else r)
              (payments (db s)))
       \<and> (\<exists>b. outbox (db (failAndCompensate env p code detail s)) = outbox (db s) @ [b]
            \<and> ob_type b = topic_failed \<and> ob_aggregateid b = uuid_str env (ID p)
            \<and> ob_payload b = failed_payload env p code detail))"
  by (rule failAndCompensate_effect)

subsection \<open>An unreachable processor\<close>

lemma touch_calls_outbox: "calls (touch env i s) = calls s" "outbox (db (touch env i s)) = outbox (db s)"
  by (simp_all add: touch_rows)

text \<open>
  C15. A processor that is unreachable or out of time never declines a payment: the step
  stops, writes no event, makes no further call, and changes nothing but the time of the last
  update.
\<close>

theorem outage_never_declines:
  assumes "factory_for env (Method p) = Inr P"
    and "Authorize P (ID p) (Amount p) (Currency p) (Token p) s = (Inl e, s1)"
    and "is_unavailable e \<or> is_deadline e"
  shows "fst (stepSubmit env p s) = Return
    \<and> calls (snd (stepSubmit env p s)) = calls s @ [CallAuthorize (ID p) (Inl e)]
    \<and> outbox (db (snd (stepSubmit env p s))) = outbox (db s)
    \<and> map (\<lambda>r. r\<lparr>pr_updated_at := 0\<rparr>) (payments (db (snd (stepSubmit env p s))))
        = map (\<lambda>r. r\<lparr>pr_updated_at := 0\<rparr>) (payments (db s))"
proof -
  let ?t = "log_call (CallAuthorize (ID p) (Inl e)) s1"
  have s1: "db s1 = db s" "calls s1 = calls s"
    using payment_processor.authorize_frame [OF factory_port [OF assms(1)] assms(2)] by auto
  have "stepSubmit env p s = (Return, touch env (ID p) ?t)"
    using assms by (auto simp: stepSubmit_def submit_result_def retryable_def)
  moreover obtain now where "payments (db (touch env (ID p) ?t)) = payments (db ?t) \<or>
     payments (db (touch env (ID p) ?t)) =
       map (\<lambda>r. if pr_id r = ID p then r\<lparr>pr_updated_at := now\<rparr> else r) (payments (db ?t))"
    using touch_rows(1) by blast
  ultimately show ?thesis
    using s1 by (auto simp: touch_calls_outbox)
qed

definition unreachable :: answers where
  "unreachable = yes\<lparr>an_authorize := TransportError ''no route to host''\<rparr>"

definition held_payment :: payment where
  "held_payment = (payment_of (demo_row Processing FundsHeld) demo_instrument)\<lparr>HoldID := Some 7\<rparr>"

definition held_sys :: "int \<Rightarrow> int sys" where
  "held_sys now = demo_sys [(demo_row Processing FundsHeld)\<lparr>pr_hold_id := Some 7\<rparr>] now"

lemma unreachable_authorize:
  "fst (Authorize (withResilience (demo_env unreachable) (cardProcessor (demo_env unreachable)))
     1 1250 ''EUR'' ''tok'' (held_sys 0)) = Inl (Unavailable ''no route to host'')"
  by code_simp

theorem outage_never_declines_witness:
  "fst (stepSubmit (demo_env unreachable) held_payment (held_sys 0)) = Return
     \<and> outbox (db (snd (stepSubmit (demo_env unreachable) held_payment (held_sys 0)))) = []"
proof -
  have f: "factory_for (demo_env unreachable) (Method held_payment) =
      Inr (withResilience (demo_env unreachable) (cardProcessor (demo_env unreachable)))"
    by (simp add: factory_for_def held_payment_def demo_instrument_def)
  obtain s1 where a: "Authorize (withResilience (demo_env unreachable) (cardProcessor (demo_env unreachable)))
      (ID held_payment) (Amount held_payment) (Currency held_payment) (Token held_payment) (held_sys 0)
      = (Inl (Unavailable ''no route to host''), s1)"
    using unreachable_authorize
    by (auto simp: held_payment_def demo_row_def demo_instrument_def payment_of_def prod_eq_iff)
  show ?thesis
    using outage_never_declines [OF f a] by (simp add: held_sys_def demo_sys_def)
qed

subsection \<open>Rejections and retries\<close>

text \<open>What the processor, or the construction of the request, definitively refused.\<close>

definition rejected :: "'w env \<Rightarrow> go_error \<Rightarrow> bool" where
  "rejected env e \<longleftrightarrow>
     (\<exists>url body w code msg d. fst (http_authorize env url body w) = HttpReply code msg d
        \<and> 400 \<le> code \<and> code < 500
        \<and> e = PlainError (''processor rejected request: HTTP '' @ show_int code @ '' '' @ take 256 msg))
   \<or> (\<exists>url body w m. fst (http_authorize env url body w) = BadRequestURL m \<and> e = PlainError m)"

lemma doAuthorize_InlD:
  assumes "doAuthorize env body s = (Inl e, s')"
  shows "is_unavailable e \<or> rejected env e"
proof -
  obtain r t where t: "ask (http_authorize env (psp_base env @ ''/authorize'') body) s = (r, t)"
    by fastforce
  have r: "fst (http_authorize env (psp_base env @ ''/authorize'') body (world s)) = r"
    using ask_eqD [OF t] by simp
  show ?thesis
  proof (cases r)
    case (BadRequestURL m)
    with r assms t show ?thesis
      by (auto simp: doAuthorize_def rejected_def)
  next
    case (TransportError m)
    with assms t show ?thesis
      by (auto simp: doAuthorize_def)
  next
    case (HttpReply code msg d)
    show ?thesis
    proof (cases "400 \<le> code \<and> code < 500")
      case True
      then have "e = PlainError (''processor rejected request: HTTP '' @ show_int code @ '' '' @ take 256 msg)"
        using HttpReply assms t by (auto simp: doAuthorize_def)
      with True r HttpReply show ?thesis
        unfolding rejected_def by blast
    next
      case False
      with HttpReply assms t show ?thesis
        by (auto simp: doAuthorize_def split: if_splits option.splits)
    qed
  qed
qed

lemma walletAuthorize_InlD:
  "walletAuthorize env i a c t s = (Inl e, s') \<Longrightarrow> is_unavailable e \<or> rejected env e"
  by (auto simp: walletAuthorize_def dest: doAuthorize_InlD split: prod.splits sum.splits)

lemma resilient_errors:
  assumes "retry env i n (\<lambda>s. map_error asUnavailable (breaker_execute env br fn s)) (Inr z) s = (Inl e, s')"
    and "\<And>s e s'. fn s = (Inl e, s') \<Longrightarrow> is_unavailable e \<or> rejected env e"
  shows "is_unavailable e \<or> is_deadline e \<or> e = ContextCanceled \<or> rejected env e"
  by (rule retry_error [OF assms(1)])
    (auto dest!: map_error_InlD breaker_execute_InlD assms(2) simp: asUnavailable_def)

text \<open>
  C16. The only errors of an authorization that may decline a payment are a definite answer
  of the processor (a 4xx status), a request that cannot be built, and the end of the
  caller's context; everything else, breaker refusals included, is an outage.
\<close>

theorem decline_needs_definite_answer:
  assumes "factory_for env m = Inr P" and "Authorize P i a c t s = (Inl e, s')"
    and "\<not> is_unavailable e" and "\<not> is_deadline e"
  shows "e = ContextCanceled
    \<or> (\<exists>url body w code msg d. fst (http_authorize env url body w) = HttpReply code msg d
        \<and> 400 \<le> code \<and> code < 500
        \<and> e = PlainError (''processor rejected request: HTTP '' @ show_int code @ '' '' @ take 256 msg))
    \<or> (\<exists>url body w msg. fst (http_authorize env url body w) = BadRequestURL msg \<and> e = PlainError msg)"
proof -
  have "is_unavailable e \<or> is_deadline e \<or> e = ContextCanceled \<or> rejected env e"
    using assms(1,2)
    by (auto simp: factory_for_def withResilience_def cardProcessor_def walletProcessor_def
        simp del: retry.simps split: if_splits
        dest!: resilient_errors dest: doAuthorize_InlD walletAuthorize_InlD)
  with assms(3,4) show ?thesis
    unfolding rejected_def by blast
qed

definition rejecting :: answers where
  "rejecting = yes\<lparr>an_authorize := HttpReply 422 ''bad token'' None\<rparr>"

lemma rejecting_authorize:
  "fst (Authorize (withResilience (demo_env rejecting) (cardProcessor (demo_env rejecting)))
     1 1250 ''EUR'' ''tok'' (held_sys 0))
   = Inl (PlainError ''processor rejected request: HTTP 422 bad token'')"
  by code_simp

theorem decline_needs_definite_answer_witness:
  "\<exists>url body w code msg d. fst (http_authorize (demo_env rejecting) url body w) = HttpReply code msg d
     \<and> 400 \<le> code \<and> code < 500"
proof -
  have f: "factory_for (demo_env rejecting) ''card'' =
      Inr (withResilience (demo_env rejecting) (cardProcessor (demo_env rejecting)))"
    by (simp add: factory_for_def)
  obtain s1 where a: "Authorize (withResilience (demo_env rejecting) (cardProcessor (demo_env rejecting)))
      1 1250 ''EUR'' ''tok'' (held_sys 0)
      = (Inl (PlainError ''processor rejected request: HTTP 422 bad token''), s1)"
    using rejecting_authorize by (auto simp: prod_eq_iff)
  have "fst (http_authorize (demo_env rejecting) url body w) \<noteq> BadRequestURL msg" for url body w msg
    by (simp add: demo_env_def rejecting_def yes_def)
  with decline_needs_definite_answer [OF f a] show ?thesis by auto blast
qed

text \<open>
  \<open>retry\<close> runs its call at least once and at most \<open>n\<close> times, whatever it answers: a call
  that leaves a mark in the history leaves between one and \<open>n\<close> of them.
\<close>

lemma retry_attempts_bounded:
  assumes "quiet fn"
  shows "\<exists>k. 1 \<le> k \<and> k \<le> Suc n
    \<and> calls (snd (retry env i (Suc n) (\<lambda>s. case fn s of (r, s') \<Rightarrow> (r, log_call mark s')) out s))
        = calls s @ replicate k mark"
proof (induction n arbitrary: i out s)
  case 0
  let ?fn = "\<lambda>s. case fn s of (r, s') \<Rightarrow> (r, log_call mark s')"
  obtain r s1 where r: "fn s = (r, s1)" by fastforce
  obtain j s2 where j: "ask (rand_intn env 150) (log_call mark s1) = (j, s2)" by fastforce
  obtain w s3 where w: "ask (wait_backoff env (backoff i j)) s2 = (w, s3)" by fastforce
  have "calls (log_call mark s1) = calls s @ replicate 1 mark" "calls s3 = calls s @ replicate 1 mark"
    using quietD [OF assms r] ask_eqD [OF j] ask_eqD [OF w] by simp_all
  then have "calls (snd (retry env i (Suc 0) ?fn out s)) = calls s @ replicate 1 mark"
    using r j w by (subst retry.simps) (cases r; cases w; simp)
  then show ?case by (intro exI [of _ 1]) simp
next
  case (Suc n)
  let ?fn = "\<lambda>s. case fn s of (r, s') \<Rightarrow> (r, log_call mark s')"
  obtain r s1 where r: "fn s = (r, s1)" by fastforce
  have c1: "calls (log_call mark s1) = calls s @ replicate 1 mark"
    using quietD [OF assms r] by simp
  show ?case
  proof (cases "\<exists>e. r = Inl e \<and> is_unavailable e")
    case False
    then have "calls (snd (retry env i (Suc (Suc n)) ?fn out s)) = calls s @ replicate 1 mark"
      using r c1 by (subst retry.simps) (auto split: sum.splits)
    then show ?thesis
      by (intro exI [of _ 1]) simp
  next
    case True
    then obtain e where e: "r = Inl e" "is_unavailable e" by blast
    obtain j s2 where j: "ask (rand_intn env 150) (log_call mark s1) = (j, s2)" by fastforce
    obtain w s3 where w: "ask (wait_backoff env (backoff i j)) s2 = (w, s3)" by fastforce
    have c3: "calls s3 = calls s @ replicate 1 mark"
      using ask_eqD [OF j] ask_eqD [OF w] c1 by simp
    have step: "retry env i (Suc (Suc n)) ?fn out s =
        (case w of Some c \<Rightarrow> (Inl (ctx_err c), s3) | None \<Rightarrow> retry env (Suc i) (Suc n) ?fn (Inl e) s3)"
      using r e j w by (subst retry.simps) simp
    show ?thesis
    proof (cases w)
      case None
      obtain k where k: "1 \<le> k" "k \<le> Suc n"
        "calls (snd (retry env (Suc i) (Suc n) ?fn (Inl e) s3)) = calls s3 @ replicate k mark"
        using Suc.IH by blast
      with step None c3 show ?thesis
        by (intro exI [of _ "Suc k"]) simp
    next
      case (Some c)
      with step c3 show ?thesis
        by (intro exI [of _ 1]) simp
    qed
  qed
qed

lemma retry_attempts_bounded_witness:
  "\<exists>k \<le> 3. calls (snd (retry (demo_env unreachable) 0 3
      (\<lambda>s. case doPost (demo_env unreachable) ''psp'' s of (r, s') \<Rightarrow> (r, log_call example_capture s'))
      (Inr ()) (held_sys 0))) = replicate k example_capture"
  using retry_attempts_bounded [OF quiet_doPost [of "demo_env unreachable" "''psp''"], of 2 "demo_env unreachable" 0
      example_capture "Inr ()" "held_sys 0"]
  by (auto simp: numeral_3_eq_3 numeral_2_eq_2 held_sys_def demo_sys_def simp del: retry.simps)

subsection \<open>Fraud screening\<close>




subsection \<open>Resuming after step-up\<close>

text \<open>
  C18. \<open>ResumeAfterStepUp\<close> succeeds only for the payment's owner and only while the payment is
  parked; then, and only then, one driver is started, and the payment is processing again at
  \<open>fraud_screened\<close>. \<open>ErrNotResumable\<close> changes nothing.
\<close>

theorem step_up_resumes_only_the_owners_parked_payment:
  assumes "inj (uuid_str env)" and "reachable env (ts, s)"
    and "ResumeAfterStepUp env i user s = (e, s')"
  shows "(e = None \<longrightarrow> spawned s' = spawned s @ [i]
      \<and> (\<exists>r r'. row_of i s = Some r \<and> pr_user_id r = user \<and> pr_status r = RequiresAction
           \<and> row_of i s' = Some r' \<and> pr_status r' = Processing \<and> pr_step r' = FraudScreened))
    \<and> (e \<noteq> None \<longrightarrow> spawned s' = spawned s)
    \<and> (e = Some NotResumable \<longrightarrow> db s' = db s)"
proof -
  obtain l s1 where l: "load env i s = (l, s1)" by fastforce
  have s1: "db s1 = db s" "spawned s1 = spawned s"
    using load_frame(1,3) [of env i s] l by simp_all
  have nr: "l \<noteq> Inl NotResumable"
    using l by (auto simp: load_def ask_def split: prod.splits if_splits option.splits)
  show ?thesis
  proof (cases "\<exists>p. l = Inr p \<and> UserID p = user \<and> Status p = RequiresAction")
    case False
    with assms(3) l s1 nr show ?thesis
      by (auto simp: ResumeAfterStepUp_def split: sum.splits)
  next
    case True
    then obtain p where p: "l = Inr p" "UserID p = user" "Status p = RequiresAction" by blast
    obtain r n where r: "row_of i s = Some r" "p = payment_of r n" "pr_id r = i"
      using load_InrD [of env i s p s1] l p(1) by (auto simp: row_of_def)
    have "row_ok env (calls s) r"
      using reachable_row(1) [OF assms(1,2)] row_of_set [OF r(1)] by blast
    then have st: "pr_step r = FraudScreened"
      using p(3) r(2) by (simp add: row_ok_def)
    obtain e2 s2 where t: "transition env p FraudScreened Processing id s1 = (e2, s2)" by fastforce
    have sp: "spawned s2 = spawned s1"
      using t by (auto simp: transition_def split: prod.splits option.splits elim!: guarded_tx_effect)
    have nr2: "e2 \<noteq> Some NotResumable"
      using t by (auto simp: transition_def guarded_tx_def begin_func_def
          split: prod.splits option.splits if_splits)
    show ?thesis
    proof (cases e2)
      case None
      have "\<exists>r'. row_of (ID p) s2 = Some r' \<and> lstate r' = (Processing, FraudScreened)"
        using transition_row_of [OF t [unfolded None] extra_id, of r] r s1(1) st
        by (simp add: row_of_def)
      then obtain r' where r': "row_of i s2 = Some r'" "pr_status r' = Processing" "pr_step r' = FraudScreened"
        using r by (auto simp: lstate_def)
      have "e = None" "s' = s2\<lparr>spawned := spawned s2 @ [i]\<rparr>"
        using assms(3) l p t None r by (auto simp: ResumeAfterStepUp_def)
      then show ?thesis
        using sp s1 r r' p by (auto simp: row_of_def)
    next
      case (Some x)
      with assms(3) l p t sp s1 nr2 show ?thesis
        by (auto simp: ResumeAfterStepUp_def)
    qed
  qed
qed

definition parking :: answers where
  "parking = yes\<lparr>an_score := Inr \<lparr>sr_decision = DECISION_STEP_UP, sr_risk_score = 60\<rparr>\<rparr>"

definition parked_sys :: "int sys" where
  "parked_sys = snd (Advance (demo_env parking) 1 (demo_created parking 0))"

lemma parked_resume: "fst (ResumeAfterStepUp (demo_env parking) 1 2 parked_sys) = None"
  by code_simp

theorem step_up_resumes_only_the_owners_parked_payment_witness:
  "spawned (snd (ResumeAfterStepUp (demo_env parking) 1 2 parked_sys)) = spawned parked_sys @ [1]"
  using step_up_resumes_only_the_owners_parked_payment
    [OF inj_demo_uuid reachable_advanced [of parking 0, folded parked_sys_def] prod.collapse [symmetric], of 1 2]
    parked_resume by simp

subsection \<open>What the sweepers do and do not do\<close>

text \<open>
  C19. The wallet sweep never expires a payment: its query compares a column the payments
  table does not have, so the scan always fails.
\<close>

theorem wallet_sweep_never_expires:
  "db (ExpireStaleWallets env d s) = db s \<and> calls (ExpireStaleWallets env d s) = calls s"
proof -
  have "\<not> list_all (\<lambda>c. List.member payments_columns c) wallet_columns"
    by (simp add: wallet_columns_def payments_columns_def)
  moreover obtain ok s1 where a: "ask (db_read env) s = (ok, s1)" by fastforce
  ultimately have "ExpireStaleWallets env d s = s1"
    by (simp add: ExpireStaleWallets_def sweep_def scan_ids_def query_payments_def)
  with ask_eqD [OF a] show ?thesis by simp
qed

lemma row_of_map_other:
  "(\<And>r. pr_id r = i \<Longrightarrow> h r = r) \<Longrightarrow> (\<And>r. pr_id (h r) = pr_id r) \<Longrightarrow>
     find (\<lambda>r. pr_id r = i) (map h rows) = find (\<lambda>r. pr_id r = i) rows"
  by (induction rows) auto

lemma failAndCompensate_other:
  assumes "i \<noteq> ID p"
  shows "row_of i (failAndCompensate env p code detail s) = row_of i s"
proof -
  from failAndCompensate_effect [where env = env and p = p and code = code and detail = detail and s = s]
  consider "db (failAndCompensate env p code detail s) = db s"
    | now where "payments (db (failAndCompensate env p code detail s)) =
            map (\<lambda>r. if pr_id r = ID p \<and> pr_status r = Processing
                     then transition_with_row Done Failed code detail None now r else r)
              (payments (db s))"
    by blast
  then show ?thesis
  proof cases
    case 1
    then show ?thesis by (simp add: row_of_def)
  next
    case 2
    show ?thesis
      unfolding row_of_def sql_select_one_def 2
      by (rule row_of_map_other) (use assms in \<open>auto simp: transition_with_row_def\<close>)
  qed
qed

lemma compensate_all_other:
  "i \<notin> set ids \<Longrightarrow> row_of i (compensate_all env code detail ids s) = row_of i s"
proof (induction ids arbitrary: s)
  case (Cons j ids)
  obtain l s1 where l: "load env j s = (l, s1)" by fastforce
  have "row_of i s1 = row_of i s"
    using load_frame(1) [of env j s] l by (simp add: row_of_def)
  moreover have "row_of i (failAndCompensate env p code detail s1) = row_of i s1" if "l = Inr p" for p
    using that l load_ID [of env j s p s1] Cons.prems by (intro failAndCompensate_other) auto
  ultimately show ?case
    using Cons l by (auto split: sum.splits)
qed simp

lemma sweep_other:
  assumes "\<And>r. r \<in> set (payments (db s)) \<Longrightarrow> pr_id r = i \<Longrightarrow> \<not> Q (clock env (snd (db_read env (world s)))) r"
  shows "row_of i (sweep env cols Q code detail s) = row_of i s"
proof -
  obtain ok s1 where a: "ask (db_read env) s = (ok, s1)" by fastforce
  have s1: "db s1 = db s" "world s1 = snd (db_read env (world s))"
    using ask_eqD [OF a] by simp_all
  have "i \<notin> set (map pr_id (take scan_limit (filter (Q (clock env (world s1))) (payments (db s1)))))"
    using assms s1 by (auto dest!: in_set_takeD)
  then show ?thesis
    using a s1(1) compensate_all_other [of i _ env code detail s1]
    by (auto simp: sweep_def scan_ids_def query_payments_def row_of_def simp del: set_map split: sum.splits)
qed

text \<open>
  C20. A retry that finds the processor unreachable restarts the submission timeout: the
  sweep leaves the payment alone until the timeout has passed since that retry, not since
  the payment began to wait.
\<close>

theorem failed_retry_restarts_submission_timeout:
  assumes "reachable env (ts, s)" and "inj (uuid_str env)" and "row_of (ID p) s = Some r"
    and "factory_for env (Method p) = Inr P"
    and "Authorize P (ID p) (Amount p) (Currency p) (Token p) s = (Inl e, s1)"
    and "is_unavailable e \<or> is_deadline e"
    and "db_commit env (world s1) = (DbOk, w1)"
    and "clock env (snd (db_read env w)) \<le> clock env w1 + timeout"
  shows "row_of (ID p) (ExpireStuckSubmissions env timeout ((snd (stepSubmit env p s))\<lparr>world := w\<rparr>))
    = Some (r\<lparr>pr_updated_at := clock env w1\<rparr>)"
proof -
  let ?t = "log_call (CallAuthorize (ID p) (Inl e)) s1"
  let ?h = "\<lambda>r. if pr_id r = ID p then r\<lparr>pr_updated_at := clock env w1\<rparr> else r"
  have s1: "db s1 = db s"
    using payment_processor.authorize_frame [OF factory_port [OF assms(4)] assms(5)] by auto
  have "snd (stepSubmit env p s) = touch env (ID p) ?t"
    using assms(4-6) by (auto simp: stepSubmit_def submit_result_def retryable_def)
  moreover have "payments (db (touch env (ID p) ?t)) = map ?h (payments (db s))"
    using assms(7) s1 by (simp add: touch_def pool_exec_def ask_def update_payments_def sql_update_def)
  ultimately have rows: "payments (db ((snd (stepSubmit env p s))\<lparr>world := w\<rparr>)) = map ?h (payments (db s))"
    by simp
  have "find (\<lambda>r. pr_id r = ID p) (map ?h (payments (db s))) = Some (?h r)"
    using assms(3) find_map_key [of pr_id ?h "ID p" "payments (db s)"]
    by (simp add: row_of_def sql_select_one_def)
  then have row: "row_of (ID p) ((snd (stepSubmit env p s))\<lparr>world := w\<rparr>) = Some (?h r)"
    unfolding row_of_def sql_select_one_def rows .
  have "row_of (ID p) (ExpireStuckSubmissions env timeout ((snd (stepSubmit env p s))\<lparr>world := w\<rparr>))
      = row_of (ID p) ((snd (stepSubmit env p s))\<lparr>world := w\<rparr>)"
    unfolding ExpireStuckSubmissions_def
    by (rule sweep_other, unfold rows) (use assms(8) in \<open>auto simp: stuck_submission_def stale_def\<close>)
  with row row_of_set [OF assms(3)] show ?thesis by simp
qed

lemma demo_time: "clock (demo_env a) w = w" "snd (db_read (demo_env a) w) = w"
  by (simp_all add: demo_env_def)

definition waiting_sys :: "int sys" where
  "waiting_sys = snd (Advance (demo_env unreachable) 1 (demo_created unreachable 0))"

definition waiting_row :: payment_row where
  "waiting_row = (demo_row Processing FundsHeld)\<lparr>pr_hold_id := Some 7, pr_risk_score := Some 10,
     pr_version := 2, pr_updated_at := 1400000001\<rparr>"

lemma waiting_sys_row: "row_of 1 waiting_sys = Some waiting_row"
  by code_simp

lemma waiting_authorize:
  "fst (Authorize (withResilience (demo_env unreachable) (cardProcessor (demo_env unreachable)))
     1 1250 ''EUR'' ''tok'' waiting_sys) = Inl (Unavailable ''no route to host'')"
  by code_simp

theorem failed_retry_restarts_submission_timeout_witness:
  "\<exists>w r. row_of 1 (ExpireStuckSubmissions (demo_env unreachable) (seconds 300)
      ((snd (stepSubmit (demo_env unreachable) (payment_of waiting_row demo_instrument) waiting_sys))
        \<lparr>world := w + seconds 299\<rparr>)) = Some r \<and> pr_status r = Processing"
proof -
  let ?p = "payment_of waiting_row demo_instrument"
  have p: "ID ?p = 1" "Amount ?p = 1250" "Currency ?p = ''EUR''" "Token ?p = ''tok''" "Method ?p = ''card''"
    by (simp_all add: waiting_row_def demo_row_def demo_instrument_def payment_of_def)
  have f: "factory_for (demo_env unreachable) (Method ?p) =
      Inr (withResilience (demo_env unreachable) (cardProcessor (demo_env unreachable)))"
    unfolding p by (simp add: factory_for_def)
  obtain s1 where a: "Authorize (withResilience (demo_env unreachable) (cardProcessor (demo_env unreachable)))
      (ID ?p) (Amount ?p) (Currency ?p) (Token ?p) waiting_sys
      = (Inl (Unavailable ''no route to host''), s1)"
    using waiting_authorize unfolding p by (auto simp: prod_eq_iff)
  have c: "db_commit (demo_env unreachable) (world s1) = (DbOk, world s1)"
    by (simp add: demo_env_def unreachable_def yes_def)
  have "row_of (ID ?p) waiting_sys = Some waiting_row"
    unfolding p by (rule waiting_sys_row)
  then have "row_of (ID ?p) (ExpireStuckSubmissions (demo_env unreachable) (seconds 300)
      ((snd (stepSubmit (demo_env unreachable) ?p waiting_sys))\<lparr>world := world s1 + seconds 299\<rparr>))
    = Some (waiting_row\<lparr>pr_updated_at := clock (demo_env unreachable) (world s1)\<rparr>)"
    by (rule failed_retry_restarts_submission_timeout
        [OF reachable_advanced [of unreachable 0, folded waiting_sys_def] inj_demo_uuid _ f a _ c])
      (simp_all add: demo_time seconds_def)
  moreover have "pr_status (waiting_row\<lparr>pr_updated_at := x\<rparr>) = Processing" for x
    by (simp add: waiting_row_def demo_row_def)
  ultimately show ?thesis
    unfolding p(1) by blast
qed







subsection \<open>Status updates to subscribers\<close>

text \<open>
  Every update a subscriber finds in its buffer was published for its payment, in that
  order, and nothing is lost while no more than the capacity are waiting.
\<close>

lemma subscriber_receives_in_order:
  assumes "buffer pid ch b = Some []"
  shows "\<exists>zs. buffer pid ch (fold publish us b) = Some zs
    \<and> subseq zs (filter (\<lambda>u. u_payment_id u = pid) us)
    \<and> (length (filter (\<lambda>u. u_payment_id u = pid) us) \<le> chan_cap
        \<longrightarrow> zs = filter (\<lambda>u. u_payment_id u = pid) us)"
  using updates.publishes_keep_order [OF assms, of us] updates.publishes_fit [OF assms, of us] by auto

lemma subscriber_receives_in_order_witness:
  "buffer ''p'' 0 (publish \<lparr>u_payment_id = ''p'', u_status = Failed, u_step = Done\<rparr> (snd (subscribe ''p'' bus_new)))
     = Some [\<lparr>u_payment_id = ''p'', u_status = Failed, u_step = Done\<rparr>]"
proof -
  have "buffer ''p'' 0 (snd (subscribe ''p'' bus_new)) = Some []"
    by (simp add: buffer_def subscribe_def bus_new_def chans_of_def)
  from subscriber_receives_in_order [OF this, of "[\<lparr>u_payment_id = ''p'', u_status = Failed, u_step = Done\<rparr>]"]
  show ?thesis by (simp add: chan_cap_def)
qed

text \<open>
  Every operation of the bus keeps its table well formed.\<close>

lemma bus_operations_keep_shape:
  assumes "bus_ok b"
  shows "bus_ok (snd (subscribe pid b)) \<and> bus_ok (unsubscribe pid ch b) \<and> bus_ok (publish u b)
    \<and> bus_ok (snd (recv pid ch b))"
  using assms by (simp add: bus_ok_subscribe bus_ok_unsubscribe bus_ok_publish bus_ok_recv)

lemma bus_operations_keep_shape_witness: "bus_ok (snd (subscribe ''p'' bus_new))"
  using bus_operations_keep_shape [OF bus_ok_new] by blast

end
