(* ===== verification/GoText.thy ===== *)
theory GoText
  imports Prelude "HOL-Library.Sublist"
begin

section \<open>The string functions of the Go library the code uses\<close>

text \<open>
  Strings are byte strings, as in Go. \<open>strings.Split\<close> and \<open>Join\<close> on a comma,
  \<open>strings.TrimSpace\<close> (Unicode white space, by its UTF-8 encodings), \<open>strconv.ParseInt\<close> in
  base ten at 64 bits, and \<open>strconv.FormatInt\<close>, which is \<open>show_int\<close>. The lemmas: splitting a
  joined list gives the list back, trimming leaves a string without outer white space alone,
  and parsing a formatted integer gives it back.
\<close>

subsection \<open>Split and join\<close>

fun split_on :: "char \<Rightarrow> string \<Rightarrow> string list" where
  "split_on c [] = [[]]"
| "split_on c (x # xs) =
     (if x = c then [] # split_on c xs
      else (case split_on c xs of [] \<Rightarrow> [[x]] | w # ws \<Rightarrow> (x # w) # ws))"

fun join_with :: "string \<Rightarrow> string list \<Rightarrow> string" where
  "join_with sep [] = []"
| "join_with sep [w] = w"
| "join_with sep (w # v # ws) = w @ sep @ join_with sep (v # ws)"

lemma split_on_not_empty [simp]: "split_on c xs \<noteq> []"
  by (induction xs) (auto split: list.splits)

lemma split_on_no_sep: "c \<notin> set w \<Longrightarrow> split_on c w = [w]"
  by (induction w) auto

lemma split_on_append_sep:
  "c \<notin> set w \<Longrightarrow> split_on c (w @ c # xs) = w # split_on c xs"
  by (induction w) auto

lemma split_on_append:
  "split_on c (xs @ c # ys) = split_on c xs @ split_on c ys"
  by (induction xs) (auto split: list.splits)

lemma split_join:
  "ws \<noteq> [] \<Longrightarrow> \<forall>w \<in> set ws. c \<notin> set w \<Longrightarrow> split_on c (join_with [c] ws) = ws"
  by (induction "[c]" ws rule: join_with.induct) (simp_all add: split_on_no_sep split_on_append_sep)

lemma split_join_concat:
  "ws \<noteq> [] \<Longrightarrow> split_on c (join_with [c] ws) = concat (map (split_on c) ws)"
  by (induction "[c]" ws rule: join_with.induct) (simp_all add: split_on_append)

lemma split_on_parts: "w \<in> set (split_on c xs) \<Longrightarrow> c \<notin> set w"
proof (induction xs arbitrary: w)
  case (Cons x xs)
  then show ?case
    by (cases "split_on c xs") (auto split: if_splits)
qed simp

subsection \<open>White space\<close>

definition white_space :: "string list" where
  "white_space = map (map char_of)
     ([[9], [10], [11], [12], [13], [32], [0xC2, 0x85], [0xC2, 0xA0], [0xE1, 0x9A, 0x80]]
      @ map (\<lambda>n. [0xE2, 0x80, n]) [0x80 ..< 0x8B]
      @ [[0xE2, 0x80, 0xA8], [0xE2, 0x80, 0xA9], [0xE2, 0x80, 0xAF], [0xE2, 0x81, 0x9F],
         [0xE3, 0x80, 0x80 :: nat]])"

definition leading :: "string list \<Rightarrow> string \<Rightarrow> string option" where
  "leading ws xs = find (\<lambda>w. take (length w) xs = w) ws"

text \<open>Every round drops at least one byte, so the length of the string bounds the rounds.\<close>

fun strip :: "nat \<Rightarrow> string list \<Rightarrow> string \<Rightarrow> string" where
  "strip 0 ws xs = xs"
| "strip (Suc n) ws xs =
     (case leading ws xs of None \<Rightarrow> xs | Some w \<Rightarrow> strip n ws (drop (length w) xs))"

definition trim_left :: "string \<Rightarrow> string" where
  "trim_left xs = strip (length xs) white_space xs"

definition trim_right :: "string \<Rightarrow> string" where
  "trim_right xs = rev (strip (length xs) (map rev white_space) (rev xs))"

definition TrimSpace :: "string \<Rightarrow> string" where
  "TrimSpace xs = trim_right (trim_left xs)"

text \<open>A string that neither begins nor ends with white space.\<close>

definition trimmed :: "string \<Rightarrow> bool" where
  "trimmed xs \<longleftrightarrow> leading white_space xs = None \<and> leading (map rev white_space) (rev xs) = None"

lemma strip_none: "leading ws xs = None \<Longrightarrow> strip n ws xs = xs"
  by (cases n) simp_all

lemma TrimSpace_trimmed: "trimmed xs \<Longrightarrow> TrimSpace xs = xs"
  by (simp add: TrimSpace_def trim_left_def trim_right_def trimmed_def strip_none)

lemma white_space_not_empty: "w \<in> set white_space \<Longrightarrow> w \<noteq> []"
  by (auto simp: white_space_def)

text \<open>A string whose first and last bytes begin and end no white space needs no trimming.\<close>

lemma leading_hd:
  assumes "xs \<noteq> []" and "hd xs \<notin> hd ` set ws" and "[] \<notin> set ws"
  shows "leading ws xs = None"
proof -
  have "take (length w) xs \<noteq> w" if "w \<in> set ws" for w
    using assms that by (cases w; cases xs) force+
  then show ?thesis
    by (auto simp: leading_def find_None_iff)
qed

lemma white_space_bytes:
  "w \<in> set white_space \<Longrightarrow> of_char (hd w) \<notin> {33 ..< 128 :: nat} \<and> of_char (last w) \<notin> {33 ..< 128 :: nat}"
  by (auto simp: white_space_def)

lemma trimmed_outer:
  assumes "xs \<noteq> []" and "of_char (hd xs) \<in> {33 ..< 128 :: nat}" and "of_char (last xs) \<in> {33 ..< 128 :: nat}"
  shows "trimmed xs"
proof -
  have "hd xs \<notin> hd ` set white_space" "last xs \<notin> last ` set white_space"
    by (metis assms(2) imageE white_space_bytes) (metis assms(3) imageE white_space_bytes)
  then have "hd (rev xs) \<notin> hd ` set (map rev white_space)"
    by (auto simp: hd_rev image_iff)
  with \<open>hd xs \<notin> hd ` set white_space\<close> show ?thesis
    using assms(1) white_space_not_empty unfolding trimmed_def
    by (intro conjI leading_hd) auto
qed

lemma leading_drops:
  assumes "leading ws xs = Some w" and "[] \<notin> set ws"
  shows "length (drop (length w) xs) < length xs"
proof -
  have "w \<in> set ws" "take (length w) xs = w"
    using assms(1) by (auto simp: leading_def find_Some_iff)
  then have "w \<noteq> []" "xs \<noteq> []"
    using assms(2) by auto
  then show ?thesis by (cases w) auto
qed

lemma strip_enough: "length xs \<le> n \<Longrightarrow> [] \<notin> set ws \<Longrightarrow> leading ws (strip n ws xs) = None"
proof (induction n arbitrary: xs)
  case 0
  then show ?case by (auto simp: leading_def find_None_iff)
next
  case (Suc n)
  show ?case
  proof (cases "leading ws xs")
    case (Some w)
    have "length (drop (length w) xs) \<le> n"
      using leading_drops [OF Some Suc.prems(2)] Suc.prems(1) by linarith
    with Suc.IH Suc.prems(2) Some show ?thesis by simp
  qed simp
qed

lemma trim_left_done: "leading white_space (trim_left xs) = None"
  unfolding trim_left_def by (rule strip_enough) (auto dest: white_space_not_empty)

lemma trim_right_done: "leading (map rev white_space) (rev (trim_right xs)) = None"
  unfolding trim_right_def rev_rev_ident by (rule strip_enough) (auto dest: white_space_not_empty)

subsection \<open>Integers\<close>

definition digit_val :: "char \<Rightarrow> nat option" where
  "digit_val c = (let n = of_char c in if 48 \<le> n \<and> n \<le> (57 :: nat) then Some (n - 48) else None)"

fun parse_digits :: "nat \<Rightarrow> string \<Rightarrow> nat option" where
  "parse_digits acc [] = Some acc"
| "parse_digits acc (c # cs) =
     (case digit_val c of None \<Rightarrow> None | Some d \<Rightarrow> parse_digits (10 * acc + d) cs)"

definition parse_nat :: "string \<Rightarrow> nat option" where
  "parse_nat cs = (if cs = [] then None else parse_digits 0 cs)"

text \<open>The result without its error, \<open>None\<close> when there is one (syntax or range).\<close>

definition ParseInt :: "string \<Rightarrow> int option" where
  "ParseInt cs =
     (let (neg, ds) = (case cs of
            [] \<Rightarrow> (False, [])
          | c # r \<Rightarrow> if c = CHR ''-'' then (True, r) else if c = CHR ''+'' then (False, r) else (False, cs))
      in case parse_nat ds of
           None \<Rightarrow> None
         | Some n \<Rightarrow>
             (let i = (if neg then - int n else int n)
              in if - (2 ^ 63) \<le> i \<and> i < 2 ^ 63 then Some i else None))"

lemma digit_val_digit_char [simp]: "d < 10 \<Longrightarrow> digit_val (digit_char d) = Some d"
  by (simp add: digit_val_def digit_char_def Let_def)

lemma parse_digits_append:
  "parse_digits a (xs @ ys) = (case parse_digits a xs of None \<Rightarrow> None | Some b \<Rightarrow> parse_digits b ys)"
  by (induction a xs rule: parse_digits.induct) (auto split: option.splits)

lemma parse_digits_show_nat: "parse_digits 0 (show_nat n) = Some n"
proof (induction n rule: show_nat.induct)
  case (1 n)
  show ?case
  proof (cases "n < 10")
    case True
    then show ?thesis by (subst show_nat.simps) simp
  next
    case False
    with 1 show ?thesis by (subst show_nat.simps) (simp add: parse_digits_append)
  qed
qed

lemma show_nat_digits: "c \<in> set (show_nat n) \<Longrightarrow> digit_val c \<noteq> None"
proof (induction n arbitrary: c rule: show_nat.induct)
  case (1 n)
  show ?case
  proof (cases "n < 10")
    case True
    with 1 show ?thesis by (subst (asm) show_nat.simps) simp
  next
    case False
    with 1 show ?thesis by (subst (asm) show_nat.simps) auto
  qed
qed

lemma ParseInt_show_int:
  assumes "- (2 ^ 63) \<le> i" and "i < 2 ^ 63"
  shows "ParseInt (show_int i) = Some i"
proof -
  have sign: "hd (show_nat n) \<noteq> CHR ''-''" "hd (show_nat n) \<noteq> CHR ''+''" for n
    using show_nat_digits [of "hd (show_nat n)" n] by (auto simp: digit_val_def)
  have nat: "ParseInt (show_nat n) = Some (int n)" if "int n < 2 ^ 63" for n
    using sign [of n] parse_digits_show_nat [of n] that
    by (cases "show_nat n") (auto simp: ParseInt_def parse_nat_def Let_def)
  show ?thesis
  proof (cases "i < 0")
    case True
    with assms show ?thesis
      using parse_digits_show_nat [of "nat (- i)"]
      by (simp add: show_int_def ParseInt_def parse_nat_def Let_def)
  next
    case False
    with nat [of "nat i"] assms show ?thesis by (simp add: show_int_def)
  qed
qed

end
