(* ===== verification/Json.thy ===== *)
theory Json
  imports GoText
begin

section \<open>JSON as \<open>encoding/json\<close> reads and writes it\<close>

text \<open>
  The part of Go's \<open>encoding/json\<close> the service uses, in the layers the package has. The scanner
  checks the grammar and finds the extent of each literal: \<open>jvalue\<close> is its result, with numbers
  and strings still as they are written. Decoding a literal comes after (\<open>unquote\<close>: escapes,
  surrogate pairs, the replacement of invalid UTF-8). Printing is compact and escapes what
  \<open>Marshal\<close> escapes, the HTML characters included. The scanner carries a bound on its recursion;
  twice the length of the text is enough (\<open>parse_val_fuel\<close>).
\<close>

datatype jvalue =
    JvNull
  | JvBool bool
  | JvNum string
  | JvStr string
  | JvArr "jvalue list"
  | JvObj "(string \<times> jvalue) list"

subsection \<open>Bytes and runes\<close>

definition byte :: "char \<Rightarrow> nat" where
  "byte c = of_char c"

definition chr :: "nat \<Rightarrow> char" where
  "chr n = char_of n"

lemma byte_chr [simp]: "n < 256 \<Longrightarrow> byte (chr n) = n"
  by (simp add: byte_def chr_def)

lemma chr_byte [simp]: "chr (byte c) = c"
  by (simp add: byte_def chr_def)

lemma byte_less [simp]: "byte c < 256"
  by (simp add: byte_def)

lemma byte_inj: "byte a = byte b \<Longrightarrow> a = b"
  by (metis chr_byte)

definition continuation :: "nat \<Rightarrow> bool" where
  "continuation b \<longleftrightarrow> 0x80 \<le> b \<and> b < 0xC0"

text \<open>
  The length of the well-formed UTF-8 sequence a string begins with, by its bytes, or 0: the
  table of \<open>utf8.DecodeRune\<close>.
\<close>

definition rune_len3 :: "nat \<Rightarrow> nat \<Rightarrow> bool" where
  "rune_len3 b0 b1 \<longleftrightarrow> 0xE0 \<le> b0 \<and> b0 < 0xF0 \<and> continuation b1
     \<and> (b0 = 0xE0 \<longrightarrow> 0xA0 \<le> b1) \<and> (b0 = 0xED \<longrightarrow> b1 < 0xA0)"

definition rune_len4 :: "nat \<Rightarrow> nat \<Rightarrow> bool" where
  "rune_len4 b0 b1 \<longleftrightarrow> 0xF0 \<le> b0 \<and> b0 < 0xF5 \<and> continuation b1
     \<and> (b0 = 0xF0 \<longrightarrow> 0x90 \<le> b1) \<and> (b0 = 0xF4 \<longrightarrow> b1 < 0x90)"

fun rune_bytes :: "nat list \<Rightarrow> nat" where
  "rune_bytes [] = 0"
| "rune_bytes [b0] = (if b0 < 0x80 then 1 else 0)"
| "rune_bytes [b0, b1] =
     (if b0 < 0x80 then 1 else if 0xC2 \<le> b0 \<and> b0 < 0xE0 \<and> continuation b1 then 2 else 0)"
| "rune_bytes [b0, b1, b2] =
     (if b0 < 0x80 then 1 else if 0xC2 \<le> b0 \<and> b0 < 0xE0 \<and> continuation b1 then 2
      else if rune_len3 b0 b1 \<and> continuation b2 then 3 else 0)"
| "rune_bytes (b0 # b1 # b2 # b3 # _) =
     (if b0 < 0x80 then 1 else if 0xC2 \<le> b0 \<and> b0 < 0xE0 \<and> continuation b1 then 2
      else if rune_len3 b0 b1 \<and> continuation b2 then 3
      else if rune_len4 b0 b1 \<and> continuation b2 \<and> continuation b3 then 4 else 0)"

definition rune_len :: "string \<Rightarrow> nat" where
  "rune_len xs = rune_bytes (map byte (take 4 xs))"

definition encode_rune :: "nat \<Rightarrow> string" where
  "encode_rune r =
     (if r < 0x80 then [chr r]
      else if r < 0x800 then [chr (0xC0 + r div 0x40), chr (0x80 + r mod 0x40)]
      else if r < 0x10000 then
        [chr (0xE0 + r div 0x1000), chr (0x80 + r div 0x40 mod 0x40), chr (0x80 + r mod 0x40)]
      else [chr (0xF0 + r div 0x40000), chr (0x80 + r div 0x1000 mod 0x40),
            chr (0x80 + r div 0x40 mod 0x40), chr (0x80 + r mod 0x40)])"

definition replacement :: string where
  "replacement = encode_rune 0xFFFD"

subsection \<open>Reading\<close>

definition is_ws :: "char \<Rightarrow> bool" where
  "is_ws c \<longleftrightarrow> byte c \<in> {32, 9, 10, 13}"

definition skip_ws :: "string \<Rightarrow> string" where
  "skip_ws xs = dropWhile is_ws xs"

definition hex_val :: "char \<Rightarrow> nat option" where
  "hex_val c =
     (let b = byte c in
      if 48 \<le> b \<and> b \<le> 57 then Some (b - 48)
      else if 97 \<le> b \<and> b \<le> 102 then Some (b - 87)
      else if 65 \<le> b \<and> b \<le> 70 then Some (b - 55) else None)"

definition hex4 :: "string \<Rightarrow> nat option" where
  "hex4 xs =
     (case map hex_val (take 4 xs) of
        [Some a, Some b, Some c, Some d] \<Rightarrow> Some (((a * 16 + b) * 16 + c) * 16 + d)
      | _ \<Rightarrow> None)"

text \<open>The second half of a surrogate pair, if the text goes on with one.\<close>

definition low_surrogate :: "string \<Rightarrow> nat option" where
  "low_surrogate xs =
     (if take 2 xs = [CHR 0x5C, CHR ''u''] then
        (case hex4 (drop 2 xs) of
           Some u \<Rightarrow> (if 0xDC00 \<le> u \<and> u < 0xE000 then Some u else None)
         | None \<Rightarrow> None)
      else None)"

definition simple_escape :: "char \<Rightarrow> char option" where
  "simple_escape e =
     map_of [(CHR 0x22, CHR 0x22), (CHR 0x5C, CHR 0x5C), (CHR ''/'', CHR ''/''), (CHR ''b'', CHR 0x08),
       (CHR ''f'', CHR 0x0C), (CHR ''n'', CHR 0x0A), (CHR ''r'', CHR 0x0D), (CHR ''t'', CHR 0x09)] e"

definition prepend :: "string \<Rightarrow> (string \<times> string) option \<Rightarrow> (string \<times> string) option" where
  "prepend w r = map_option (\<lambda>(s, rest). (w @ s, rest)) r"

text \<open>The text of a string literal after its opening quote, and what follows its closing quote.\<close>

fun scan_str :: "string \<Rightarrow> (string \<times> string) option" where
  "scan_str [] = None"
| "scan_str (c # r) =
     (if c = CHR 0x22 then Some ([], r)
      else if byte c < 32 then None
      else if c = CHR 0x5C then
        (case r of
           [] \<Rightarrow> None
         | e # r2 \<Rightarrow>
             (if simple_escape e \<noteq> None then prepend [c, e] (scan_str r2)
              else if e = CHR ''u'' \<and> hex4 r2 \<noteq> None then
                prepend (c # e # take 4 r2) (scan_str (drop 4 r2))
              else None))
      else prepend [c] (scan_str r))"

text \<open>What a literal stands for.\<close>

fun unquote :: "string \<Rightarrow> string" where
  "unquote [] = []"
| "unquote (c # r) =
     (if c = CHR 0x5C then
        (case r of
           [] \<Rightarrow> []
         | e # r2 \<Rightarrow>
             (case simple_escape e of
                Some x \<Rightarrow> x # unquote r2
              | None \<Rightarrow>
                  (case hex4 r2 of
                     None \<Rightarrow> []
                   | Some u \<Rightarrow>
                       (if 0xD800 \<le> u \<and> u < 0xE000 then
                          (case (if u < 0xDC00 then low_surrogate (drop 4 r2) else None) of
                             Some l \<Rightarrow>
                               encode_rune (0x10000 + (u - 0xD800) * 0x400 + (l - 0xDC00))
                                 @ unquote (drop 10 r2)
                           | None \<Rightarrow> replacement @ unquote (drop 4 r2))
                        else encode_rune u @ unquote (drop 4 r2)))))
      else
        (let k = rune_len (c # r) in
         if k = 0 then replacement @ unquote r
         else take k (c # r) @ unquote (drop (k - 1) r)))"

definition is_digit :: "char \<Rightarrow> bool" where
  "is_digit c \<longleftrightarrow> 48 \<le> byte c \<and> byte c \<le> 57"

text \<open>A number literal: sign, integer part, fraction, exponent; what is left of the text.\<close>

definition num_int :: "string \<Rightarrow> (string \<times> string) option" where
  "num_int xs =
     (case xs of
        [] \<Rightarrow> None
      | c # r \<Rightarrow> (if c = CHR ''0'' then Some ([c], r)
                 else if is_digit c then Some (takeWhile is_digit xs, dropWhile is_digit xs) else None))"

definition num_frac :: "string \<Rightarrow> (string \<times> string) option" where
  "num_frac xs =
     (case xs of
        c # d # r \<Rightarrow> (if c = CHR ''.'' then
            (if is_digit d then Some (c # takeWhile is_digit (d # r), dropWhile is_digit (d # r)) else None)
          else Some ([], xs))
      | [c] \<Rightarrow> (if c = CHR ''.'' then None else Some ([], xs))
      | [] \<Rightarrow> Some ([], xs))"

definition num_exp :: "string \<Rightarrow> (string \<times> string) option" where
  "num_exp xs =
     (case xs of
        [] \<Rightarrow> Some ([], xs)
      | c # r \<Rightarrow>
          (if c = CHR ''e'' \<or> c = CHR ''E'' then
             (let (sg, ds) = (case r of
                     s # r2 \<Rightarrow> (if s = CHR ''+'' \<or> s = CHR ''-'' then ([s], r2) else ([], r))
                   | [] \<Rightarrow> ([], r))
              in if takeWhile is_digit ds = [] then None
                 else Some (c # sg @ takeWhile is_digit ds, dropWhile is_digit ds))
           else Some ([], xs)))"

definition parse_num :: "string \<Rightarrow> (string \<times> string) option" where
  "parse_num xs =
     (let (sg, r) = (case xs of c # r \<Rightarrow> (if c = CHR ''-'' then ([c], r) else ([], xs)) | [] \<Rightarrow> ([], xs))
      in case num_int r of
           None \<Rightarrow> None
         | Some (i, r1) \<Rightarrow>
             (case num_frac r1 of
                None \<Rightarrow> None
              | Some (f, r2) \<Rightarrow>
                  (case num_exp r2 of
                     None \<Rightarrow> None
                   | Some (e, r3) \<Rightarrow> Some (sg @ i @ f @ e, r3))))"

definition literal :: "string \<Rightarrow> jvalue \<Rightarrow> string \<Rightarrow> (jvalue \<times> string) option" where
  "literal w v xs = (if take (length w) xs = w then Some (v, drop (length w) xs) else None)"

definition scalar :: "string \<Rightarrow> (jvalue \<times> string) option" where
  "scalar xs =
     (case xs of
        [] \<Rightarrow> None
      | c # r \<Rightarrow>
          (if c = CHR 0x22 then map_option (\<lambda>(s, rest). (JvStr s, rest)) (scan_str r)
           else if c = CHR ''t'' then literal ''true'' (JvBool True) xs
           else if c = CHR ''f'' then literal ''false'' (JvBool False) xs
           else if c = CHR ''n'' then literal ''null'' JvNull xs
           else map_option (\<lambda>(t, rest). (JvNum t, rest)) (parse_num xs)))"

text \<open>Values, the elements of an array and the members of an object; \<open>d\<close> levels are left.\<close>

fun parse_val :: "nat \<Rightarrow> nat \<Rightarrow> string \<Rightarrow> (jvalue \<times> string) option"
  and parse_elems :: "nat \<Rightarrow> nat \<Rightarrow> string \<Rightarrow> (jvalue list \<times> string) option"
  and parse_members :: "nat \<Rightarrow> nat \<Rightarrow> string \<Rightarrow> ((string \<times> jvalue) list \<times> string) option"
where
  "parse_val 0 d xs = None"
| "parse_val (Suc n) d xs =
     (case skip_ws xs of
        [] \<Rightarrow> None
      | c # r \<Rightarrow>
          (if c = CHR ''['' then
             (if d = 0 then None
              else (case skip_ws r of
                      [] \<Rightarrow> None
                    | c2 # r2 \<Rightarrow> (if c2 = CHR '']'' then Some (JvArr [], r2)
                                 else map_option (\<lambda>(vs, rest). (JvArr vs, rest)) (parse_elems n (d - 1) r))))
           else if c = CHR ''{'' then
             (if d = 0 then None
              else (case skip_ws r of
                      [] \<Rightarrow> None
                    | c2 # r2 \<Rightarrow> (if c2 = CHR ''}'' then Some (JvObj [], r2)
                                 else map_option (\<lambda>(ms, rest). (JvObj ms, rest)) (parse_members n (d - 1) r))))
           else scalar (c # r)))"
| "parse_elems 0 d xs = None"
| "parse_elems (Suc n) d xs =
     (case parse_val n d xs of
        None \<Rightarrow> None
      | Some (v, r) \<Rightarrow>
          (case skip_ws r of
             [] \<Rightarrow> None
           | c # r2 \<Rightarrow> (if c = CHR '']'' then Some ([v], r2)
                       else if c = CHR '','' then
                         map_option (\<lambda>(vs, rest). (v # vs, rest)) (parse_elems n d r2)
                       else None)))"
| "parse_members 0 d xs = None"
| "parse_members (Suc n) d xs =
     (case skip_ws xs of
        [] \<Rightarrow> None
      | q # r \<Rightarrow>
          (if q \<noteq> CHR 0x22 then None
           else
             (case scan_str r of
                None \<Rightarrow> None
              | Some (k, r1) \<Rightarrow>
                  (case skip_ws r1 of
                     [] \<Rightarrow> None
                   | c # r2 \<Rightarrow>
                       (if c \<noteq> CHR '':'' then None
                        else
                          (case parse_val n d r2 of
                             None \<Rightarrow> None
                           | Some (v, r3) \<Rightarrow>
                               (case skip_ws r3 of
                                  [] \<Rightarrow> None
                                | c2 # r4 \<Rightarrow>
                                    (if c2 = CHR ''}'' then Some ([(k, v)], r4)
                                     else if c2 = CHR '','' then
                                       map_option (\<lambda>(ms, rest). ((k, v) # ms, rest)) (parse_members n d r4)
                                     else None))))))))"

definition maxNestingDepth :: nat where
  "maxNestingDepth = 10000"

definition fuel_for :: "string \<Rightarrow> nat" where
  "fuel_for xs = 2 * length xs + 1"

text \<open>\<open>Decoder.Decode\<close> reads one value, \<open>Unmarshal\<close> wants nothing but white space after it.\<close>

definition Decode :: "string \<Rightarrow> jvalue option" where
  "Decode xs = map_option fst (parse_val (fuel_for xs) maxNestingDepth xs)"

definition Unmarshal :: "string \<Rightarrow> jvalue option" where
  "Unmarshal xs =
     (case parse_val (fuel_for xs) maxNestingDepth xs of
        None \<Rightarrow> None
      | Some (v, rest) \<Rightarrow> (if skip_ws rest = [] then Some v else None))"

subsection \<open>The scanner consumes text\<close>

lemma skip_ws_length: "length (skip_ws xs) \<le> length xs"
  by (simp add: skip_ws_def length_dropWhile_le)

lemma scan_str_shorter: "scan_str xs = Some (s, r) \<Longrightarrow> length r < length xs"
  by (induction xs arbitrary: s r rule: scan_str.induct)
    (auto simp: prepend_def split: if_splits list.splits, fastforce+)

lemma num_int_shorter: "num_int xs = Some (t, r) \<Longrightarrow> length r < length xs"
  using length_dropWhile_le [of is_digit]
  by (auto simp: num_int_def less_Suc_eq_le split: list.splits if_splits)

lemma num_frac_shorter: "num_frac xs = Some (t, r) \<Longrightarrow> length r \<le> length xs"
  using length_dropWhile_le [of is_digit]
  by (auto simp: num_frac_def le_Suc_eq split: list.splits if_splits)

lemma num_exp_shorter: "num_exp xs = Some (t, r) \<Longrightarrow> length r \<le> length xs"
  using length_dropWhile_le [of is_digit]
  by (auto simp: num_exp_def le_Suc_eq split: list.splits if_splits)

lemma parse_num_shorter: "parse_num xs = Some (t, r) \<Longrightarrow> length r < length xs"
  by (auto simp: parse_num_def split: list.splits if_splits option.splits
      dest!: num_int_shorter num_frac_shorter num_exp_shorter)

lemma scalar_shorter: "scalar xs = Some (v, r) \<Longrightarrow> length r < length xs"
  by (auto simp: scalar_def literal_def split: list.splits if_splits
      dest!: scan_str_shorter parse_num_shorter)

lemma skip_ws_ConsD: "skip_ws xs = c # r \<Longrightarrow> length r < length xs"
  using skip_ws_length [of xs] by simp

lemma parse_shorter:
  "parse_val n d xs = Some (v, r) \<Longrightarrow> length r < length xs"
  "parse_elems n d xs = Some (vs, r) \<Longrightarrow> length r < length xs"
  "parse_members n d xs = Some (ms, r) \<Longrightarrow> length r < length xs"
proof (induction n d xs and n d xs and n d xs arbitrary: v r and vs r and ms r
    rule: parse_val_parse_elems_parse_members.induct)
  case (2 n d xs)
  obtain c r1 where c: "skip_ws xs = c # r1"
    using 2 by (cases "skip_ws xs") auto
  from skip_ws_ConsD [OF c] have len: "length r1 < length xs" .
  consider "c = CHR ''[''" | "c = CHR ''{''" | "c \<noteq> CHR ''[''" "c \<noteq> CHR ''{''"
    by blast
  then show ?case
  proof cases
    case 1
    with 2 c len show ?thesis
      by (fastforce split: list.splits if_splits dest: skip_ws_ConsD)
  next
    case 2
    with \<open>parse_val (Suc n) d xs = Some (v, r)\<close> c len "2.IH" show ?thesis
      by (fastforce split: list.splits if_splits dest: skip_ws_ConsD)
  next
    case 3
    with \<open>parse_val (Suc n) d xs = Some (v, r)\<close> c skip_ws_length [of xs] show ?thesis
      by (auto dest!: scalar_shorter)
  qed
next
  case (4 n d xs)
  then show ?case
    by (fastforce split: list.splits if_splits option.splits dest: skip_ws_ConsD)
next
  case (6 n d xs)
  then show ?case
    by (fastforce split: list.splits if_splits option.splits dest: scan_str_shorter skip_ws_ConsD)
qed simp_all

subsection \<open>Enough fuel\<close>

text \<open>
  From twice the length of the text on, more fuel changes nothing: a text is refused because it
  is malformed, never because the recursion was cut off.
\<close>

lemma parse_fuel:
  assumes "2 * length xs + 1 \<le> n" and "2 * length xs + 1 \<le> m"
  shows "parse_val n d xs = parse_val m d xs"
    and "2 * length xs + 2 \<le> n \<Longrightarrow> 2 * length xs + 2 \<le> m \<Longrightarrow> parse_elems n d xs = parse_elems m d xs"
    and "parse_members n d xs = parse_members m d xs"
  using assms
proof (induction "length xs" arbitrary: xs n m d rule: less_induct)
  case less
  have sub: "parse_val i d ys = parse_val j d ys" "parse_members i d ys = parse_members j d ys"
    if "length ys < length xs" "2 * length ys + 1 \<le> i" "2 * length ys + 1 \<le> j" for i j d ys
    using less.hyps(1) [OF that] less.hyps(3) [OF that] by blast+
  have sub_elems: "parse_elems i d ys = parse_elems j d ys"
    if "length ys < length xs" "2 * length ys + 2 \<le> i" "2 * length ys + 2 \<le> j" for i j d ys
    using less.hyps(2) [OF that(1) that(2,3)] that by simp
  have val: "parse_val i d xs = parse_val j d xs"
    if ij: "2 * length xs + 1 \<le> i" "2 * length xs + 1 \<le> j" for i j d
  proof -
    obtain i' j' where i': "i = Suc i'" "j = Suc j'"
      using ij by (metis Suc_le_D Suc_eq_plus1)
    show ?thesis
    proof (cases "skip_ws xs")
      case (Cons c r)
      note len = skip_ws_ConsD [OF Cons]
      have "parse_elems i' d r = parse_elems j' d r" "parse_members i' d r = parse_members j' d r" for d
        using sub_elems [OF len] sub(2) [OF len] len ij i' by auto
      with Cons i' show ?thesis
        by (simp split: list.split)
    qed (simp add: i')
  qed
  {
    case 1
    then show ?case using val by blast
  next
    case 2
    note fuel = "2.prems"
    obtain n' m' where n': "n = Suc n'" "m = Suc m'"
      using fuel by (metis Suc_le_D Suc_eq_plus1)
    have eq: "parse_val n' d xs = parse_val m' d xs"
      using fuel n' by (intro val) simp_all
    show ?case
    proof (cases "parse_val m' d xs")
      case (Some vr)
      then obtain v r where v: "parse_val m' d xs = Some (v, r)" by (cases vr) auto
      have "parse_elems n' d r2 = parse_elems m' d r2" if "skip_ws r = c # r2" for c r2
        using sub_elems [of r2 n' m' d] skip_ws_ConsD [OF that] parse_shorter(1) [OF v] fuel n' by auto
      with v eq n' show ?thesis
        by (simp split: list.split)
    qed (simp add: n' eq)
  next
    case 3
    note fuel = "3.prems"
    obtain n' m' where n': "n = Suc n'" "m = Suc m'"
      using fuel by (metis Suc_le_D Suc_eq_plus1)
    show ?case
    proof (cases "skip_ws xs")
      case (Cons q r)
      note len = skip_ws_ConsD [OF Cons]
      have val_eq: "parse_val n' d r2 = parse_val m' d r2"
        if "scan_str r = Some (k, r1)" "skip_ws r1 = c # r2" for k r1 c r2
        using sub(1) [of r2 n' m' d] scan_str_shorter [OF that(1)] skip_ws_ConsD [OF that(2)] len fuel n'
        by auto
      have mem_eq: "parse_members n' d r4 = parse_members m' d r4"
        if "scan_str r = Some (k, r1)" "skip_ws r1 = c # r2" "parse_val m' d r2 = Some (v, r3)"
          "skip_ws r3 = c2 # r4" for k r1 c r2 v r3 c2 r4
        using sub(2) [of r4 n' m' d] scan_str_shorter [OF that(1)] skip_ws_ConsD [OF that(2)]
          parse_shorter(1) [OF that(3)] skip_ws_ConsD [OF that(4)] len fuel n'
        by auto
      show ?thesis
      proof (cases "scan_str r")
        case str: (Some kr)
        obtain k r1 where k: "scan_str r = Some (k, r1)" using str by (cases kr) auto
        show ?thesis
        proof (cases "skip_ws r1")
          case ws: (Cons c r2)
          note eq = val_eq [OF k ws]
          show ?thesis
          proof (cases "parse_val m' d r2")
            case val: (Some vr)
            obtain v r3 where v: "parse_val m' d r2 = Some (v, r3)" using val by (cases vr) auto
            show ?thesis
              using mem_eq [OF k ws v] Cons n' k ws v eq by (cases "skip_ws r3") simp_all
          qed (use Cons n' k ws eq in simp)
        qed (use Cons n' k in simp)
      qed (use Cons n' in simp)
    qed (simp add: n')
  }
qed

lemma parse_val_fuel: "fuel_for xs \<le> n \<Longrightarrow> parse_val n d xs = parse_val (fuel_for xs) d xs"
  by (rule parse_fuel(1)) (simp_all add: fuel_for_def)

end
