(* ===== verification/JsonDecode.thy ===== *)
theory JsonDecode
  imports Json "HOL-Library.Char_ord" "HOL-Library.List_Lexorder"
begin

section \<open>Decoding JSON into Go values\<close>

text \<open>
  \<open>json.Unmarshal\<close> and \<open>Decoder.Decode\<close> into the structs and maps the service uses. A value
  that does not fit its field makes the whole call an error (the callers use no partial result),
  so a decoder is a partial update of the Go value: \<open>None\<close> is the error. Fields are matched
  exactly, then with case folded; members that match no field are skipped; of two members for one
  field the later wins, member by member for structs and maps; \<open>null\<close> leaves scalars and structs
  alone and clears pointers and maps.
\<close>

subsection \<open>Fields\<close>

text \<open>
  Folding: upper case, with the two runes outside ASCII whose folding is an ASCII letter. Any
  other rune stays outside ASCII, so it matches none of the service's field names.
\<close>

definition upper :: "char \<Rightarrow> char" where
  "upper c = (if 97 \<le> byte c \<and> byte c \<le> 122 then chr (byte c - 32) else c)"

fun foldName :: "string \<Rightarrow> string" where
  "foldName [] = []"
| "foldName (c # r) =
     (if map byte (take 2 (c # r)) = [0xC5, 0xBF] then CHR ''S'' # foldName (drop 1 r)
      else if map byte (take 3 (c # r)) = [0xE2, 0x84, 0xAA] then CHR ''K'' # foldName (drop 2 r)
      else upper c # foldName r)"

type_synonym 'r field = "string \<times> ('r \<Rightarrow> jvalue \<Rightarrow> 'r option)"

definition find_field :: "'r field list \<Rightarrow> string \<Rightarrow> ('r \<Rightarrow> jvalue \<Rightarrow> 'r option) option" where
  "find_field fs k =
     (case map_of fs k of
        Some f \<Rightarrow> Some f
      | None \<Rightarrow> map_option snd (find (\<lambda>(n, f). foldName n = foldName k) fs))"

fun decode_members :: "'r field list \<Rightarrow> (string \<times> jvalue) list \<Rightarrow> 'r \<Rightarrow> 'r option" where
  "decode_members fs [] r = Some r"
| "decode_members fs ((k, v) # ms) r =
     (case find_field fs (unquote k) of
        None \<Rightarrow> decode_members fs ms r
      | Some f \<Rightarrow> (case f r v of None \<Rightarrow> None | Some r' \<Rightarrow> decode_members fs ms r'))"

definition decode_struct :: "'r field list \<Rightarrow> 'r \<Rightarrow> jvalue \<Rightarrow> 'r option" where
  "decode_struct fs r v =
     (case v of JvNull \<Rightarrow> Some r | JvObj ms \<Rightarrow> decode_members fs ms r | _ \<Rightarrow> None)"

subsection \<open>Scalars and pointers\<close>

definition decode_string :: "string \<Rightarrow> jvalue \<Rightarrow> string option" where
  "decode_string old v = (case v of JvNull \<Rightarrow> Some old | JvStr l \<Rightarrow> Some (unquote l) | _ \<Rightarrow> None)"

text \<open>A signed integer of \<open>w\<close> bits: the literal must be a plain integer in range.\<close>

definition decode_int :: "nat \<Rightarrow> int \<Rightarrow> jvalue \<Rightarrow> int option" where
  "decode_int w old v =
     (case v of
        JvNull \<Rightarrow> Some old
      | JvNum t \<Rightarrow> (case ParseInt t of
            None \<Rightarrow> None
          | Some i \<Rightarrow> (if - (2 ^ (w - 1)) \<le> i \<and> i < 2 ^ (w - 1) then Some i else None))
      | _ \<Rightarrow> None)"

definition decode_string_ptr :: "string option \<Rightarrow> jvalue \<Rightarrow> string option option" where
  "decode_string_ptr old v =
     (case v of JvNull \<Rightarrow> Some None | JvStr l \<Rightarrow> Some (Some (unquote l)) | _ \<Rightarrow> None)"

text \<open>
  A slice: as long as the array, each element decoded into what the slice already holds there (a
  member given twice), or else into a zero value.
\<close>

fun decode_list :: "('r \<Rightarrow> jvalue \<Rightarrow> 'r option) \<Rightarrow> 'r \<Rightarrow> 'r list \<Rightarrow> jvalue list \<Rightarrow> 'r list option" where
  "decode_list f z old [] = Some []"
| "decode_list f z old (v # vs) =
     (case f (case old of [] \<Rightarrow> z | x # _ \<Rightarrow> x) v of
        None \<Rightarrow> None
      | Some x \<Rightarrow> map_option (\<lambda>xs. x # xs) (decode_list f z (tl old) vs))"

definition decode_slice :: "('r \<Rightarrow> jvalue \<Rightarrow> 'r option) \<Rightarrow> 'r \<Rightarrow> 'r list \<Rightarrow> jvalue \<Rightarrow> 'r list option" where
  "decode_slice f z old v =
     (case v of JvNull \<Rightarrow> Some [] | JvArr vs \<Rightarrow> decode_list f z old vs | _ \<Rightarrow> None)"

subsection \<open>Values of type \<open>any\<close>\<close>

text \<open>
  A number is a \<open>float64\<close>; it is kept as its literal, whose nearest \<open>float64\<close> it stands for, and
  a literal that rounds to infinity is an error. Maps are sorted lists without duplicates.
\<close>

datatype gvalue =
    GNull
  | GBool bool
  | GNum string
  | GStr string
  | GArr "gvalue list"
  | GObj "(string \<times> gvalue) list"

fun map_put :: "string \<Rightarrow> 'a \<Rightarrow> (string \<times> 'a) list \<Rightarrow> (string \<times> 'a) list" where
  "map_put k v [] = [(k, v)]"
| "map_put k v ((j, w) # ms) =
     (if k = j then (k, v) # ms else if k < j then (k, v) # (j, w) # ms else (j, w) # map_put k v ms)"

definition digits_of :: "string \<Rightarrow> nat" where
  "digits_of t = foldl (\<lambda>a c. a * 10 + (byte c - 48)) 0 (filter is_digit t)"

text \<open>Whether the absolute value of a literal reaches the point from where \<open>float64\<close> is infinite.\<close>

definition max_float_bound :: nat where
  "max_float_bound = 2 ^ 1024 - 2 ^ 970"

definition is_exp :: "char \<Rightarrow> bool" where
  "is_exp c \<longleftrightarrow> c = CHR ''e'' \<or> c = CHR ''E''"

definition float_overflow :: "string \<Rightarrow> bool" where
  "float_overflow t =
     (let mant = takeWhile (\<lambda>c. \<not> is_exp c) t;
          ex = drop 1 (dropWhile (\<lambda>c. \<not> is_exp c) t);
          frac = length (drop 1 (dropWhile (\<lambda>c. c \<noteq> CHR ''.'') mant));
          neg = (ex \<noteq> [] \<and> hd ex = CHR ''-'');
          m = digits_of mant
      in if neg then m \<ge> max_float_bound * 10 ^ (frac + digits_of ex)
         else m * 10 ^ digits_of ex \<ge> max_float_bound * 10 ^ frac)"

fun decode_any :: "jvalue \<Rightarrow> gvalue option"
  and decode_anys :: "jvalue list \<Rightarrow> gvalue list option"
  and decode_map :: "(string \<times> gvalue) list \<Rightarrow> (string \<times> jvalue) list \<Rightarrow> (string \<times> gvalue) list option"
where
  "decode_any JvNull = Some GNull"
| "decode_any (JvBool b) = Some (GBool b)"
| "decode_any (JvNum t) = (if float_overflow t then None else Some (GNum t))"
| "decode_any (JvStr l) = Some (GStr (unquote l))"
| "decode_any (JvArr vs) = map_option GArr (decode_anys vs)"
| "decode_any (JvObj ms) = map_option GObj (decode_map [] ms)"
| "decode_anys [] = Some []"
| "decode_anys (v # vs) =
     (case decode_any v of
        None \<Rightarrow> None
      | Some x \<Rightarrow> map_option (\<lambda>xs. x # xs) (decode_anys vs))"
| "decode_map acc [] = Some acc"
| "decode_map acc ((k, v) # ms) =
     (case decode_any v of
        None \<Rightarrow> None
      | Some x \<Rightarrow> decode_map (map_put (unquote k) x acc) ms)"

text \<open>A field of type \<open>map[string]any\<close>, which may be nil: members are added to the map that is there.\<close>

type_synonym gmap = "(string \<times> gvalue) list option"

definition decode_map_field :: "gmap \<Rightarrow> jvalue \<Rightarrow> gmap option" where
  "decode_map_field old v =
     (case v of
        JvNull \<Rightarrow> Some None
      | JvObj ms \<Rightarrow> map_option Some (decode_map (case old of None \<Rightarrow> [] | Some m \<Rightarrow> m) ms)
      | _ \<Rightarrow> None)"

subsection \<open>Maps\<close>

lemma map_of_map_put: "map_of (map_put k v ms) = (map_of ms)(k \<mapsto> v)"
  by (induction k v ms rule: map_put.induct) auto

lemma map_put_last: "\<forall>j \<in> set (map fst ms). j < k \<Longrightarrow> map_put k v ms = ms @ [(k, v)]"
  by (induction k v ms rule: map_put.induct) (auto simp: less_not_sym)

lemma map_put_keys: "set (map fst (map_put k v ms)) = insert k (set (map fst ms))"
  by (induction k v ms rule: map_put.induct) auto

lemma sorted_map_put:
  "sorted_wrt (<) (map fst ms) \<Longrightarrow> sorted_wrt (<) (map fst (map_put k v ms))"
proof (induction k v ms rule: map_put.induct)
  case (2 k v j w ms)
  then show ?case
    using map_put_keys [of k v ms] by (auto dest: less_trans)
qed simp

end
