(* ===== verification/JsonPrint.thy ===== *)
theory JsonPrint
  imports JsonDecode
begin

section \<open>Printing Go values as JSON\<close>

text \<open>
  \<open>json.Marshal\<close> on the values the service prints. Strings escape quotes, control characters,
  the HTML characters, the two line separators of JavaScript and bytes that are no UTF-8; maps
  print in the order of their keys. Printing then reading gives the value back (\<open>parse_print\<close>).
\<close>

subsection \<open>Strings\<close>

definition hex_digit :: "nat \<Rightarrow> char" where
  "hex_digit n = (if n < 10 then chr (48 + n) else chr (87 + n))"

definition u_escape :: "nat \<Rightarrow> string" where
  "u_escape u = [CHR 0x5C, CHR ''u'', hex_digit (u div 0x1000 mod 16), hex_digit (u div 0x100 mod 16),
     hex_digit (u div 0x10 mod 16), hex_digit (u mod 16)]"

definition esc_ascii :: "char \<Rightarrow> string" where
  "esc_ascii c =
     (let b = byte c in
      if b = 34 \<or> b = 92 then [CHR 0x5C, c]
      else if b = 8 then [CHR 0x5C, CHR ''b''] else if b = 12 then [CHR 0x5C, CHR ''f'']
      else if b = 10 then [CHR 0x5C, CHR ''n''] else if b = 13 then [CHR 0x5C, CHR ''r'']
      else if b = 9 then [CHR 0x5C, CHR ''t'']
      else if b < 32 \<or> b = 60 \<or> b = 62 \<or> b = 38 then u_escape b else [c])"

fun escape :: "string \<Rightarrow> string" where
  "escape [] = []"
| "escape (c # r) =
     (if byte c < 0x80 then esc_ascii c @ escape r
      else
        (let k = rune_len (c # r) in
         if k = 0 then u_escape 0xFFFD @ escape r
         else if map byte (take 3 (c # r)) = [0xE2, 0x80, 0xA8] then u_escape 0x2028 @ escape (drop 2 r)
         else if map byte (take 3 (c # r)) = [0xE2, 0x80, 0xA9] then u_escape 0x2029 @ escape (drop 2 r)
         else take k (c # r) @ escape (drop (k - 1) r)))"

definition quoted :: "string \<Rightarrow> string" where
  "quoted s = CHR 0x22 # escape s @ [CHR 0x22]"

text \<open>Well-formed UTF-8.\<close>

fun utf8_ok :: "string \<Rightarrow> bool" where
  "utf8_ok [] = True"
| "utf8_ok (c # r) = (rune_len (c # r) > 0 \<and> utf8_ok (drop (rune_len (c # r) - 1) r))"

subsection \<open>Values\<close>

fun print :: "gvalue \<Rightarrow> string"
  and print_elems :: "gvalue list \<Rightarrow> string"
  and print_members :: "(string \<times> gvalue) list \<Rightarrow> string"
where
  "print GNull = ''null''"
| "print (GBool b) = (if b then ''true'' else ''false'')"
| "print (GNum t) = t"
| "print (GStr s) = quoted s"
| "print (GArr vs) = CHR ''['' # print_elems vs @ '']''"
| "print (GObj ms) = CHR ''{'' # print_members ms @ ''}''"
| "print_elems [] = []"
| "print_elems (v # vs) = print v @ (if vs = [] then [] else CHR '','' # print_elems vs)"
| "print_members [] = []"
| "print_members ((k, v) # ms) =
     quoted k @ CHR '':'' # print v @ (if ms = [] then [] else CHR '','' # print_members ms)"

definition GInt :: "int \<Rightarrow> gvalue" where
  "GInt i = GNum (show_int i)"

definition of_ptr :: "string option \<Rightarrow> gvalue" where
  "of_ptr p = (case p of None \<Rightarrow> GNull | Some s \<Rightarrow> GStr s)"

subsection \<open>Runes\<close>

lemma rune_bytes_le4: "rune_bytes bs \<le> 4"
  by (cases bs rule: rune_bytes.cases) auto

lemma rune_bytes_le: "rune_bytes bs \<le> length bs"
  by (cases bs rule: rune_bytes.cases) auto

lemma rune_len_le: "rune_len xs \<le> length xs"
  using rune_bytes_le [of "map byte (take 4 xs)"] by (simp add: rune_len_def)

text \<open>The length of a sequence depends on its own bytes only.\<close>

lemma rune_bytes_take:
  "rune_bytes bs = k \<Longrightarrow> 0 < k \<Longrightarrow> length bs \<le> 4 \<Longrightarrow> rune_bytes (take 4 (take k bs @ ys)) = k"
  by (cases bs rule: rune_bytes.cases; cases ys rule: rune_bytes.cases)
    (auto split: if_splits)

lemma take_rune: "take (rune_len xs) xs = take (rune_len xs) (take 4 xs)"
  using rune_bytes_le4 [of "map byte (take 4 xs)"]
  by (simp only: rune_len_def take_take min.absorb1)

lemma rune_len_take:
  assumes "0 < rune_len xs"
  shows "rune_len (take (rune_len xs) xs @ ys) = rune_len xs"
proof -
  let ?k = "rune_len xs"
  have "rune_bytes (take 4 (take ?k (map byte (take 4 xs)) @ map byte ys)) = ?k"
    by (rule rune_bytes_take) (use assms in \<open>simp_all add: rune_len_def\<close>)
  also have "take 4 (take ?k (map byte (take 4 xs)) @ map byte ys)
      = map byte (take 4 (take ?k (take 4 xs) @ ys))"
    by (simp only: take_map [symmetric] map_append)
  finally show ?thesis
    by (subst take_rune) (simp only: rune_len_def [of "take ?k (take 4 xs) @ ys"])
qed

lemma rune_bytes_ascii: "b < 0x80 \<Longrightarrow> rune_bytes (b # bs) = 1"
  by (cases "b # bs" rule: rune_bytes.cases) auto

lemma rune_len_ascii: "byte c < 0x80 \<Longrightarrow> rune_len (c # r) = 1"
  by (simp add: rune_len_def rune_bytes_ascii)

text \<open>Every byte of a sequence that does not begin with an ASCII byte is outside ASCII.\<close>

lemma rune_bytes_high:
  "\<not> b < 0x80 \<Longrightarrow> c \<in> set (take (rune_bytes (b # bs)) (b # bs)) \<Longrightarrow> 0x80 \<le> c"
  by (cases "b # bs" rule: rune_bytes.cases)
    (auto simp: continuation_def rune_len3_def rune_len4_def split: if_splits)

lemma rune_high:
  assumes "\<not> byte c < 0x80" and "x \<in> set (take (rune_len (c # r)) (c # r))"
  shows "0x80 \<le> byte x"
proof -
  let ?k = "rune_len (c # r)"
  have "byte x \<in> set (take ?k (map byte (take 4 (c # r))))"
    using assms(2) by (subst (asm) take_rune) (metis image_eqI list.set_map take_map)
  then have "byte x \<in> set (take (rune_bytes (byte c # map byte (take 3 r))) (byte c # map byte (take 3 r)))"
    by (simp add: rune_len_def)
  from rune_bytes_high [OF assms(1) this] show ?thesis .
qed

subsection \<open>String literals read back\<close>

lemma prepend_simps [simp]:
  "prepend w None = None" "prepend w (Some (s, r)) = Some (w @ s, r)"
  "prepend v (prepend w p) = prepend (v @ w) p" "prepend [] p = p"
  by (cases p; auto simp: prepend_def)+

lemma hex_val_digit: "n < 16 \<Longrightarrow> hex_val (hex_digit n) = Some n"
  by (auto simp: hex_val_def hex_digit_def Let_def)

lemma hex4_digits:
  "u < 0x10000 \<Longrightarrow>
     hex4 (hex_digit (u div 0x1000 mod 16) # hex_digit (u div 0x100 mod 16)
       # hex_digit (u div 0x10 mod 16) # hex_digit (u mod 16) # t) = Some u"
proof -
  assume "u < 0x10000"
  then have "u div 0x1000 mod 16 = u div 16 div 16 div 16"
    by (simp add: div_mult2_eq [symmetric])
  moreover have "u div 0x100 = u div 16 div 16" "u div 0x10 = u div 16"
    by (simp_all add: div_mult2_eq [symmetric])
  moreover have "u div 16 div 16 div 16 < 16"
    using \<open>u < 0x10000\<close> by (simp add: div_mult2_eq [symmetric] less_mult_imp_div_less)
  ultimately show ?thesis
    by (simp add: hex4_def hex_val_digit)
qed

lemma backslash_u: "simple_escape CHR ''u'' = None" "byte (CHR 0x5C) = 92" "CHR 0x5C \<noteq> CHR 0x22"
  by (simp_all add: simple_escape_def byte_def)

lemma unquote_u_escape:
  "u < 0x10000 \<Longrightarrow> \<not> (0xD800 \<le> u \<and> u < 0xE000) \<Longrightarrow>
     unquote (u_escape u @ t) = encode_rune u @ unquote t"
  using hex4_digits [of u t] by (auto simp: u_escape_def backslash_u)

lemma scan_u_escape:
  "u < 0x10000 \<Longrightarrow> scan_str (u_escape u @ t) = prepend (u_escape u) (scan_str t)"
  using hex4_digits [of u t] by (simp add: u_escape_def backslash_u)

lemma byte_lits:
  "byte c = 34 \<longleftrightarrow> c = CHR 0x22" "byte c = 92 \<longleftrightarrow> c = CHR 0x5C" "byte c = 8 \<longleftrightarrow> c = CHR 0x08"
  "byte c = 12 \<longleftrightarrow> c = CHR 0x0C" "byte c = 10 \<longleftrightarrow> c = CHR 0x0A" "byte c = 13 \<longleftrightarrow> c = CHR 0x0D"
  "byte c = 9 \<longleftrightarrow> c = CHR 0x09"
  using byte_inj [of c "CHR 0x22"] byte_inj [of c "CHR 0x5C"] byte_inj [of c "CHR 0x08"]
    byte_inj [of c "CHR 0x0C"] byte_inj [of c "CHR 0x0A"] byte_inj [of c "CHR 0x0D"]
    byte_inj [of c "CHR 0x09"]
  by (auto simp: byte_def)

lemma esc_cases:
  assumes "byte c < 128"
  obtains (two) x where "esc_ascii c = [CHR 0x5C, x]" "simple_escape x = Some c"
    | (hex) "esc_ascii c = u_escape (byte c)" "byte c < 64"
    | (plain) "esc_ascii c = [c]" "c \<noteq> CHR 0x5C" "c \<noteq> CHR 0x22" "32 \<le> byte c"
proof -
  consider "c = CHR 0x22 \<or> c = CHR 0x5C" | x where "(c, x) \<in> {(CHR 0x08, CHR ''b''),
        (CHR 0x0C, CHR ''f''), (CHR 0x0A, CHR ''n''), (CHR 0x0D, CHR ''r''), (CHR 0x09, CHR ''t'')}"
    | "byte c < 32 \<or> byte c = 60 \<or> byte c = 62 \<or> byte c = 38" "byte c \<notin> {8, 12, 10, 13, 9}"
    | "\<not> byte c < 32" "byte c \<notin> {34, 92, 60, 62, 38}"
    unfolding byte_lits [symmetric] by (auto simp: byte_lits)
  then show thesis
  proof cases
    case 1
    then show ?thesis
      by (intro two [of c]) (auto simp: esc_ascii_def Let_def simple_escape_def byte_lits)
  next
    case (2 x)
    then show ?thesis
      by (intro two [of x]) (auto simp: esc_ascii_def Let_def simple_escape_def byte_lits)
  next
    case 3
    then show ?thesis by (intro hex) (auto simp: esc_ascii_def Let_def)
  next
    case 4
    then show ?thesis by (intro plain) (auto simp: esc_ascii_def Let_def simp flip: byte_lits)
  qed
qed

lemma unquote_esc_ascii: "byte c < 128 \<Longrightarrow> unquote (esc_ascii c @ t) = c # unquote t"
proof -
  assume b: "byte c < 128"
  then show ?thesis
    by (rule esc_cases)
      (use rune_len_ascii [OF b, of t] in \<open>simp_all add: unquote_u_escape encode_rune_def backslash_u Let_def\<close>)
qed

lemma scan_esc_ascii: "byte c < 128 \<Longrightarrow> scan_str (esc_ascii c @ t) = prepend (esc_ascii c) (scan_str t)"
  by (erule esc_cases) (simp_all add: scan_u_escape backslash_u)

lemma scan_high: "\<forall>c \<in> set w. 0x80 \<le> byte c \<Longrightarrow> scan_str (w @ t) = prepend w (scan_str t)"
proof (induction w)
  case (Cons c w)
  then have "c \<noteq> CHR 0x22" "c \<noteq> CHR 0x5C" "\<not> byte c < 32"
    by (auto simp flip: byte_lits)
  with Cons show ?case by simp
qed simp

lemma unquote_rune:
  assumes "\<not> byte c < 0x80" and "0 < rune_len (c # r)"
  shows "unquote (take (rune_len (c # r)) (c # r) @ t) = take (rune_len (c # r)) (c # r) @ unquote t"
proof -
  let ?k = "rune_len (c # r)"
  have len: "length (take ?k (c # r)) = ?k"
    using rune_len_le [of "c # r"] by simp
  obtain w where w: "take ?k (c # r) = c # w"
    using assms(2) by (cases ?k) auto
  have k: "rune_len (c # w @ t) = ?k" and "length w = ?k - 1"
    using rune_len_take [OF assms(2), of t] len w by simp_all
  moreover have "c \<noteq> CHR 0x5C"
    using assms(1) by (auto simp flip: byte_lits)
  moreover have "take ?k (c # w @ t) = c # w" "drop (?k - 1) (w @ t) = t"
    using \<open>length w = ?k - 1\<close> assms(2) by (cases ?k; simp)+
  ultimately show ?thesis
    unfolding w using assms(2) by (simp del: take_Cons)
qed

text \<open>Scanning an escaped string finds its end; unquoting gives well-formed text back.\<close>

lemma scan_escape: "scan_str (escape s @ t) = prepend (escape s) (scan_str t)"
proof (induction s rule: escape.induct)
  case (2 c r)
  have "scan_str (take (rune_len (c # r)) (c # r) @ x) = prepend (take (rune_len (c # r)) (c # r)) (scan_str x)"
    if "\<not> byte c < 0x80" for x
    using rune_high [OF that] by (intro scan_high) blast
  with 2 show ?case
    by (auto simp: Let_def scan_esc_ascii scan_u_escape simp del: take_Cons)
qed simp

lemma separator_runes:
  assumes "map byte (take 3 xs) = [0xE2, 0x80, b]" and "b = 0xA8 \<or> b = 0xA9"
  shows "rune_len xs = 3" and "take 3 xs = encode_rune (0x2028 + (b - 0xA8))"
proof -
  obtain x y z r where xs: "xs = x # y # z # r"
    using assms(1) by (cases xs; cases "tl xs"; cases "tl (tl xs)") auto
  with assms have bytes: "byte x = 0xE2" "byte y = 0x80" "byte z = b" by simp_all
  have "rune_bytes (0xE2 # 0x80 # b # bs) = 3" for bs
    using assms(2) by (cases bs) (auto simp: rune_len3_def continuation_def)
  with xs bytes show "rune_len xs = 3" by (simp add: rune_len_def)
  from bytes have "x = chr 0xE2" "y = chr 0x80" "z = chr b" by (metis chr_byte)+
  with xs assms(2) show "take 3 xs = encode_rune (0x2028 + (b - 0xA8))"
    by (auto simp: encode_rune_def)
qed

lemma unquote_escape: "utf8_ok s \<Longrightarrow> unquote (escape s) = s"
proof (induction s rule: escape.induct)
  case (2 c r)
  show ?case
  proof (cases "byte c < 0x80")
    case True
    with 2 show ?thesis by (simp add: unquote_esc_ascii rune_len_ascii)
  next
    case high: False
    let ?k = "rune_len (c # r)"
    have k: "0 < ?k" "utf8_ok (drop (?k - 1) r)"
      using 2 by simp_all
    have split: "take ?k (c # r) @ drop (?k - 1) r = c # r"
      using k(1) by (cases ?k) simp_all
    consider b where "map byte (take 3 (c # r)) = [0xE2, 0x80, b]" "b = 0xA8 \<or> b = 0xA9"
      | "map byte (take 3 (c # r)) \<noteq> [0xE2, 0x80, 0xA8]" "map byte (take 3 (c # r)) \<noteq> [0xE2, 0x80, 0xA9]"
      by (cases "map byte (take 3 (c # r)) = [0xE2, 0x80, 0xA8]";
          cases "map byte (take 3 (c # r)) = [0xE2, 0x80, 0xA9]") metis+
    then show ?thesis
    proof cases
      case 1
      note sep = separator_runes [OF 1]
      from 1 sep(1) have "escape (c # r) = u_escape (0x2028 + (b - 0xA8)) @ escape (drop 2 r)"
        using high by (auto simp: Let_def simp del: take_Cons)
      moreover have "unquote (escape (drop 2 r)) = drop 2 r"
        using 1 sep(1) 2 high by (auto simp: Let_def simp del: take_Cons)
      ultimately have "unquote (escape (c # r)) = encode_rune (0x2028 + (b - 0xA8)) @ drop 2 r"
        using 1(2) by (auto simp: unquote_u_escape)
      with sep split show ?thesis by simp
    next
      case 2
      with k high have "escape (c # r) = take ?k (c # r) @ escape (drop (?k - 1) r)"
        by (auto simp: Let_def simp del: take_Cons)
      moreover have "unquote (escape (drop (?k - 1) r)) = drop (?k - 1) r"
        using "2.IH" k high 2 by (auto simp: Let_def simp del: take_Cons)
      ultimately show ?thesis
        using unquote_rune [OF high k(1)] split by simp
    qed
  qed
qed simp

subsection \<open>Numbers\<close>

definition num_end :: "string \<Rightarrow> bool" where
  "num_end xs \<longleftrightarrow> (case xs of [] \<Rightarrow> True
     | c # _ \<Rightarrow> \<not> is_digit c \<and> c \<noteq> CHR ''.'' \<and> \<not> is_exp c)"

lemma digits_append:
  assumes "num_end rest"
  shows "takeWhile is_digit (xs @ rest) = takeWhile is_digit xs"
    and "dropWhile is_digit (xs @ rest) = dropWhile is_digit xs @ rest"
  using assms by (induction xs; cases rest; simp add: num_end_def)+

lemma num_int_append:
  "num_int xs = Some (i, r) \<Longrightarrow> num_end rest \<Longrightarrow> num_int (xs @ rest) = Some (i, r @ rest)"
  using digits_append [of rest xs]
  by (auto simp: num_int_def split: list.splits if_splits)

lemma num_frac_append:
  assumes "num_frac xs = Some (f, r)" and "num_end rest"
  shows "num_frac (xs @ rest) = Some (f, r @ rest)"
proof (cases xs)
  case Nil
  with assms show ?thesis
    by (cases rest; cases "tl rest") (auto simp: num_frac_def num_end_def)
next
  case (Cons c ys)
  show ?thesis
  proof (cases ys)
    case Nil
    with assms Cons show ?thesis
      by (cases rest) (auto simp: num_frac_def split: if_splits)
  next
    case more: (Cons d zs)
    with assms Cons show ?thesis
      using digits_append [OF assms(2), of ys] by (auto simp: num_frac_def split: if_splits)
  qed
qed

lemma num_exp_append:
  assumes "num_exp xs = Some (e, r)" and "num_end rest"
  shows "num_exp (xs @ rest) = Some (e, r @ rest)"
proof (cases xs)
  case Nil
  with assms show ?thesis
    by (cases rest) (auto simp: num_exp_def num_end_def is_exp_def)
next
  case (Cons c ys)
  with assms(1) show ?thesis
    using digits_append [OF assms(2), of ys] digits_append [OF assms(2), of "tl ys"]
    by (cases ys) (auto simp: num_exp_def split: if_splits)
qed

lemma parse_num_append:
  assumes "parse_num xs = Some (t, r)" and "num_end rest"
  shows "parse_num (xs @ rest) = Some (t, r @ rest)"
proof -
  obtain sg ys where sg: "(case xs of c # r \<Rightarrow> (if c = CHR ''-'' then ([c], r) else ([], xs)) | [] \<Rightarrow> ([], xs)) = (sg, ys)"
    by fastforce
  with assms obtain i r1 f r2 e where r: "num_int ys = Some (i, r1)" "num_frac r1 = Some (f, r2)"
    "num_exp r2 = Some (e, r)" "t = sg @ i @ f @ e"
    by (auto simp: parse_num_def split: option.splits)
  have "ys \<noteq> []"
    using r(1) by (auto simp: num_int_def)
  then have "(case xs @ rest of c # r \<Rightarrow> (if c = CHR ''-'' then ([c], r) else ([], xs @ rest)) | [] \<Rightarrow> ([], xs @ rest)) = (sg, ys @ rest)"
    using sg by (auto split: list.splits if_splits)
  with r num_int_append [OF r(1) assms(2)] num_frac_append [OF r(2) assms(2)] num_exp_append [OF r(3) assms(2)]
  show ?thesis
    by (simp add: parse_num_def)
qed

lemma parse_num_first: "parse_num xs = Some (t, r) \<Longrightarrow> \<exists>c ys. xs = c # ys \<and> (c = CHR ''-'' \<or> is_digit c)"
  by (cases xs) (auto simp: parse_num_def num_int_def is_digit_def byte_def split: option.splits if_splits)

subsection \<open>Values read back\<close>

text \<open>
  What can be printed and read: at most \<open>d\<close> levels deep, numbers that are literals, strings and
  keys in UTF-8.
\<close>

fun printable :: "nat \<Rightarrow> gvalue \<Rightarrow> bool"
  and printable_list :: "nat \<Rightarrow> gvalue list \<Rightarrow> bool"
  and printable_map :: "nat \<Rightarrow> (string \<times> gvalue) list \<Rightarrow> bool"
where
  "printable d GNull = True"
| "printable d (GBool b) = True"
| "printable d (GNum t) = (parse_num t = Some (t, []))"
| "printable d (GStr s) = utf8_ok s"
| "printable d (GArr vs) = (0 < d \<and> printable_list (d - 1) vs)"
| "printable d (GObj ms) = (0 < d \<and> printable_map (d - 1) ms)"
| "printable_list d [] = True"
| "printable_list d (v # vs) = (printable d v \<and> printable_list d vs)"
| "printable_map d [] = True"
| "printable_map d ((k, v) # ms) = (utf8_ok k \<and> printable d v \<and> printable_map d ms)"

text \<open>Maps are held sorted by key, without duplicates; numbers are finite.\<close>

fun canonical :: "gvalue \<Rightarrow> bool"
  and canonical_list :: "gvalue list \<Rightarrow> bool"
  and canonical_map :: "(string \<times> gvalue) list \<Rightarrow> bool"
where
  "canonical (GNum t) = (\<not> float_overflow t)"
| "canonical (GArr vs) = canonical_list vs"
| "canonical (GObj ms) = (sorted_wrt (<) (map fst ms) \<and> canonical_map ms)"
| "canonical _ = True"
| "canonical_list [] = True"
| "canonical_list (v # vs) = (canonical v \<and> canonical_list vs)"
| "canonical_map [] = True"
| "canonical_map ((k, v) # ms) = (canonical v \<and> canonical_map ms)"

fun syntax_of :: "gvalue \<Rightarrow> jvalue"
  and syntax_list :: "gvalue list \<Rightarrow> jvalue list"
  and syntax_map :: "(string \<times> gvalue) list \<Rightarrow> (string \<times> jvalue) list"
where
  "syntax_of GNull = JvNull"
| "syntax_of (GBool b) = JvBool b"
| "syntax_of (GNum t) = JvNum t"
| "syntax_of (GStr s) = JvStr (escape s)"
| "syntax_of (GArr vs) = JvArr (syntax_list vs)"
| "syntax_of (GObj ms) = JvObj (syntax_map ms)"
| "syntax_list [] = []"
| "syntax_list (v # vs) = syntax_of v # syntax_list vs"
| "syntax_map [] = []"
| "syntax_map ((k, v) # ms) = (escape k, syntax_of v) # syntax_map ms"

lemma decode_syntax:
  "printable d g \<Longrightarrow> canonical g \<Longrightarrow> decode_any (syntax_of g) = Some g"
  "printable_list d gs \<Longrightarrow> canonical_list gs \<Longrightarrow> decode_anys (syntax_list gs) = Some gs"
  "printable_map d ms \<Longrightarrow> canonical_map ms \<Longrightarrow> sorted_wrt (<) (map fst ms) \<Longrightarrow>
     \<forall>j \<in> set (map fst acc). \<forall>k \<in> set (map fst ms). j < k \<Longrightarrow>
     decode_map acc (syntax_map ms) = Some (acc @ ms)"
proof (induction d g and d gs and d ms arbitrary: and and acc
    rule: printable_printable_list_printable_map.induct)
  case (10 d k v ms)
  then have "map_put k v acc = acc @ [(k, v)]"
    by (intro map_put_last) auto
  with 10 show ?case
    by (auto simp: unquote_escape)
qed (simp_all add: unquote_escape)

lemma skip_ws_stop [simp]: "\<not> is_ws c \<Longrightarrow> skip_ws (c # r) = c # r"
  by (simp add: skip_ws_def)

lemma not_ws [simp]:
  "\<not> is_ws CHR '',''" "\<not> is_ws CHR '':''" "\<not> is_ws CHR ''[''" "\<not> is_ws CHR '']''" "\<not> is_ws CHR ''{''"
  "\<not> is_ws CHR ''}''" "\<not> is_ws CHR 0x22" "\<not> is_ws CHR ''n''" "\<not> is_ws CHR ''t''" "\<not> is_ws CHR ''f''"
  "\<not> is_ws CHR ''-''"
  by (simp_all add: is_ws_def byte_def)

lemma not_digit:
  "\<not> is_digit CHR ''[''" "\<not> is_digit CHR ''{''" "\<not> is_digit CHR 0x22" "\<not> is_digit CHR ''t''"
  "\<not> is_digit CHR ''f''" "\<not> is_digit CHR ''n''" "\<not> is_digit CHR '']''" "\<not> is_digit CHR ''}''"
  "\<not> is_digit CHR '',''" "is_digit c \<Longrightarrow> \<not> is_ws c"
  by (auto simp: is_digit_def is_ws_def byte_def)

lemma num_end_delims [simp]:
  "num_end []" "num_end (CHR '','' # r)" "num_end (CHR '']'' # r)" "num_end (CHR ''}'' # r)"
  by (simp_all add: num_end_def not_digit is_exp_def)

lemma print_first:
  "printable d g \<Longrightarrow> \<exists>c cs. print g = c # cs \<and> \<not> is_ws c \<and> c \<noteq> CHR '']'' \<and> c \<noteq> CHR ''}''"
proof (cases g)
  case (GNum t)
  assume "printable d g"
  with GNum have "parse_num t = Some (t, [])" by simp
  with GNum show ?thesis
    using parse_num_first [of t] not_digit by fastforce
qed (simp_all add: quoted_def)

lemma parse_scalar:
  assumes "scalar (c # r) = Some (v, rest)" and "\<not> is_ws c" and "c \<noteq> CHR ''[''" and "c \<noteq> CHR ''{''"
    and "0 < n"
  shows "parse_val n d (c # r) = Some (v, rest)"
  using assms by (cases n) simp_all

lemma scan_quoted: "quoted s @ rest = CHR 0x22 # escape s @ CHR 0x22 # rest"
  by (simp add: quoted_def)

lemma scan_str_quoted: "scan_str (escape s @ CHR 0x22 # rest) = Some (escape s, rest)"
  by (simp add: scan_escape)

lemma parse_print_scalar:
  assumes "printable d g" and "num_end rest" and "0 < n" and "\<forall>vs. g \<noteq> GArr vs" and "\<forall>ms. g \<noteq> GObj ms"
  shows "parse_val n d (print g @ rest) = Some (syntax_of g, rest)"
proof (cases g)
  case (GNum t)
  with assms have t: "parse_num t = Some (t, [])" by simp
  obtain c ys where c: "t = c # ys" "c = CHR ''-'' \<or> is_digit c"
    using parse_num_first [OF t] by blast
  then have "c \<noteq> CHR ''[''" "c \<noteq> CHR ''{''" "c \<noteq> CHR 0x22" "c \<noteq> CHR ''t''" "c \<noteq> CHR ''f''" "c \<noteq> CHR ''n''"
    "\<not> is_ws c"
    by (auto simp: not_digit)
  then show ?thesis
    using parse_num_append [OF t assms(2)] c(1) assms(3) GNum
    by (auto intro!: parse_scalar simp: scalar_def)
qed (use assms in \<open>auto intro!: parse_scalar simp: scalar_def literal_def scan_quoted scan_str_quoted\<close>)

text \<open>The scanner finds the syntax of a printed value, whatever delimiter follows it.\<close>

lemma parse_print_val:
  "printable d g \<Longrightarrow> num_end rest \<Longrightarrow> 2 * length (print g @ rest) + 1 \<le> n \<Longrightarrow>
     parse_val n d (print g @ rest) = Some (syntax_of g, rest)"
  "printable_list d gs \<Longrightarrow> gs \<noteq> [] \<Longrightarrow> 2 * length (print_elems gs @ CHR '']'' # rest) + 2 \<le> n \<Longrightarrow>
     parse_elems n d (print_elems gs @ CHR '']'' # rest) = Some (syntax_list gs, rest)"
  "printable_map d ms \<Longrightarrow> ms \<noteq> [] \<Longrightarrow> 2 * length (print_members ms @ CHR ''}'' # rest) + 1 \<le> n \<Longrightarrow>
     parse_members n d (print_members ms @ CHR ''}'' # rest) = Some (syntax_map ms, rest)"
proof (induction d g and d gs and d ms arbitrary: n rest and n rest and n rest
    rule: printable_printable_list_printable_map.induct)
  case (5 d vs)
  obtain m where n: "n = Suc m" using 5 by (cases n) auto
  show ?case
  proof (cases vs)
    case Nil
    with n 5 show ?thesis by simp
  next
    case (Cons w ws)
    obtain c cs where "print w = c # cs" "\<not> is_ws c" "c \<noteq> CHR '']''"
      using 5 Cons print_first [of "d - 1" w] by auto
    with Cons n 5 show ?thesis by simp
  qed
next
  case (6 d ms)
  obtain m where n: "n = Suc m" using 6 by (cases n) auto
  show ?case
  proof (cases ms)
    case (Cons kv ws)
    with n 6 show ?thesis by (cases kv) (simp add: quoted_def)
  qed (use n 6 in simp)
next
  case (8 d v vs)
  obtain m where n: "n = Suc m" using 8 by (cases n) auto
  show ?case
  proof (cases vs)
    case Nil
    with 8 n show ?thesis by simp
  next
    case (Cons w ws)
    with 8 n show ?thesis by simp
  qed
next
  case (10 d k v ms)
  obtain m where n: "n = Suc m" using 10 by (cases n) auto
  show ?case
  proof (cases ms)
    case Nil
    with 10 n show ?thesis by (simp add: scan_quoted scan_str_quoted)
  next
    case (Cons w ws)
    with 10 n show ?thesis by (simp add: scan_quoted scan_str_quoted)
  qed
qed (simp_all add: parse_print_scalar
    del: print.simps(1-4) syntax_of.simps(1-4) printable.simps(1-4))

text \<open>Printing then reading gives the value back.\<close>

definition decode_text :: "string \<Rightarrow> gvalue option" where
  "decode_text xs = (case Unmarshal xs of None \<Rightarrow> None | Some v \<Rightarrow> decode_any v)"

lemma Unmarshal_print:
  assumes "printable maxNestingDepth g"
  shows "Unmarshal (print g) = Some (syntax_of g)"
proof -
  have "parse_val (fuel_for (print g)) maxNestingDepth (print g @ []) = Some (syntax_of g, [])"
    using assms by (intro parse_print_val) (simp_all add: fuel_for_def)
  then show ?thesis
    by (simp add: Unmarshal_def skip_ws_def)
qed

lemma parse_print:
  "printable maxNestingDepth g \<Longrightarrow> canonical g \<Longrightarrow> decode_text (print g) = Some g"
  using decode_syntax(1) by (simp add: decode_text_def Unmarshal_print)

subsection \<open>Integers\<close>

lemma is_digit_iff: "is_digit c \<longleftrightarrow> digit_val c \<noteq> None"
  by (simp add: is_digit_def digit_val_def byte_def Let_def)

lemma show_nat_is_digit: "c \<in> set (show_nat n) \<Longrightarrow> is_digit c"
  using show_nat_digits by (auto simp: is_digit_iff)

lemma hd_show_nat: "0 < n \<Longrightarrow> hd (show_nat n) \<noteq> CHR ''0''"
proof (induction n rule: show_nat.induct)
  case (1 n)
  show ?case
  proof (cases "n < 10")
    case True
    have "digit_val CHR ''0'' = Some 0"
      by (simp add: digit_val_def)
    with True 1 show ?thesis
      by (subst show_nat.simps) (metis digit_val_digit_char list.sel(1) not_less_zero option.inject)
  next
    case False
    with 1 show ?thesis by (subst show_nat.simps) simp
  qed
qed

lemma num_int_show_nat: "num_int (show_nat n) = Some (show_nat n, [])"
proof (cases "n = 0")
  case True
  have "show_nat 0 = ''0''"
    by code_simp
  with True show ?thesis by (simp add: num_int_def)
next
  case False
  have "takeWhile is_digit (show_nat n) = show_nat n" "dropWhile is_digit (show_nat n) = []"
    using show_nat_is_digit by (auto simp: takeWhile_eq_all_conv dropWhile_eq_Nil_conv)
  then show ?thesis
    using hd_show_nat [of n] False show_nat_is_digit [of "hd (show_nat n)" n]
    by (cases "show_nat n") (auto simp: num_int_def)
qed

lemma parse_num_show_int: "parse_num (show_int i) = Some (show_int i, [])"
proof -
  have nat: "parse_num (show_nat n) = Some (show_nat n, [])" for n
  proof -
    have "hd (show_nat n) \<noteq> CHR ''-''"
      using show_nat_is_digit [of "hd (show_nat n)" n] not_digit by (auto simp: is_digit_def byte_def)
    then show ?thesis
      using num_int_show_nat [of n]
      by (cases "show_nat n") (auto simp: parse_num_def num_frac_def num_exp_def)
  qed
  show ?thesis
    using nat num_int_show_nat [of "nat (- i)"]
    by (simp add: show_int_def parse_num_def num_frac_def num_exp_def)
qed

lemma printable_GInt [simp]: "printable d (GInt i)"
  by (simp add: GInt_def parse_num_show_int)

lemma decode_int_GInt:
  assumes "- (2 ^ (w - 1)) \<le> i" and "i < 2 ^ (w - 1)" and "w \<le> 64"
  shows "decode_int w old (syntax_of (GInt i)) = Some i"
proof -
  have "(2 :: int) ^ (w - 1) \<le> 2 ^ 63"
    using assms(3) by (intro power_increasing) simp_all
  with assms ParseInt_show_int [of i] show ?thesis
    by (simp add: GInt_def decode_int_def)
qed

lemma digits_of_show_nat: "digits_of (show_nat n) = n"
proof (induction n rule: show_nat.induct)
  case (1 n)
  have digit: "byte (digit_char d) = 48 + d" "is_digit (digit_char d)" if "d < 10" for d
    using that by (simp_all add: digit_char_def byte_def is_digit_def)
  show ?case
  proof (cases "n < 10")
    case True
    then show ?thesis by (subst show_nat.simps) (simp add: digits_of_def digit)
  next
    case False
    with 1 show ?thesis by (subst show_nat.simps) (simp add: digits_of_def digit)
  qed
qed

text \<open>No integer of 64 bits overflows a \<open>float64\<close>.\<close>

lemma float_overflow_show_nat: "float_overflow (show_nat n) \<longleftrightarrow> max_float_bound \<le> n"
proof -
  have d: "\<not> is_exp c \<and> c \<noteq> CHR ''.''" if "c \<in> set (show_nat n)" for c
    using show_nat_is_digit [OF that] by (auto simp: is_digit_def is_exp_def byte_def)
  then have parts: "takeWhile (\<lambda>c. \<not> is_exp c) (show_nat n) = show_nat n"
    "dropWhile (\<lambda>c. \<not> is_exp c) (show_nat n) = []" "dropWhile (\<lambda>c. c \<noteq> CHR ''.'') (show_nat n) = []"
    by (auto simp: takeWhile_eq_all_conv dropWhile_eq_Nil_conv)
  have "digits_of [] = 0"
    by (simp add: digits_of_def)
  then show ?thesis
    unfolding float_overflow_def Let_def parts by (simp add: digits_of_show_nat)
qed

lemma canonical_GInt:
  assumes "\<bar>i\<bar> < 2 ^ 64"
  shows "canonical (GInt i)"
proof -
  have big: "n < max_float_bound" if "n < 2 ^ 64" for n
  proof -
    have "(2 :: nat) ^ 970 + 2 ^ 64 \<le> 2 ^ 971"
      by (simp add: power_increasing)
    also have "(2 :: nat) ^ 971 \<le> 2 ^ 1024"
      by (rule power_increasing) simp_all
    finally show ?thesis
      using that by (simp only: max_float_bound_def less_diff_conv)
  qed
  have neg: "float_overflow (CHR ''-'' # show_nat n) = float_overflow (show_nat n)" for n
    by (simp add: float_overflow_def Let_def digits_of_def is_exp_def is_digit_def byte_def)
  show ?thesis
    using big [of "nat \<bar>i\<bar>"] assms
    by (auto simp: GInt_def show_int_def neg float_overflow_show_nat nat_less_iff)
qed

end
