(* ===== verification/Gateway.thy ===== *)
theory Gateway
  imports GoText Complex_Main
begin

section \<open>Identity from the gateway's assertion\<close>

text \<open>
  \<open>internal/gatewayauth/gatewayauth.go\<close>: the middleware in front of every handler. The JWT
  library is a parameter: \<open>jwt_parse raw\<close> is the claims of a token that verifies under the
  options the code passes (ES256, audience \<open>peikon-internal\<close>, expiry required, ten seconds of
  leeway), and \<open>None\<close> when it reports an error. Headers are a map from canonical names to their
  values; \<open>Get\<close> reads the first value and gives the empty string when there is none.
\<close>

subsection \<open>Headers\<close>

type_synonym headers = "string \<Rightarrow> string list"

definition Get :: "headers \<Rightarrow> string \<Rightarrow> string" where
  "Get h k = (case h k of [] \<Rightarrow> [] | v # _ \<Rightarrow> v)"

definition Set :: "string \<Rightarrow> string \<Rightarrow> headers \<Rightarrow> headers" where
  "Set k v h = h(k := [v])"

definition Del :: "string \<Rightarrow> headers \<Rightarrow> headers" where
  "Del k h = h(k := [])"

lemma Get_Set [simp]: "Get (Set k v h) k' = (if k' = k then v else Get h k')"
  by (simp add: Get_def Set_def)

lemma Get_Del [simp]: "Get (Del k h) k' = (if k' = k then [] else Get h k')"
  by (simp add: Get_def Del_def)

subsection \<open>Claims\<close>

text \<open>A decoded claim; a JSON number is a \<open>float64\<close>, here its value.\<close>

datatype claim = CString string | CNumber rat | CArray "claim list" | COther

type_synonym claims = "string \<rightharpoonup> claim"

definition GetSubject :: "claims \<Rightarrow> string option" where
  "GetSubject cl =
     (case cl ''sub'' of None \<Rightarrow> Some [] | Some (CString t) \<Rightarrow> Some t | Some _ \<Rightarrow> None)"

text \<open>
  The conversion \<open>int64(f)\<close> truncates; out of range it gives what amd64 gives, the least
  \<open>int64\<close>.
\<close>

definition trunc_float :: "rat \<Rightarrow> int" where
  "trunc_float q = (if q < 0 then \<lceil>q\<rceil> else \<lfloor>q\<rfloor>)"

definition int64_of_float :: "rat \<Rightarrow> int" where
  "int64_of_float q =
     (if - (2 ^ 63) \<le> trunc_float q \<and> trunc_float q < 2 ^ 63 then trunc_float q else - (2 ^ 63))"

lemma int64_of_float_range: "- (2 ^ 63) \<le> int64_of_float q \<and> int64_of_float q < 2 ^ 63"
  by (simp add: int64_of_float_def)

fun strings_of :: "claim list \<Rightarrow> string list" where
  "strings_of [] = []"
| "strings_of (CString t # cs) = t # strings_of cs"
| "strings_of (_ # cs) = strings_of cs"

definition joinStrings :: "claim option \<Rightarrow> string" where
  "joinStrings v = (case v of Some (CArray arr) \<Rightarrow> join_with '','' (strings_of arr) | _ \<Rightarrow> [])"

subsection \<open>The middleware\<close>

definition assertionHeader :: string where
  "assertionHeader = ''X-Gateway-Assertion''"

definition identityHeaders :: "string list" where
  "identityHeaders = [''X-User-Id'', ''X-User-Roles'', ''X-Session-Id'', ''X-Auth-Amr'', ''X-Auth-Time'']"

text \<open>What the handlers see: the identity headers as the claims say, all other headers as they came.\<close>

definition identify :: "claims \<Rightarrow> string \<Rightarrow> headers \<Rightarrow> headers" where
  "identify cl sub h =
     (let h0 = Del assertionHeader (fold Del identityHeaders h);
          h1 = Set ''X-User-Id'' sub h0;
          h2 = Set ''X-User-Roles'' (joinStrings (cl ''roles'')) h1;
          h3 = Set ''X-Auth-Amr'' (joinStrings (cl ''amr'')) h2;
          h4 = (case cl ''auth_time'' of
                  Some (CNumber t) \<Rightarrow> Set ''X-Auth-Time'' (show_int (int64_of_float t)) h3
                | _ \<Rightarrow> h3)
      in case cl ''sid'' of Some (CString t) \<Rightarrow> Set ''X-Session-Id'' t h4 | _ \<Rightarrow> h4)"

text \<open>\<open>Inl\<close> is a 401 with its detail, \<open>Inr\<close> the headers the next handler is called with.\<close>

definition Middleware :: "(string \<Rightarrow> claims option) \<Rightarrow> string \<Rightarrow> headers \<Rightarrow> string + headers" where
  "Middleware jwt_parse path h =
     (if take (length ''/health/'') path = ''/health/'' then Inr h
      else
        (let raw = Get h assertionHeader in
         if raw = [] then Inl ''missing gateway assertion''
         else
           (case jwt_parse raw of
              None \<Rightarrow> Inl ''invalid gateway assertion''
            | Some cl \<Rightarrow>
                (case GetSubject cl of
                   None \<Rightarrow> Inl ''invalid gateway assertion''
                 | Some sub \<Rightarrow>
                     (if sub = [] then Inl ''invalid gateway assertion'' else Inr (identify cl sub h))))))"

definition agree :: "string set \<Rightarrow> headers \<Rightarrow> headers \<Rightarrow> bool" where
  "agree K h h' \<longleftrightarrow> (\<forall>k \<in> K. h k = h' k)"

lemma agree_Set: "agree K h h' \<Longrightarrow> agree K (Set k v h) (Set k v h')"
  by (simp add: agree_def Set_def)

lemma agree_Del: "agree (K - {k}) h h' \<Longrightarrow> agree K (Del k h) (Del k h')"
  by (simp add: agree_def Del_def)

lemma agree_fold_Del: "agree (K - set ks) h h' \<Longrightarrow> agree K (fold Del ks h) (fold Del ks h')"
proof (induction ks arbitrary: h h' K)
  case (Cons k ks)
  have "K - set (k # ks) = (K - set ks) - {k}" by auto
  with Cons.prems have "agree (K - set ks) (Del k h) (Del k h')"
    by (intro agree_Del) simp
  from Cons.IH [OF this] show ?case by simp
qed simp

lemma identify_agree:
  assumes "agree (K - insert assertionHeader (set identityHeaders)) h h'"
  shows "agree K (identify cl sub h) (identify cl sub h')"
proof -
  have "K - insert assertionHeader (set identityHeaders) = (K - {assertionHeader}) - set identityHeaders"
    by blast
  with assms have "agree K (Del assertionHeader (fold Del identityHeaders h))
      (Del assertionHeader (fold Del identityHeaders h'))"
    by (intro agree_Del agree_fold_Del) simp
  then show ?thesis
    unfolding identify_def Let_def by (auto split: option.split claim.split intro!: agree_Set)
qed

text \<open>The identity headers handlers read do not depend on the ones that came in.\<close>

lemma identify_identity:
  "k \<in> insert assertionHeader (set identityHeaders) \<Longrightarrow> identify cl sub h k = identify cl sub (\<lambda>_. []) k"
  using identify_agree [of "{k}" h "\<lambda>_. []" cl sub] by (simp add: agree_def)

lemma identify_Get:
  "Get (identify cl sub h) ''X-User-Id'' = sub"
  "Get (identify cl sub h) ''X-Auth-Amr'' = joinStrings (cl ''amr'')"
  "Get (identify cl sub h) ''X-Auth-Time'' =
     (case cl ''auth_time'' of Some (CNumber t) \<Rightarrow> show_int (int64_of_float t) | _ \<Rightarrow> [])"
  "Get (identify cl sub h) assertionHeader = []"
  by (auto simp: identify_def identityHeaders_def assertionHeader_def Let_def
      split: option.splits claim.splits)

lemma Middleware_passes:
  assumes "Middleware jwt_parse path h = Inr h'" and "take (length ''/health/'') path \<noteq> ''/health/''"
  obtains cl sub where "jwt_parse (Get h assertionHeader) = Some cl" and "GetSubject cl = Some sub"
    and "sub \<noteq> []" and "h' = identify cl sub h"
  using assms by (auto simp: Middleware_def Let_def split: if_splits option.splits)

end
