(* ===== verification/Http.thy ===== *)
theory Http
  imports JsonPrint Gateway Model
begin

section \<open>Requests, answers and routes\<close>

text \<open>
  What the handlers of \<open>internal/httpapi/server.go\<close> have in common: the request as they see it,
  the answers \<open>writeJSON\<close>, \<open>httpError\<close> and \<open>problem\<close> build, and the routes \<open>Handler\<close> registers.
  The path is the list of its segments, each already unescaped (so a segment may hold a slash);
  \<open>rq_clean\<close> is false for a path with empty, \<open>.\<close> or \<open>..\<close> segments as it was sent, which the
  multiplexer redirects. A body that cannot be read is \<open>None\<close>.
\<close>

subsection \<open>Requests\<close>

record request =
  rq_method :: string
  rq_segments :: "string list"
  rq_clean :: bool
  rq_headers :: headers
  rq_body :: "string option"
  rq_flusher :: bool

definition url_path :: "request \<Rightarrow> string" where
  "url_path rq = concat (map (\<lambda>t. CHR ''/'' # t) (rq_segments rq))"

subsection \<open>Answers\<close>

record response =
  rs_code :: int
  rs_headers :: "(string \<times> string) list"
  rs_body :: string

definition StatusText :: "int \<Rightarrow> string" where
  "StatusText code =
     (if code = 400 then ''Bad Request'' else if code = 401 then ''Unauthorized''
      else if code = 404 then ''Not Found'' else if code = 409 then ''Conflict''
      else if code = 422 then ''Unprocessable Entity''
      else if code = 500 then ''Internal Server Error'' else [])"

definition newline :: char where
  "newline = CHR 0x0A"

definition writeJSON :: "int \<Rightarrow> gvalue \<Rightarrow> response" where
  "writeJSON status v =
     \<lparr>rs_code = status, rs_headers = [(''Content-Type'', ''application/json'')],
      rs_body = print v @ [newline]\<rparr>"

definition problem :: "string \<Rightarrow> gvalue" where
  "problem detail =
     GObj [(''detail'', GStr detail), (''status'', GInt 400), (''title'', GStr ''Bad Request'')]"

definition httpError :: "int \<Rightarrow> string \<Rightarrow> response" where
  "httpError status detail =
     writeJSON status
       (GObj [(''detail'', GStr detail), (''status'', GInt status), (''title'', GStr (StatusText status))])"

text \<open>\<open>Server.fail\<close> logs the error and hides it from the caller.\<close>

definition fail_answer :: response where
  "fail_answer = httpError 500 ''internal error''"

text \<open>\<open>Verifier.reject\<close>: the two details it is called with need no escaping.\<close>

definition reject :: "string \<Rightarrow> response" where
  "reject detail =
     \<lparr>rs_code = 401, rs_headers = [(''Content-Type'', ''application/json'')],
      rs_body = print (GObj [(''title'', GStr ''Unauthorized''), (''status'', GInt 401),
        (''detail'', GStr detail)])\<rparr>"

text \<open>The states of a payment as the columns hold them.\<close>

fun status_text :: "status \<Rightarrow> string" where
  "status_text RequiresAction = ''requires_action''"
| "status_text Processing = ''processing''"
| "status_text Succeeded = ''succeeded''"
| "status_text Failed = ''failed''"
| "status_text Canceled = ''canceled''"
| "status_text Refunded = ''refunded''"

fun step_text :: "saga_step \<Rightarrow> string" where
  "step_text Requested = ''requested''"
| "step_text FraudScreened = ''fraud_screened''"
| "step_text FundsHeld = ''funds_held''"
| "step_text SubmittedToGateway = ''submitted_to_gateway''"
| "step_text PspCaptured = ''psp_captured''"
| "step_text Captured = ''captured''"
| "step_text Recorded = ''recorded''"
| "step_text Notified = ''notified''"
| "step_text Compensating = ''compensating''"
| "step_text Done = ''done''"

subsection \<open>Routes\<close>

text \<open>
  The patterns of \<open>Handler\<close>; \<open>GET\<close> also takes \<open>HEAD\<close>, a wildcard takes one segment that is not
  empty, and a literal segment wins over a wildcard. A path of the service with another method is
  \<open>MethodNotAllowed\<close>.
\<close>

datatype route =
    Live
  | Ready
  | Reconciliation
  | CreatePayment
  | ListInstruments
  | FxQuote
  | ResumePayment string
  | GetPayment string
  | StreamEvents string
  | ListMerchants
  | Redirect
  | NotFound
  | MethodNotAllowed

definition route :: "string \<Rightarrow> string list \<Rightarrow> route" where
  "route meth segs =
     (let get = (meth = ''GET'' \<or> meth = ''HEAD''); post = (meth = ''POST'')
      in case segs of
           [a] \<Rightarrow>
             (if a = ''payments'' then (if post then CreatePayment else MethodNotAllowed) else NotFound)
         | [a, b] \<Rightarrow>
             (if a = ''health'' \<and> b \<in> {''live'', ''ready'', ''reconciliation''} then
                (if \<not> get then MethodNotAllowed
                 else if b = ''live'' then Live else if b = ''ready'' then Ready else Reconciliation)
              else if a = ''payments'' \<and> b \<noteq> [] then
                (if get then
                   (if b = ''instruments'' then ListInstruments
                    else if b = ''merchants'' then ListMerchants else GetPayment b)
                 else if post \<and> b = ''fx-quote'' then FxQuote else MethodNotAllowed)
              else NotFound)
         | [a, b, c] \<Rightarrow>
             (if a = ''payments'' \<and> b \<noteq> [] \<and> c = ''resume'' then
                (if post then ResumePayment b else MethodNotAllowed)
              else if a = ''payments'' \<and> b \<noteq> [] \<and> c = ''events'' then
                (if get then StreamEvents b else MethodNotAllowed)
              else NotFound)
         | _ \<Rightarrow> NotFound)"

definition route_of :: "request \<Rightarrow> route" where
  "route_of rq = (if rq_clean rq then route (rq_method rq) (rq_segments rq) else Redirect)"

text \<open>What the multiplexer itself answers; of these only the code is modelled.\<close>

definition mux_answer :: "int \<Rightarrow> response" where
  "mux_answer code = \<lparr>rs_code = code, rs_headers = [], rs_body = []\<rparr>"

subsection \<open>The health prefix\<close>

text \<open>
  The middleware lets every path under \<open>/health/\<close> pass. No trick with the path reaches another
  handler that way.
\<close>

fun health_route :: "route \<Rightarrow> bool" where
  "health_route Live = True"
| "health_route Ready = True"
| "health_route Reconciliation = True"
| "health_route Redirect = True"
| "health_route NotFound = True"
| "health_route MethodNotAllowed = True"
| "health_route _ = False"

lemma health_route_other:
  assumes "\<And>r. segs \<noteq> ''payments'' # r"
  shows "health_route (route meth segs)"
proof (cases segs)
  case (Cons a r)
  then have a: "(a = ''payments'') = False" using assms by blast
  consider "r = []" | b where "r = [b]" | b c where "r = [b, c]" | b c d t where "r = b # c # d # t"
    by (cases r; cases "tl r"; cases "tl (tl r)") auto
  then show ?thesis
    by cases (simp_all add: route_def Let_def Cons a)
qed (simp add: route_def Let_def)

lemma health_prefix:
  assumes "take (length ''/health/'') (url_path rq) = ''/health/''"
  shows "health_route (route_of rq)"
proof -
  have "rq_segments rq \<noteq> ''payments'' # r" for r
  proof
    assume "rq_segments rq = ''payments'' # r"
    with assms show False by (simp add: url_path_def)
  qed
  from health_route_other [OF this] show ?thesis
    by (simp add: route_of_def)
qed

end
