(* ===== verification/Sha256.thy ===== *)
theory Sha256
  imports JsonPrint "HOL-Library.Word"
begin

unbundle bit_operations_syntax

section \<open>The hash of a request body\<close>

text \<open>
  \<open>HashBody\<close> of \<open>internal/idempotency/idempotency.go\<close>: SHA-256 of the body in hexadecimal. The
  standard's constants are fractional parts of roots of primes and are computed here rather than
  listed. The column that stores the hash has 64 characters, which \<open>HashBody_shape\<close> meets.
\<close>

subsection \<open>Constants\<close>

text \<open>The integer root of an integer, bit by bit: the greatest \<open>r\<close> below \<open>2 ^ b\<close> with \<open>r ^ k \<le> n\<close>.\<close>

fun root_bits :: "nat \<Rightarrow> int \<Rightarrow> nat \<Rightarrow> int \<Rightarrow> int" where
  "root_bits k n 0 r = r"
| "root_bits k n (Suc b) r =
     root_bits k n b (if (r + 2 ^ b) ^ k \<le> n then r + 2 ^ b else r)"

definition first_primes :: "int list" where
  "first_primes =
     filter (\<lambda>p. list_all (\<lambda>d. p mod d \<noteq> 0 \<or> p \<le> d) [2, 3, 5, 7, 11, 13, 17]) (map int [2 ..< 312])"

definition round_constants :: "32 word list" where
  "round_constants = map (\<lambda>p. word_of_int (root_bits 3 (p * 2 ^ 96) 35 0)) first_primes"

definition initial_hash :: "32 word list" where
  "initial_hash = map (\<lambda>p. word_of_int (root_bits 2 (p * 2 ^ 64) 35 0)) (take 8 first_primes)"

subsection \<open>Blocks\<close>

definition be_word :: "nat list \<Rightarrow> 32 word" where
  "be_word bs = word_of_nat (foldl (\<lambda>a b. 256 * a + b) 0 bs)"

definition be_bytes :: "nat \<Rightarrow> nat \<Rightarrow> nat list" where
  "be_bytes k n = map (\<lambda>i. n div 256 ^ i mod 256) (rev [0 ..< k])"

definition padded :: "nat list \<Rightarrow> nat list" where
  "padded m = m @ 128 # replicate ((119 - length m mod 64) mod 64) 0 @ be_bytes 8 (8 * length m)"

fun chunks :: "nat \<Rightarrow> nat \<Rightarrow> 'a list \<Rightarrow> 'a list list" where
  "chunks 0 k xs = []"
| "chunks (Suc n) k xs = take k xs # chunks n k (drop k xs)"

subsection \<open>Compression\<close>

definition ror :: "nat \<Rightarrow> 32 word \<Rightarrow> 32 word" where
  "ror n x = (drop_bit n x) OR (push_bit (32 - n) x)"

definition mix :: "nat \<Rightarrow> nat \<Rightarrow> 32 word \<Rightarrow> 32 word \<Rightarrow> 32 word" where
  "mix i j z x = ror i x XOR ror j x XOR z"

fun extend_schedule :: "nat \<Rightarrow> 32 word list \<Rightarrow> 32 word list" where
  "extend_schedule 0 ws = ws"
| "extend_schedule (Suc n) ws =
     (let k = length ws; x = ws ! (k - 15); y = ws ! (k - 2)
      in extend_schedule n (ws @
        [ws ! (k - 16) + mix 7 18 (drop_bit 3 x) x + ws ! (k - 7) + mix 17 19 (drop_bit 10 y) y]))"

fun compress_round :: "32 word \<times> 32 word \<Rightarrow> 32 word list \<Rightarrow> 32 word list" where
  "compress_round (k, w) [a, b, c, d, e, f, g, h] =
     (let t = h + mix 6 11 (ror 25 e) e + ((e AND f) XOR (NOT e AND g)) + k + w;
          u = mix 2 13 (ror 22 a) a + ((a AND b) XOR (a AND c) XOR (b AND c))
      in [t + u, a, b, c, d + t, e, f, g])"
| "compress_round _ st = st"

definition compress :: "nat list \<Rightarrow> 32 word list \<Rightarrow> 32 word list" where
  "compress block st =
     map2 (+) st
       (fold compress_round (zip round_constants (extend_schedule 48 (map be_word (chunks 16 4 block)))) st)"

definition Sum256 :: "nat list \<Rightarrow> nat list" where
  "Sum256 m =
     concat (map (\<lambda>w. be_bytes 4 (unat w))
       (fold compress (chunks (length (padded m) div 64) 64 (padded m)) initial_hash))"

definition hex_byte :: "nat \<Rightarrow> string" where
  "hex_byte b = [hex_digit (b div 16 mod 16), hex_digit (b mod 16)]"

definition HashBody :: "string \<Rightarrow> string" where
  "HashBody body = concat (map hex_byte (Sum256 (map byte body)))"

subsection \<open>The shape of a hash\<close>

lemma length_compress_round: "length st = 8 \<Longrightarrow> length (compress_round kw st) = 8"
  by (cases "(kw, st)" rule: compress_round.cases) (simp_all add: Let_def)

lemma length_compress_rounds: "length st = 8 \<Longrightarrow> length (fold compress_round kws st) = 8"
  by (induction kws arbitrary: st) (simp_all add: length_compress_round)

lemma length_compress: "length st = 8 \<Longrightarrow> length (fold compress blocks st) = 8"
  by (induction blocks arbitrary: st) (simp_all add: compress_def length_compress_rounds)

lemma eight_primes: "length (take 8 first_primes) = 8"
  by code_simp

lemma length_initial_hash: "length initial_hash = 8"
  unfolding initial_hash_def length_map by (rule eight_primes)

lemma length_be_bytes: "length (be_bytes k n) = k"
  by (simp add: be_bytes_def)

lemma length_concat_const: "\<forall>x \<in> set xs. length (f x) = k \<Longrightarrow> length (concat (map f xs)) = k * length xs"
  by (induction xs) simp_all

lemma length_Sum256: "length (Sum256 m) = 32"
  using length_compress [OF length_initial_hash]
  by (simp add: Sum256_def length_concat_const [where k = 4] length_be_bytes)

definition hex_chars :: "char set" where
  "hex_chars = set ''0123456789abcdef''"

lemma hex_digit_range: "n < 16 \<Longrightarrow> hex_digit n \<in> hex_chars"
proof -
  assume "n < 16"
  then have "n \<in> set [0 ..< 16]" by simp
  moreover have "\<forall>n \<in> set [0 ..< 16]. hex_digit n \<in> hex_chars" by code_simp
  ultimately show ?thesis by blast
qed

lemma hex_byte_range: "set (hex_byte b) \<subseteq> hex_chars"
  by (simp add: hex_byte_def hex_digit_range)

lemma padded_blocks: "64 dvd length (padded m)"
proof -
  define k where "k = length m mod 64"
  have "k < 64" by (simp add: k_def)
  have "(k + (9 + (119 - k) mod 64)) mod 64 = 0"
  proof (cases "k \<le> 55")
    case True
    then have "119 - k = 55 - k + 64" by arith
    then have "(119 - k) mod 64 = 55 - k"
      by (simp only: mod_add_self2) simp
    with True show ?thesis by simp
  next
    case False
    with \<open>k < 64\<close> show ?thesis by simp
  qed
  then have "(length m + (9 + (119 - k) mod 64)) mod 64 = 0"
    using mod_add_left_eq [of "length m" 64 "9 + (119 - k) mod 64"] by (simp only: k_def)
  then show ?thesis
    by (simp add: padded_def length_be_bytes dvd_eq_mod_eq_0 flip: k_def)
qed

lemma HashBody_shape: "length (HashBody body) = 64 \<and> set (HashBody body) \<subseteq> hex_chars"
proof
  show "length (HashBody body) = 64"
    by (simp add: HashBody_def length_concat_const [where k = 2] hex_byte_def length_Sum256)
  show "set (HashBody body) \<subseteq> hex_chars"
    using hex_byte_range by (auto simp only: HashBody_def set_concat set_map)
qed

end
