(* ===== verification/GoTime.thy ===== *)
theory GoTime
  imports GoText Model "HOL-Library.Monad_Syntax"
begin

section \<open>RFC 3339 timestamps\<close>

text \<open>
  What the service uses of Go's \<open>time\<close>: \<open>time.Parse(time.RFC3339, s)\<close>, which \<open>encoding/json\<close>
  uses for a \<open>time.Time\<close> as well, and \<open>Format\<close> in UTC with the layouts \<open>RFC3339\<close> and
  \<open>RFC3339Nano\<close>. An instant is in nanoseconds since 1970, the calendar is the proleptic Gregorian
  one. Go's parser is lenient: one digit is enough for the hour, a comma may stand before the
  fraction, an offset may be 24 hours or 60 minutes. Parsing a formatted instant gives it back.
\<close>

subsection \<open>The calendar\<close>

definition leap :: "int \<Rightarrow> bool" where
  "leap y \<longleftrightarrow> y mod 4 = 0 \<and> (y mod 100 \<noteq> 0 \<or> y mod 400 = 0)"

definition month_lengths :: "int \<Rightarrow> nat list" where
  "month_lengths y = [31, if leap y then 29 else 28, 31, 30, 31, 30, 31, 31, 30, 31, 30, 31]"

text \<open>Days from the first of January of the year 1.\<close>

definition days_before_year :: "int \<Rightarrow> int" where
  "days_before_year y = 365 * (y - 1) + (y - 1) div 4 - (y - 1) div 100 + (y - 1) div 400"

definition days_before_month :: "int \<Rightarrow> nat \<Rightarrow> nat" where
  "days_before_month y m = sum_list (take (m - 1) (month_lengths y))"

definition epoch_day :: int where
  "epoch_day = 719162"

definition date_days :: "int \<Rightarrow> nat \<Rightarrow> nat \<Rightarrow> int" where
  "date_days y m d = days_before_year y + int (days_before_month y m) + int d - 1 - epoch_day"

definition year_of :: "int \<Rightarrow> int" where
  "year_of n = (let y = n * 400 div 146097 + 1 in if days_before_year (y + 1) \<le> n then y + 1 else y)"

fun split_month :: "nat list \<Rightarrow> nat \<Rightarrow> nat \<times> nat" where
  "split_month [] d = (0, d)"
| "split_month (l # ls) d =
     (if d < l then (0, d) else (case split_month ls (d - l) of (m, r) \<Rightarrow> (Suc m, r)))"

text \<open>Year, month and day of a day counted from 1970.\<close>

definition civil :: "int \<Rightarrow> int \<times> nat \<times> nat" where
  "civil day =
     (let n = day + epoch_day; y = year_of n
      in case split_month (month_lengths y) (nat (n - days_before_year y)) of (m, d) \<Rightarrow> (y, m + 1, d + 1))"

lemma epoch_day_check: "days_before_year 1970 = epoch_day"
  by (simp add: days_before_year_def epoch_day_def)

lemma div_bounds: "0 < k \<Longrightarrow> k * (a div k) \<le> a \<and> a < k * (a div k) + k" for a k :: int
  by (metis add_left_mono mult_div_mod_eq pos_mod_bound pos_mod_sign add_le_cancel_left le_add_same_cancel1 add_strict_left_mono)

lemma year_of_bounds: "days_before_year (year_of n) \<le> n" "n < days_before_year (year_of n + 1)"
proof -
  define k where "k = n * 400 div 146097"
  have k: "146097 * k \<le> n * 400" "n * 400 < 146097 * k + 146097"
    using div_bounds [of 146097 "n * 400"] by (simp_all add: k_def)
  have low: "days_before_year (j + 1) * 400 \<le> 146097 * j + 396" for j
    using div_bounds [of 4 j] div_bounds [of 100 j] div_bounds [of 400 j]
    by (simp add: days_before_year_def)
  have high: "146097 * j \<le> days_before_year (j + 1) * 400 + 699" for j
    using div_bounds [of 4 j] div_bounds [of 100 j] div_bounds [of 400 j]
    by (simp add: days_before_year_def)
  show "days_before_year (year_of n) \<le> n"
    using low [of k] k by (auto simp: year_of_def Let_def k_def [symmetric])
  show "n < days_before_year (year_of n + 1)"
    using high [of "k + 2"] k
    by (auto simp: year_of_def Let_def k_def [symmetric] add.commute)
qed

lemma year_length: "days_before_year (y + 1) - days_before_year y = int (sum_list (month_lengths y))"
proof -
  have step: "y div k - (y - 1) div k = (if y mod k = 0 then 1 else 0)" if "0 < k" for k
  proof -
    have y: "k * (y div k) + y mod k = y" "0 \<le> y mod k" "y mod k < k"
      using that by simp_all
    show ?thesis
    proof (cases "y mod k = 0")
      case True
      with y that have "(y - 1) div k = y div k - 1"
        by (intro int_div_pos_eq [where r = "k - 1"]) (auto simp: algebra_simps)
      with True show ?thesis by simp
    next
      case False
      with y have "(y - 1) div k = y div k"
        by (intro int_div_pos_eq [where r = "y mod k - 1"]) auto
      with False show ?thesis by simp
    qed
  qed
  have "days_before_year (y + 1) - days_before_year y = 365 + (y div 4 - (y - 1) div 4)
      - (y div 100 - (y - 1) div 100) + (y div 400 - (y - 1) div 400)"
    by (simp add: days_before_year_def)
  also have "\<dots> = 365 + (if y mod 4 = 0 then 1 else 0) - (if y mod 100 = 0 then 1 else 0)
      + (if y mod 400 = 0 then 1 else 0)"
    by (simp only: step)
  also have "\<dots> = (if leap y then 366 else 365)"
  proof -
    have "y mod 400 mod 100 = y mod 100" "y mod 100 mod 4 = y mod 4"
      by (rule mod_mod_cancel; simp)+
    then show ?thesis
      by (cases "y mod 400 = 0"; cases "y mod 100 = 0"; cases "y mod 4 = 0") (simp_all add: leap_def)
  qed
  finally show ?thesis
    by (simp add: month_lengths_def)
qed

lemma split_month_spec:
  assumes "d < sum_list ls" and "split_month ls d = (m, r)"
  shows "m < length ls" and "r < ls ! m" and "sum_list (take m ls) + r = d"
proof -
  have "m < length ls \<and> r < ls ! m \<and> sum_list (take m ls) + r = d"
    using assms
  proof (induction ls d arbitrary: m r rule: split_month.induct)
    case (2 l ls d)
    show ?case
    proof (cases "d < l")
      case False
      obtain m' r' where "split_month ls (d - l) = (m', r')" by fastforce
      with 2 False show ?thesis by (auto simp: less_diff_conv2)
    qed (use 2 in auto)
  qed simp
  then show "m < length ls" and "r < ls ! m" and "sum_list (take m ls) + r = d"
    by blast+
qed

lemma length_month_lengths [simp]: "length (month_lengths y) = 12"
  by (simp add: month_lengths_def)

text \<open>The calendar date of a day, and back.\<close>

lemma civil_date_days:
  assumes "civil day = (y, m, d)"
  shows "date_days y m d = day" and "1 \<le> m" and "m \<le> 12" and "1 \<le> d" and "d \<le> month_lengths y ! (m - 1)"
    and "y = year_of (day + epoch_day)"
proof -
  let ?n = "day + epoch_day"
  let ?k = "nat (?n - days_before_year y)"
  from assms have y: "y = year_of ?n"
    by (auto simp: civil_def Let_def split: prod.splits)
  obtain m' d' where split: "split_month (month_lengths y) ?k = (m', d')" and m: "m = m' + 1" "d = d' + 1"
    using assms y by (auto simp: civil_def Let_def split: prod.splits)
  have bounds: "days_before_year y \<le> ?n" "?n < days_before_year (y + 1)"
    using year_of_bounds [of ?n] y by simp_all
  then have "?k < sum_list (month_lengths y)"
    using year_length [of y] by linarith
  note spec = split_month_spec [OF this split]
  show "y = year_of ?n" "1 \<le> m" "m \<le> 12" "1 \<le> d" "d \<le> month_lengths y ! (m - 1)"
    using y m spec by simp_all
  show "date_days y m d = day"
    using bounds m spec(3) by (simp add: date_days_def days_before_month_def)
qed

subsection \<open>Parsing\<close>

text \<open>Readers take a piece off the front of the text, or fail.\<close>

definition lit :: "char \<Rightarrow> string \<Rightarrow> string option" where
  "lit c xs = (case xs of [] \<Rightarrow> None | d # r \<Rightarrow> (if d = c then Some r else None))"

definition fixed_num :: "nat \<Rightarrow> string \<Rightarrow> (nat \<times> string) option" where
  "fixed_num w xs =
     (if length xs < w then None
      else map_option (\<lambda>n. (n, drop w xs)) (parse_digits 0 (take w xs)))"

definition hour_num :: "string \<Rightarrow> (nat \<times> string) option" where
  "hour_num xs = (case fixed_num 2 xs of Some r \<Rightarrow> Some r | None \<Rightarrow> fixed_num 1 xs)"

definition is_dec :: "char \<Rightarrow> bool" where
  "is_dec c \<longleftrightarrow> digit_val c \<noteq> None"

text \<open>The fraction of a second in nanoseconds: nothing after the ninth digit counts.\<close>

definition frac_num :: "string \<Rightarrow> nat \<times> string" where
  "frac_num xs =
     (case xs of
        c # d # r \<Rightarrow>
          (if (c = CHR ''.'' \<or> c = CHR '','') \<and> is_dec d then
             (let ds = take 9 (takeWhile is_dec (d # r))
              in (the (parse_digits 0 ds) * 10 ^ (9 - length ds), dropWhile is_dec (d # r)))
           else (0, xs))
      | _ \<Rightarrow> (0, xs))"

text \<open>The offset from UTC in seconds.\<close>

definition zone_num :: "string \<Rightarrow> (int \<times> string) option" where
  "zone_num xs =
     (case xs of
        [] \<Rightarrow> None
      | c # r \<Rightarrow>
          (if c = CHR ''Z'' then Some (0, r)
           else if c = CHR ''+'' \<or> c = CHR ''-'' then
             do {
               (hr, r1) \<leftarrow> fixed_num 2 r;
               r2 \<leftarrow> lit CHR '':'' r1;
               (mn, r3) \<leftarrow> fixed_num 2 r2;
               if hr \<le> 24 \<and> mn \<le> 60
               then Some ((if c = CHR ''-'' then - 1 else 1) * int (hr * 3600 + mn * 60), r3)
               else None
             }
           else None))"

definition Parse_RFC3339 :: "string \<Rightarrow> time option" where
  "Parse_RFC3339 xs =
     do {
       (y, r) \<leftarrow> fixed_num 4 xs; r \<leftarrow> lit CHR ''-'' r;
       (mo, r) \<leftarrow> fixed_num 2 r; r \<leftarrow> lit CHR ''-'' r;
       (d, r) \<leftarrow> fixed_num 2 r; r \<leftarrow> lit CHR ''T'' r;
       (h, r) \<leftarrow> hour_num r; r \<leftarrow> lit CHR '':'' r;
       (mi, r) \<leftarrow> fixed_num 2 r; r \<leftarrow> lit CHR '':'' r;
       (s, r) \<leftarrow> fixed_num 2 r;
       (ns, r) \<leftarrow> Some (frac_num r);
       (z, r) \<leftarrow> zone_num r;
       if r = [] \<and> 1 \<le> mo \<and> mo \<le> 12 \<and> h < 24 \<and> mi < 60 \<and> s < 60
         \<and> 1 \<le> d \<and> d \<le> month_lengths (int y) ! (mo - 1)
       then Some ((date_days (int y) mo d * 86400 + int (h * 3600 + mi * 60 + s) - z) * 1000000000 + int ns)
       else None
     }"

subsection \<open>Formatting in UTC\<close>

fun pad :: "nat \<Rightarrow> nat \<Rightarrow> string" where
  "pad 0 n = []"
| "pad (Suc w) n = pad w (n div 10) @ [digit_char (n mod 10)]"

definition format_date_time :: "int \<Rightarrow> string" where
  "format_date_time sec =
     (case civil (sec div 86400) of (y, m, d) \<Rightarrow>
        (let t = nat (sec mod 86400)
         in pad 4 (nat y) @ ''-'' @ pad 2 m @ ''-'' @ pad 2 d @ ''T'' @ pad 2 (t div 3600) @ '':''
              @ pad 2 (t div 60 mod 60) @ '':'' @ pad 2 (t mod 60)))"

definition strip_zeros :: "string \<Rightarrow> string" where
  "strip_zeros ds = rev (dropWhile (\<lambda>c. c = CHR ''0'') (rev ds))"

definition format_frac :: "nat \<Rightarrow> string" where
  "format_frac ns = (if ns = 0 then [] else CHR ''.'' # strip_zeros (pad 9 ns))"

definition Format_RFC3339Nano :: "time \<Rightarrow> string" where
  "Format_RFC3339Nano t =
     format_date_time (t div 1000000000) @ format_frac (nat (t mod 1000000000)) @ ''Z''"

definition Format_RFC3339 :: "time \<Rightarrow> string" where
  "Format_RFC3339 t = format_date_time (t div 1000000000) @ ''Z''"

text \<open>The instants of the years from 0 to 9999, which four digits can show.\<close>

definition four_digit_year :: "time \<Rightarrow> bool" where
  "four_digit_year t \<longleftrightarrow>
     0 \<le> year_of (t div 1000000000 div 86400 + epoch_day) \<and> year_of (t div 1000000000 div 86400 + epoch_day) \<le> 9999"

subsection \<open>Parsing a formatted instant\<close>

lemma length_pad [simp]: "length (pad w n) = w"
  by (induction w n rule: pad.induct) simp_all

lemma parse_digits_pad: "parse_digits 0 (pad w n) = Some (n mod 10 ^ w)"
proof (induction w n rule: pad.induct)
  case (2 w n)
  have "n mod (10 ^ Suc w) = 10 * (n div 10 mod 10 ^ w) + n mod 10"
    by (simp add: mod_mult2_eq)
  with 2 show ?case by (simp add: parse_digits_append)
qed simp

lemma pad_digits: "c \<in> set (pad w n) \<Longrightarrow> is_dec c"
  by (induction w n rule: pad.induct) (auto simp: is_dec_def)

lemma fixed_num_pad: "n < 10 ^ w \<Longrightarrow> fixed_num w (pad w n @ r) = Some (n, r)"
  by (simp add: fixed_num_def parse_digits_pad)

lemma hour_num_pad: "n < 100 \<Longrightarrow> hour_num (pad 2 n @ r) = Some (n, r)"
  by (simp add: hour_num_def fixed_num_pad)

lemma lit_same [simp]: "lit c (c # r) = Some r"
  by (simp add: lit_def)

lemma strip_zeros_split: "\<exists>k. ds = strip_zeros ds @ replicate k CHR ''0''"
proof -
  let ?P = "\<lambda>c. c = CHR ''0''"
  have "takeWhile ?P (rev ds) = replicate (length (takeWhile ?P (rev ds))) CHR ''0''"
    by (intro replicate_eqI) (auto dest: set_takeWhileD)
  then have "rev ds = replicate (length (takeWhile ?P (rev ds))) CHR ''0'' @ dropWhile ?P (rev ds)"
    by (metis takeWhile_dropWhile_id)
  then have "ds = rev (dropWhile ?P (rev ds)) @ replicate (length (takeWhile ?P (rev ds))) CHR ''0''"
    by (metis rev_append rev_replicate rev_rev_ident)
  then show ?thesis
    unfolding strip_zeros_def by blast
qed

lemma parse_digits_zeros: "parse_digits a (replicate k CHR ''0'') = Some (a * 10 ^ k)"
  by (induction k arbitrary: a) (simp_all add: digit_val_def)

lemma frac_num_Cons:
  "is_dec d \<Longrightarrow> frac_num (CHR ''.'' # d # r) =
     (let ds = take 9 (takeWhile is_dec (d # r))
      in (the (parse_digits 0 ds) * 10 ^ (9 - length ds), dropWhile is_dec (d # r)))"
  unfolding frac_num_def by (simp del: takeWhile.simps dropWhile.simps take_Cons')

lemma frac_num_format:
  assumes "0 < ns" and "ns < 10 ^ 9"
  shows "frac_num (format_frac ns @ ''Z'') = (ns, ''Z'')"
proof -
  let ?s = "strip_zeros (pad 9 ns)"
  obtain k where k: "pad 9 ns = ?s @ replicate k CHR ''0''"
    using strip_zeros_split by blast
  have "parse_digits 0 (?s @ replicate k CHR ''0'') = Some ns"
    using assms(2) parse_digits_pad [of 9 ns] k by simp
  then obtain v where v: "parse_digits 0 ?s = Some v" "v * 10 ^ k = ns"
    by (auto simp: parse_digits_append parse_digits_zeros split: option.splits)
  have len: "length ?s + k = 9"
    using arg_cong [OF k, of length] by simp
  have digits: "\<forall>c \<in> set ?s. is_dec c"
    using pad_digits [of _ 9 ns] k by (metis Un_iff set_append)
  have "?s \<noteq> []"
    using v assms(1) by (metis mult_zero_left nat_less_le option.inject parse_digits.simps(1))
  then obtain d r where d: "?s = d # r" by (cases ?s) auto
  have take: "takeWhile is_dec (?s @ ''Z'') = ?s" "dropWhile is_dec (?s @ ''Z'') = ''Z''"
    using digits by (auto simp: takeWhile_append2 dropWhile_append2 is_dec_def digit_val_def)
  have "9 - length ?s = k" "length ?s \<le> 9"
    using len by simp_all
  have "frac_num (CHR ''.'' # ?s @ ''Z'') =
      (let ds = take 9 (takeWhile is_dec (?s @ ''Z''))
       in (the (parse_digits 0 ds) * 10 ^ (9 - length ds), dropWhile is_dec (?s @ ''Z'')))"
    unfolding d append_Cons by (rule frac_num_Cons) (use d digits in simp)
  also have "\<dots> = (ns, ''Z'')"
    using take v \<open>9 - length ?s = k\<close> \<open>length ?s \<le> 9\<close> by simp
  finally show ?thesis
    using assms(1) by (simp add: format_frac_def)
qed

lemma frac_num_none: "frac_num ''Z'' = (0, ''Z'')"
  by (simp add: frac_num_def)

lemma nat_time_parts:
  fixes t :: nat
  shows "t div 3600 * 3600 + t div 60 mod 60 * 60 + t mod 60 = t"
proof -
  have "t div 3600 = t div 60 div 60"
    by (simp add: div_mult2_eq [symmetric])
  moreover have "t div 60 div 60 * 60 + t div 60 mod 60 = t div 60" "t div 60 * 60 + t mod 60 = t"
    by simp_all
  ultimately show ?thesis by linarith
qed

text \<open>A date and time in four-digit years reads back, whatever fraction and zone follow.\<close>

lemma Parse_format_date_time:
  assumes "0 \<le> year_of (sec div 86400 + epoch_day)" and "year_of (sec div 86400 + epoch_day) \<le> 9999"
    and "frac_num rest = (ns, ''Z'')"
  shows "Parse_RFC3339 (format_date_time sec @ rest) = Some (sec * 1000000000 + int ns)"
proof -
  obtain y m d where c: "civil (sec div 86400) = (y, m, d)"
    by (metis prod_cases3)
  note date = civil_date_days [OF c]
  have "month_lengths y ! (m - 1) < 100"
    using date(2,3) by (auto simp: month_lengths_def nth_Cons' split: if_splits)
  then have d: "d < 100"
    using date(5) by simp
  have y: "nat y < 10 ^ 4" "int (nat y) = y"
    using assms date(6) by auto
  define t where "t = nat (sec mod 86400)"
  have t: "t < 86400" "int t = sec mod 86400"
    by (simp_all add: t_def nat_less_iff)
  have h: "t div 3600 < 24" "t div 60 mod 60 < 60" "t mod 60 < 60"
    using t by (simp_all add: less_mult_imp_div_less)
  have "Parse_RFC3339 (format_date_time sec @ rest) =
      Some ((date_days y m d * 86400 + int (t div 3600 * 3600 + t div 60 mod 60 * 60 + t mod 60)) * 1000000000 + int ns)"
    using c y d h date(2-5) assms(3)
    by (simp add: Parse_RFC3339_def format_date_time_def t_def [symmetric] Let_def fixed_num_pad
        hour_num_pad zone_num_def)
  also have "date_days y m d * 86400 + int (t div 3600 * 3600 + t div 60 mod 60 * 60 + t mod 60) = sec"
    unfolding nat_time_parts t(2) date(1) by simp
  finally show ?thesis .
qed

lemma Parse_Format_Nano:
  assumes "four_digit_year t"
  shows "Parse_RFC3339 (Format_RFC3339Nano t) = Some t"
proof -
  let ?ns = "nat (t mod 1000000000)"
  have ns: "int ?ns = t mod 1000000000" "?ns < 10 ^ 9"
    by (simp_all add: nat_less_iff)
  have "frac_num (format_frac ?ns @ ''Z'') = (?ns, ''Z'')"
    using frac_num_format [of ?ns] ns(2) by (cases "?ns = 0") (auto simp: format_frac_def frac_num_none)
  from Parse_format_date_time [OF _ _ this, of "t div 1000000000"] assms ns(1) show ?thesis
    by (simp add: Format_RFC3339Nano_def four_digit_year_def)
qed

lemma Parse_Format:
  assumes "four_digit_year t"
  shows "Parse_RFC3339 (Format_RFC3339 t) = Some (t div 1000000000 * 1000000000)"
  using Parse_format_date_time [OF _ _ frac_num_none, of "t div 1000000000"] assms
  by (simp add: Format_RFC3339_def four_digit_year_def)

end
