(* ===== verification/Idempotency.thy ===== *)
theory Idempotency
  imports Store
begin

section \<open>Idempotency keys\<close>

text \<open>
  \<open>internal/idempotency/idempotency.go\<close> on the table \<open>idempotency_keys\<close> (primary key
  \<open>(user_id, key)\<close>): \<open>Begin\<close> claims a key, replays a stored response, or refuses; \<open>Complete\<close>
  stores the response; \<open>Purge\<close> drops keys past their lifetime. The abstract specification is
  one small state machine per key, \<open>key_state\<close>: unused, claimed since some time, or completed
  with its response. The locale \<open>claim_store\<close> is what a caller relies on.
\<close>

subsection \<open>The operations\<close>

datatype begin_error = ErrPayloadMismatch | ErrInFlight | BeginFailed go_error

record replay =
  Code :: int
  Body :: string

definition keyTTL :: duration where
  "keyTTL = seconds (24 * 60 * 60)"

definition lockLease :: duration where
  "lockLease = seconds (2 * 60)"

definition key_is :: "uuid \<Rightarrow> string \<Rightarrow> idem_row \<Rightarrow> bool" where
  "key_is u k r \<longleftrightarrow> ik_user_id r = u \<and> ik_key r = k"

definition claim_insert :: "uuid \<Rightarrow> string \<Rightarrow> string \<Rightarrow> time \<Rightarrow> database \<Rightarrow> nat \<times> database" where
  "claim_insert u k h now d =
     (if sql_exists (key_is u k) (idempotency_keys d) then (0, d)
      else (1, d\<lparr>idempotency_keys := idempotency_keys d @
          [\<lparr>ik_key = k, ik_user_id = u, ik_request_hash = h, ik_response_code = None,
            ik_response_body = [], ik_locked_at = Some now, ik_created_at = now\<rparr>]\<rparr>))"

definition lease_expired :: "time \<Rightarrow> idem_row \<Rightarrow> bool" where
  "lease_expired now r \<longleftrightarrow> (case ik_locked_at r of None \<Rightarrow> False | Some t \<Rightarrow> t < now - lockLease)"

definition update_keys :: "(idem_row \<Rightarrow> bool) \<Rightarrow> (idem_row \<Rightarrow> idem_row) \<Rightarrow> database \<Rightarrow> nat \<times> database" where
  "update_keys P f d =
     (case sql_update P f (idempotency_keys d) of (n, rows) \<Rightarrow> (n, d\<lparr>idempotency_keys := rows\<rparr>))"

definition lease_takeover :: "uuid \<Rightarrow> string \<Rightarrow> time \<Rightarrow> database \<Rightarrow> nat \<times> database" where
  "lease_takeover u k now =
     update_keys (\<lambda>r. key_is u k r \<and> ik_response_code r = None \<and> lease_expired now r)
       (\<lambda>r. r\<lparr>ik_locked_at := Some now\<rparr>)"

definition Begin :: "'w env \<Rightarrow> uuid \<Rightarrow> string \<Rightarrow> string \<Rightarrow> 'w sys \<Rightarrow> (begin_error + replay option) \<times> 'w sys" where
  "Begin env u k requestHash s =
     (case pool_exec env (claim_insert u k requestHash) s of
        (Inl e, s1) \<Rightarrow> (Inl (BeginFailed e), s1)
      | (Inr n, s1) \<Rightarrow>
          (if n = 1 then (Inr None, s1)
           else
             (case ask (db_read env) s1 of (ok, s2) \<Rightarrow>
                (if \<not> ok then (Inl (BeginFailed DbError), s2)
                 else
                   (case sql_select_one (key_is u k) (idempotency_keys (db s2)) of
                      None \<Rightarrow> (Inl ErrInFlight, s2)
                    | Some r \<Rightarrow>
                        (if ik_request_hash r \<noteq> requestHash then (Inl ErrPayloadMismatch, s2)
                         else
                           (case ik_response_code r of
                              None \<Rightarrow>
                                (case pool_exec env (lease_takeover u k) s2 of
                                   (Inl e, s3) \<Rightarrow> (Inl (BeginFailed e), s3)
                                 | (Inr m, s3) \<Rightarrow>
                                     (if m = 1 then (Inr None, s3) else (Inl ErrInFlight, s3)))
                            | Some c \<Rightarrow>
                                (Inr (Some \<lparr>Code = c, Body = ik_response_body r\<rparr>), s2))))))))"

definition Complete :: "'w env \<Rightarrow> uuid \<Rightarrow> string \<Rightarrow> int \<Rightarrow> string \<Rightarrow> 'w sys \<Rightarrow> go_error option \<times> 'w sys" where
  "Complete env u k code body s =
     (case pool_exec env (\<lambda>_. update_keys (key_is u k)
             (\<lambda>r. r\<lparr>ik_response_code := Some code, ik_response_body := jsonb_norm env body,
                    ik_locked_at := None\<rparr>)) s of
        (Inl e, s1) \<Rightarrow> (Some e, s1)
      | (Inr _, s1) \<Rightarrow> (None, s1))"

definition purge_keys :: "time \<Rightarrow> database \<Rightarrow> nat \<times> database" where
  "purge_keys now d =
     (case sql_delete (\<lambda>r. ik_created_at r < now - keyTTL) (idempotency_keys d) of
        (n, rows) \<Rightarrow> (n, d\<lparr>idempotency_keys := rows\<rparr>))"

definition Purge :: "'w env \<Rightarrow> 'w sys \<Rightarrow> (go_error + nat) \<times> 'w sys" where
  "Purge env s = pool_exec env purge_keys s"

subsection \<open>The state of a key\<close>

datatype key_state =
    Unused
  | Claimed string time
  | Completed string int string

fun state_of_row :: "idem_row option \<Rightarrow> key_state" where
  "state_of_row None = Unused"
| "state_of_row (Some r) =
     (case ik_response_code r of
        Some c \<Rightarrow> Completed (ik_request_hash r) c (ik_response_body r)
      | None \<Rightarrow> Claimed (ik_request_hash r) (case ik_locked_at r of Some t \<Rightarrow> t | None \<Rightarrow> 0))"

definition key_row :: "uuid \<Rightarrow> string \<Rightarrow> 'w sys \<Rightarrow> idem_row option" where
  "key_row u k s = sql_select_one (key_is u k) (idempotency_keys (db s))"

definition state_of_key :: "uuid \<Rightarrow> string \<Rightarrow> 'w sys \<Rightarrow> key_state" where
  "state_of_key u k s = state_of_row (key_row u k s)"

text \<open>The steps a key may take; \<open>now\<close> is the database's time.\<close>

inductive key_step :: "key_state \<Rightarrow> key_state \<Rightarrow> bool" where
  claim: "key_step Unused (Claimed h now)"
| takeover: "t < now - lockLease \<Longrightarrow> key_step (Claimed h t) (Claimed h now)"
| complete: "key_step (Claimed h t) (Completed h c b)"
| recomplete: "key_step (Completed h c b) (Completed h c' b')"
| purge: "key_step x Unused"

inductive_cases completed_step: "key_step (Completed h c b) x"

text \<open>
  The table: one row per user and key, as its primary key demands, and every row without a
  response is locked.
\<close>

definition keys_ok :: "'w sys \<Rightarrow> bool" where
  "keys_ok s \<longleftrightarrow>
     distinct (map (\<lambda>r. (ik_user_id r, ik_key r)) (idempotency_keys (db s)))
   \<and> (\<forall>r \<in> set (idempotency_keys (db s)). ik_response_code r = None \<longrightarrow> ik_locked_at r \<noteq> None)"

text \<open>What one call of \<open>Begin\<close> with the hash \<open>h\<close> may answer and do to the state of its key.\<close>

inductive begin_spec :: "string \<Rightarrow> key_state \<Rightarrow> begin_error + replay option \<Rightarrow> key_state \<Rightarrow> bool"
  for h where
  failed: "begin_spec h x (Inl (BeginFailed e)) x"
| fresh: "begin_spec h Unused (Inr None) (Claimed h now)"
| fresh_lost: "begin_spec h Unused (Inl (BeginFailed e)) (Claimed h now)"
| mismatch_claimed: "h0 \<noteq> h \<Longrightarrow> begin_spec h (Claimed h0 t) (Inl ErrPayloadMismatch) (Claimed h0 t)"
| mismatch_completed:
    "h0 \<noteq> h \<Longrightarrow> begin_spec h (Completed h0 c b) (Inl ErrPayloadMismatch) (Completed h0 c b)"
| in_flight: "begin_spec h (Claimed h t) (Inl ErrInFlight) (Claimed h t)"
| taken_over: "t < now - lockLease \<Longrightarrow> begin_spec h (Claimed h t) (Inr None) (Claimed h now)"
| taken_over_lost:
    "t < now - lockLease \<Longrightarrow> begin_spec h (Claimed h t) (Inl (BeginFailed e)) (Claimed h now)"
| replayed: "begin_spec h (Completed h c b) (Inr (Some \<lparr>Code = c, Body = b\<rparr>)) (Completed h c b)"

inductive_cases begin_spec_claimed: "begin_spec h (Claimed h' t) r y"
inductive_cases begin_spec_completed: "begin_spec h (Completed h' c b) r y"
inductive_cases begin_spec_unused: "begin_spec h Unused r y"

subsection \<open>Rows by key\<close>

lemma key_is_eq: "key_is u k = (\<lambda>r. (ik_user_id r, ik_key r) = (u, k))"
  by (auto simp: key_is_def)

lemma key_row_map:
  assumes "idempotency_keys (db s') = map h (idempotency_keys (db s))"
    and "\<And>r. (ik_user_id (h r), ik_key (h r)) = (ik_user_id r, ik_key r)"
  shows "key_row u k s' = map_option h (key_row u k s)"
  unfolding key_row_def key_is_eq assms(1)
  by (rule sql_select_one_map_key [where key = "\<lambda>r. (ik_user_id r, ik_key r)", OF assms(2)])

lemma key_row_same: "idempotency_keys (db s') = idempotency_keys (db s) \<Longrightarrow> key_row u k s' = key_row u k s"
  by (simp add: key_row_def)

lemma key_row_SomeD: "key_row u k s = Some r \<Longrightarrow> r \<in> set (idempotency_keys (db s)) \<and> key_is u k r"
  by (auto simp: key_row_def dest: sql_select_one_SomeD)

lemma key_row_unique:
  assumes "keys_ok s" and "r \<in> set (idempotency_keys (db s))" and "key_is u k r"
  shows "key_row u k s = Some r"
  using sql_select_one_unique [of "\<lambda>r. (ik_user_id r, ik_key r)" "idempotency_keys (db s)" r] assms
  unfolding key_row_def key_is_eq by (simp add: keys_ok_def)

lemma keys_ok_same: "keys_ok s \<Longrightarrow> idempotency_keys (db s') = idempotency_keys (db s) \<Longrightarrow> keys_ok s'"
  by (simp add: keys_ok_def)

lemma keys_ok_map:
  assumes "keys_ok s" and "idempotency_keys (db s') = map h (idempotency_keys (db s))"
    and "\<And>r. (ik_user_id (h r), ik_key (h r)) = (ik_user_id r, ik_key r)"
    and "\<And>r. (ik_response_code r = None \<Longrightarrow> ik_locked_at r \<noteq> None)
      \<Longrightarrow> ik_response_code (h r) = None \<Longrightarrow> ik_locked_at (h r) \<noteq> None"
  shows "keys_ok s'"
proof -
  have "map (\<lambda>r. (ik_user_id r, ik_key r)) (map h xs) = map (\<lambda>r. (ik_user_id r, ik_key r)) xs" for xs
    using assms(3) by simp
  then show ?thesis
    using assms(1,4) unfolding keys_ok_def assms(2) by (simp only: set_map ball_simps) blast
qed

lemma update_keys_simps:
  "fst (update_keys P f d) = length (filter P (idempotency_keys d))"
  "idempotency_keys (snd (update_keys P f d)) = map (\<lambda>r. if P r then f r else r) (idempotency_keys d)"
  "payments (snd (update_keys P f d)) = payments d" "outbox (snd (update_keys P f d)) = outbox d"
  by (simp_all add: update_keys_def sql_update_def)

subsection \<open>Each statement refines a step of the key\<close>

lemma claim_insert_refines:
  assumes ok: "keys_ok s" and d: "db s' = snd (claim_insert u k h now (db s))"
  shows "keys_ok s'"
    and "key_row u k s = None \<Longrightarrow> fst (claim_insert u k h now (db s)) = 1 \<and> state_of_key u k s' = Claimed h now"
    and "key_row u k s \<noteq> None \<Longrightarrow> fst (claim_insert u k h now (db s)) = 0 \<and> db s' = db s"
    and "(u', k') \<noteq> (u, k) \<Longrightarrow> key_row u' k' s' = key_row u' k' s"
proof -
  define new where "new = \<lparr>ik_key = k, ik_user_id = u, ik_request_hash = h, ik_response_code = None,
    ik_response_body = [], ik_locked_at = Some now, ik_created_at = now\<rparr>"
  have key: "key_is u k new" and st: "state_of_row (Some new) = Claimed h now"
    by (simp_all add: new_def key_is_def)
  have none: "key_row u k s = None \<longleftrightarrow> \<not> (\<exists>r \<in> set (idempotency_keys (db s)). key_is u k r)"
    unfolding key_row_def sql_select_one_None_iff by blast
  have hit: "fst (claim_insert u k h now (db s)) = 0 \<and> db s' = db s" if "key_row u k s \<noteq> None"
    using d none that by (auto simp: claim_insert_def)
  have miss: "fst (claim_insert u k h now (db s)) = 1"
      "idempotency_keys (db s') = idempotency_keys (db s) @ [new]" if "key_row u k s = None"
    using d none that by (auto simp: claim_insert_def new_def)
  show "keys_ok s'"
    using ok hit miss none by (cases "key_row u k s = None") (auto simp: keys_ok_def new_def key_is_def)
  show "key_row u k s = None \<Longrightarrow> fst (claim_insert u k h now (db s)) = 1 \<and> state_of_key u k s' = Claimed h now"
    using miss key st
    by (simp add: state_of_key_def key_row_def sql_select_one_def find_append del: state_of_row.simps)
  show "key_row u k s \<noteq> None \<Longrightarrow> fst (claim_insert u k h now (db s)) = 0 \<and> db s' = db s"
    by (rule hit)
  show "(u', k') \<noteq> (u, k) \<Longrightarrow> key_row u' k' s' = key_row u' k' s"
    using hit miss(2)
    by (cases "key_row u k s = None")
      (auto simp: key_row_def sql_select_one_def key_is_def find_append new_def split: option.splits)
qed

lemma lease_takeover_refines:
  assumes ok: "keys_ok s" and d: "db s' = snd (lease_takeover u k now (db s))"
    and r: "key_row u k s = Some r" and open_key: "ik_response_code r = None"
  shows "keys_ok s'"
    and "fst (lease_takeover u k now (db s)) = 1 \<longleftrightarrow> lease_expired now r"
    and "state_of_key u k s = Claimed (ik_request_hash r) t \<Longrightarrow>
      (if lease_expired now r then t < now - lockLease \<and> state_of_key u k s' = Claimed (ik_request_hash r) now
       else state_of_key u k s' = state_of_key u k s)"
    and "(u', k') \<noteq> (u, k) \<Longrightarrow> key_row u' k' s' = key_row u' k' s"
proof -
  define P where "P = (\<lambda>r. key_is u k r \<and> ik_response_code r = None \<and> lease_expired now r)"
  define h where "h = (\<lambda>r. if P r then r\<lparr>ik_locked_at := Some now\<rparr> else r)"
  have rows: "idempotency_keys (db s') = map h (idempotency_keys (db s))"
    using d by (simp add: lease_takeover_def update_keys_simps h_def P_def)
  have h: "(ik_user_id (h x), ik_key (h x)) = (ik_user_id x, ik_key x)"
      "ik_response_code (h x) = ik_response_code x" "ik_request_hash (h x) = ik_request_hash x" for x
    by (simp_all add: h_def)
  show "keys_ok s'"
    by (rule keys_ok_map [OF ok rows h(1)]) (auto simp: h_def split: if_splits)
  have rP: "P r \<longleftrightarrow> lease_expired now r"
    using key_row_SomeD [OF r] open_key by (simp add: P_def)
  have "x = r" if "x \<in> set (idempotency_keys (db s))" "P x" for x
    using key_row_unique [OF ok that(1), of u k] that(2) r by (simp add: P_def)
  moreover have "distinct (idempotency_keys (db s))"
    using ok by (simp add: keys_ok_def distinct_map)
  ultimately have "length (filter P (idempotency_keys (db s))) = (if P r then 1 else 0)"
    using key_row_SomeD [OF r] unique_filter_length [of "idempotency_keys (db s)" r P] by blast
  then show "fst (lease_takeover u k now (db s)) = 1 \<longleftrightarrow> lease_expired now r"
    unfolding rP by (simp add: lease_takeover_def update_keys_simps P_def [symmetric] split: if_splits)
  show "(u', k') \<noteq> (u, k) \<Longrightarrow> key_row u' k' s' = key_row u' k' s"
  proof -
    assume "(u', k') \<noteq> (u, k)"
    then have "h x = x" if "key_is u' k' x" for x
      using that by (auto simp: h_def P_def key_is_def)
    then show ?thesis
      using key_row_map [OF rows h(1), of u' k'] key_row_SomeD [of u' k' s]
      by (cases "key_row u' k' s") auto
  qed
  assume t: "state_of_key u k s = Claimed (ik_request_hash r) t"
  have "ik_locked_at r = Some t"
    using t r open_key ok key_row_SomeD [OF r] by (auto simp: state_of_key_def keys_ok_def)
  moreover have "key_row u k s' = Some (h r)"
    using key_row_map [OF rows h(1), of u k] r by simp
  ultimately show "if lease_expired now r then t < now - lockLease \<and> state_of_key u k s' = Claimed (ik_request_hash r) now
       else state_of_key u k s' = state_of_key u k s"
    using rP open_key r by (simp add: state_of_key_def h_def lease_expired_def)
qed

subsection \<open>The operations refine the machine\<close>

lemma Begin_refines:
  assumes ok: "keys_ok s" and run: "Begin env u k h s = (res, s')"
  shows "keys_ok s' \<and> begin_spec h (state_of_key u k s) res (state_of_key u k s')
    \<and> (\<forall>u' k'. (u', k') \<noteq> (u, k) \<longrightarrow> state_of_key u' k' s' = state_of_key u' k' s)"
proof -
  obtain c s1 where c: "pool_exec env (claim_insert u k h) s = (c, s1)" by fastforce
  define now where "now = exec_time env s"
  show ?thesis
    using c
  proof (cases rule: pool_exec_effect)
    case refused
    then have "keys_ok s1" and same: "state_of_key u' k' s1 = state_of_key u' k' s" for u' k'
      using keys_ok_same [OF ok, of s1] by (simp_all add: state_of_key_def key_row_def)
    moreover have "res = Inl (BeginFailed DbError)" "s' = s1"
      using run c refused(1) by (simp_all add: Begin_def)
    ultimately show ?thesis by (simp add: begin_spec.failed)
  next
    case lost
    note ins = claim_insert_refines [OF ok lost(2)]
    have "res = Inl (BeginFailed DbError)" "s' = s1"
      using run c lost(1) by (simp_all add: Begin_def)
    moreover have "begin_spec h (state_of_key u k s) (Inl (BeginFailed DbError)) (state_of_key u k s1)"
    proof (cases "key_row u k s")
      case None
      then have "state_of_key u k s = Unused" by (simp add: state_of_key_def)
      with ins(2) [OF None] show ?thesis by (auto intro: begin_spec.fresh_lost)
    next
      case (Some r)
      then have "state_of_key u k s1 = state_of_key u k s"
        using ins(3) by (simp add: state_of_key_def key_row_def)
      then show ?thesis by (simp add: begin_spec.failed)
    qed
    ultimately show ?thesis
      using ins(1,4) by (simp add: state_of_key_def)
  next
    case applied
    note ins = claim_insert_refines [OF ok applied(2)]
    show ?thesis
    proof (cases "key_row u k s")
      case None
      then have "res = Inr None" "s' = s1" "state_of_key u k s = Unused"
        using run c applied(1) ins(2) by (simp_all add: Begin_def state_of_key_def)
      with None ins(1,4) ins(2) [OF None] show ?thesis
        by (auto simp: state_of_key_def intro: begin_spec.fresh)
    next
      case (Some r)
      then have n: "c = Inr 0" and d1: "db s1 = db s"
        using applied(1) ins(3) by simp_all
      obtain rd s2 where rd: "ask (db_read env) s1 = (rd, s2)" by fastforce
      have d2: "db s2 = db s" using ask_eqD [OF rd] d1 by simp
      have ok2: "keys_ok s2" by (rule keys_ok_same [OF ok]) (simp add: d2)
      have same: "state_of_key u' k' s2 = state_of_key u' k' s" "key_row u' k' s2 = key_row u' k' s" for u' k'
        using d2 by (simp_all add: state_of_key_def key_row_def)
      have st: "state_of_key u k s = state_of_row (Some r)"
        using Some by (simp add: state_of_key_def)
      have step: "Begin env u k h s =
         (if \<not> rd then (Inl (BeginFailed DbError), s2)
          else if ik_request_hash r \<noteq> h then (Inl ErrPayloadMismatch, s2)
          else (case ik_response_code r of
                  None \<Rightarrow> (case pool_exec env (lease_takeover u k) s2 of
                             (Inl e, s3) \<Rightarrow> (Inl (BeginFailed e), s3)
                           | (Inr m, s3) \<Rightarrow> (if m = 1 then (Inr None, s3) else (Inl ErrInFlight, s3)))
                | Some c \<Rightarrow> (Inr (Some \<lparr>Code = c, Body = ik_response_body r\<rparr>), s2)))"
        using c n rd same(2) [of u k] Some by (simp add: Begin_def key_row_def)
      show ?thesis
      proof (cases "rd \<and> ik_request_hash r = h \<and> ik_response_code r = None")
        case False
        then have "s' = s2" and "begin_spec h (state_of_row (Some r)) res (state_of_row (Some r))"
          using run step by (auto intro: begin_spec.intros split: option.splits if_splits)
        with ok2 same st show ?thesis by simp
      next
        case True
        then obtain t where t: "state_of_key u k s = Claimed h t"
          using st by (auto split: option.splits)
        obtain x s3 where x: "pool_exec env (lease_takeover u k) s2 = (x, s3)" by fastforce
        have res: "(res, s') = (case x of Inl e \<Rightarrow> (Inl (BeginFailed e), s3)
             | Inr m \<Rightarrow> (if m = 1 then (Inr None, s3) else (Inl ErrInFlight, s3)))"
          using run step True x by (simp split: sum.splits)
        have r2: "key_row u k s2 = Some r" using same(2) Some by simp
        show ?thesis
          using x
        proof (cases rule: pool_exec_effect)
          case refused
          have "keys_ok s3"
            by (rule keys_ok_same [OF ok2]) (simp add: refused(2))
          moreover have "state_of_key u' k' s3 = state_of_key u' k' s" for u' k'
            using same refused(2) by (simp add: state_of_key_def key_row_def)
          ultimately show ?thesis
            using refused(1) res by (simp add: begin_spec.failed)
        next
          case applied
          note tk = lease_takeover_refines [OF ok2 applied(2) r2]
          show ?thesis
            using tk t True res applied(1) same
            by (auto simp: state_of_key_def split: if_splits
                intro: begin_spec.taken_over begin_spec.in_flight)
        next
          case lost
          note tk = lease_takeover_refines [OF ok2 lost(2) r2]
          show ?thesis
            using tk t True res lost(1) same
            by (auto simp: state_of_key_def split: if_splits
                intro: begin_spec.taken_over_lost begin_spec.failed)
        qed
      qed
    qed
  qed
qed

lemma Complete_refines:
  assumes ok: "keys_ok s" and run: "Complete env u k code body s = (e, s')"
  shows "keys_ok s'
    \<and> (case state_of_key u k s of
         Unused \<Rightarrow> state_of_key u k s' = Unused
       | Claimed h t \<Rightarrow> state_of_key u k s' = Completed h code (jsonb_norm env body)
           \<or> e \<noteq> None \<and> state_of_key u k s' = Claimed h t
       | Completed h c b \<Rightarrow> state_of_key u k s' = Completed h code (jsonb_norm env body)
           \<or> e \<noteq> None \<and> state_of_key u k s' = Completed h c b)
    \<and> (\<forall>u' k'. (u', k') \<noteq> (u, k) \<longrightarrow> state_of_key u' k' s' = state_of_key u' k' s)"
proof -
  define f where "f = (\<lambda>r :: idem_row. r\<lparr>ik_response_code := Some code, ik_response_body := jsonb_norm env body,
    ik_locked_at := None\<rparr>)"
  define h where "h = (\<lambda>r. if key_is u k r then f r else r)"
  obtain x s1 where x: "pool_exec env (\<lambda>_. update_keys (key_is u k) f) s = (x, s1)" by fastforce
  have es: "s' = s1" "e = (case x of Inl e \<Rightarrow> Some e | Inr _ \<Rightarrow> None)"
    using run x by (auto simp: Complete_def f_def split: sum.splits)
  have h: "(ik_user_id (h r), ik_key (h r)) = (ik_user_id r, ik_key r)" for r
    by (simp add: h_def f_def)
  have written: ?thesis if "db s1 = snd (update_keys (key_is u k) f (db s))"
  proof -
    have rows: "idempotency_keys (db s1) = map h (idempotency_keys (db s))"
      using that by (simp add: update_keys_simps h_def)
    have "keys_ok s1"
      by (rule keys_ok_map [OF ok rows h]) (auto simp: h_def f_def split: if_splits)
    moreover have "state_of_key u' k' s1 = state_of_key u' k' s" if "(u', k') \<noteq> (u, k)" for u' k'
      using key_row_map [OF rows h, of u' k'] key_row_SomeD [of u' k' s] that
      by (cases "key_row u' k' s") (auto simp: state_of_key_def h_def key_is_def)
    moreover have "case key_row u k s of None \<Rightarrow> state_of_key u k s1 = Unused
        | Some r \<Rightarrow> state_of_key u k s1 = Completed (ik_request_hash r) code (jsonb_norm env body)"
      using key_row_map [OF rows h, of u k] key_row_SomeD [of u k s]
      by (cases "key_row u k s") (auto simp: state_of_key_def h_def f_def)
    ultimately show ?thesis
      unfolding es(1) by (cases "key_row u k s") (auto simp: state_of_key_def split: option.splits)
  qed
  have same: ?thesis if "db s1 = db s" "x = Inl DbError"
  proof -
    have "keys_ok s1"
      by (rule keys_ok_same [OF ok]) (simp add: that)
    moreover have "state_of_key u' k' s1 = state_of_key u' k' s" for u' k'
      using that by (simp add: state_of_key_def key_row_def)
    ultimately show ?thesis
      unfolding es using that by (simp split: key_state.splits)
  qed
  show ?thesis
    using x by (cases rule: pool_exec_effect) (use written same in blast)+
qed

lemma Purge_rows:
  assumes run: "Purge env s = (r, s')"
  obtains (kept) "r = Inl DbError" and "db s' = db s"
    | (purged) "idempotency_keys (db s') =
        filter (\<lambda>r. \<not> ik_created_at r < exec_time env s - keyTTL) (idempotency_keys (db s))"
      and "r = Inl DbError \<or> r = Inr (length (idempotency_keys (db s)) - length (idempotency_keys (db s')))"
proof -
  have len: "length (filter P xs) = length xs - length (filter (\<lambda>x. \<not> P x) xs)" for P and xs :: "idem_row list"
    using sum_length_filter_compl [of P xs] by linarith
  show thesis
    using run unfolding Purge_def
  proof (cases rule: pool_exec_effect)
    case refused
    then show thesis by (rule kept)
  next
    case applied
    then show thesis
      by (intro purged) (auto simp: purge_keys_def sql_delete_def intro: len)
  next
    case lost
    then show thesis
      by (intro purged) (auto simp: purge_keys_def sql_delete_def)
  qed
qed

lemma Purge_keys_ok: "keys_ok s \<Longrightarrow> Purge env s = (r, s') \<Longrightarrow> keys_ok s'"
  by (erule Purge_rows) (auto simp: keys_ok_def intro: distinct_map_filter)

subsection \<open>Racing reclaimers\<close>

text \<open>
  Two requests that both found the lease expired race on the conditional update. Whoever is
  second finds the lock just taken, as long as less than a lease has passed.
\<close>

lemma lease_takeover_once:
  assumes "fst (lease_takeover u k now d) \<ge> 1" and "now' \<le> now + lockLease"
    and "distinct (map (\<lambda>r. (ik_user_id r, ik_key r)) (idempotency_keys d))"
  shows "fst (lease_takeover u k now' (snd (lease_takeover u k now d))) = 0"
proof -
  define P where "P = (\<lambda>now r. key_is u k r \<and> ik_response_code r = None \<and> lease_expired now r)"
  have "filter (P now) (idempotency_keys d) \<noteq> []"
    using assms(1) by (auto simp: lease_takeover_def update_keys_simps P_def)
  then obtain r where r: "r \<in> set (idempotency_keys d)" "P now r"
    by (auto simp: filter_empty_conv)
  have uniq: "x = r" if "x \<in> set (idempotency_keys d)" "key_is u k x" for x
    using assms(3) r that by (auto simp: distinct_map P_def key_is_def dest: inj_onD)
  have "\<not> P now' (if P now x then x\<lparr>ik_locked_at := Some now\<rparr> else x)" if "x \<in> set (idempotency_keys d)" for x
    using uniq [OF that] r(2) assms(2) by (auto simp: P_def key_is_def lease_expired_def)
  then have "filter (P now') (map (\<lambda>x. if P now x then x\<lparr>ik_locked_at := Some now\<rparr> else x) (idempotency_keys d)) = []"
    by (simp only: filter_empty_conv set_map) blast
  then show ?thesis
    by (simp add: lease_takeover_def update_keys_simps P_def)
qed

subsection \<open>What a caller relies on\<close>

fun run_tries :: "('k \<Rightarrow> string \<Rightarrow> 's \<Rightarrow> (begin_error + replay option) \<times> 's) \<Rightarrow> ('k \<times> string) list \<Rightarrow> 's \<Rightarrow> 's" where
  "run_tries attempt [] s = s"
| "run_tries attempt ((k, h) # reqs) s = run_tries attempt reqs (snd (attempt k h s))"

locale claim_store =
  fixes inv :: "'s \<Rightarrow> bool"
    and st :: "'s \<Rightarrow> 'k \<Rightarrow> key_state"
    and attempt :: "'k \<Rightarrow> string \<Rightarrow> 's \<Rightarrow> (begin_error + replay option) \<times> 's"
  assumes attempt_inv: "inv s \<Longrightarrow> inv (snd (attempt k h s))"
    and attempt_spec: "inv s \<Longrightarrow> begin_spec h (st s k) (fst (attempt k h s)) (st (snd (attempt k h s)) k)"
    and attempt_frame: "inv s \<Longrightarrow> k' \<noteq> k \<Longrightarrow> st (snd (attempt k h s)) k' = st s k'"
begin

lemma attempt_completed:
  assumes "inv s" and "st s k = Completed h c b"
  shows "st (snd (attempt k' h' s)) k = Completed h c b"
proof (cases "k' = k")
  case True
  with attempt_spec [OF assms(1), of h' k] assms(2) show ?thesis
    by (auto elim: begin_spec_completed)
next
  case False
  with attempt_frame [OF assms(1), of k k' h'] assms(2) show ?thesis by simp
qed

lemma tries_completed:
  "inv s \<Longrightarrow> st s k = Completed h c b \<Longrightarrow>
     inv (run_tries attempt reqs s) \<and> st (run_tries attempt reqs s) k = Completed h c b"
proof (induction reqs arbitrary: s)
  case (Cons q reqs)
  then show ?case by (cases q) (simp add: attempt_inv attempt_completed)
qed simp

lemma completed_answer:
  assumes "inv s" and "st s k = Completed h c b"
  shows "fst (attempt k h' s) \<in> {if h' = h then Inr (Some \<lparr>Code = c, Body = b\<rparr>) else Inl ErrPayloadMismatch}
     \<union> Inl ` range BeginFailed"
  using attempt_spec [OF assms(1), of h' k] assms(2) by (auto elim: begin_spec_completed)

lemma tries_replay:
  assumes "inv s" and "st s k = Completed h c b"
  shows "fst (attempt k h' (run_tries attempt reqs s))
     \<in> {if h' = h then Inr (Some \<lparr>Code = c, Body = b\<rparr>) else Inl ErrPayloadMismatch}
     \<union> Inl ` range BeginFailed"
  using completed_answer tries_completed [OF assms] by blast

lemma grant_claims:
  assumes "inv s" and "fst (attempt k h s) = Inr None"
  shows "(st s k = Unused \<or> (\<exists>t. st s k = Claimed h t))
    \<and> (\<exists>now. st (snd (attempt k h s)) k = Claimed h now
        \<and> (\<forall>t. st s k = Claimed h t \<longrightarrow> t < now - lockLease))"
  using attempt_spec [OF assms(1), of h k] assms(2) by (auto elim: begin_spec.cases)

end

lemma Begin_keys_ok: "keys_ok s \<Longrightarrow> keys_ok (snd (Begin env u k h s))"
  and Begin_begin_spec: "keys_ok s \<Longrightarrow>
    begin_spec h (state_of_key u k s) (fst (Begin env u k h s)) (state_of_key u k (snd (Begin env u k h s)))"
  and Begin_other: "keys_ok s \<Longrightarrow> (u', k') \<noteq> (u, k) \<Longrightarrow>
    state_of_key u' k' (snd (Begin env u k h s)) = state_of_key u' k' s"
  using Begin_refines [OF _ prod.collapse [symmetric], of s env u k h] by blast+

interpretation idem: claim_store keys_ok "\<lambda>s q. state_of_key (fst q) (snd q) s"
  "\<lambda>q. Begin env (fst q) (snd q)" for env
  by unfold_locales (auto simp: prod_eq_iff intro: Begin_keys_ok Begin_begin_spec Begin_other)

end
