(* ===== verification/StepUp.thy ===== *)
theory StepUp
  imports Gateway Model "HOL-Library.Word"
begin

section \<open>The step-up gate\<close>

text \<open>
  \<open>internal/httpapi/stepup.go\<close>: what the gateway proved about the caller, read back from the
  headers, and the gate on large payments. A \<open>time.Time\<close> is the seconds since the year one, a
  signed 64-bit number that \<open>time.Unix\<close> may wrap; \<open>time.Since\<close> saturates at the range of a
  \<open>Duration\<close>. The clock is nanoseconds since the Unix epoch.
\<close>

record authStrength =
  amr :: "string list"
  authTime :: "64 word"

definition unixToInternal :: int where
  "unixToInternal = 62135596800"

definition Unix :: "int \<Rightarrow> 64 word" where
  "Unix secs = word_of_int secs + word_of_int unixToInternal"

definition saturate :: "int \<Rightarrow> duration" where
  "saturate d = max (- (2 ^ 63)) (min (2 ^ 63 - 1) d)"

definition Since :: "time \<Rightarrow> 64 word \<Rightarrow> duration" where
  "Since now t = saturate (now + seconds unixToInternal - seconds (sint t))"

definition readAuthStrength :: "headers \<Rightarrow> authStrength" where
  "readAuthStrength h =
     \<lparr>amr = filter (\<lambda>m. m \<noteq> []) (map TrimSpace (split_on CHR '','' (Get h ''X-Auth-Amr''))),
      authTime = (case ParseInt (Get h ''X-Auth-Time'') of Some secs \<Rightarrow> Unix secs | None \<Rightarrow> 0)\<rparr>"

definition steppedUp :: "authStrength \<Rightarrow> bool" where
  "steppedUp a \<longleftrightarrow> list_ex (\<lambda>m. m = ''mfa'') (amr a)"

definition fresh_auth :: "time \<Rightarrow> duration \<Rightarrow> authStrength \<Rightarrow> bool" where
  "fresh_auth now maxAge a \<longleftrightarrow> authTime a \<noteq> 0 \<and> Since now (authTime a) \<le> maxAge"

definition stepUpRequired :: "time \<Rightarrow> int \<Rightarrow> duration \<Rightarrow> headers \<Rightarrow> int \<Rightarrow> bool" where
  "stepUpRequired now limit maxAge h amount =
     (if amount < limit then False
      else (let auth = readAuthStrength h in \<not> (steppedUp auth \<and> fresh_auth now maxAge auth)))"

subsection \<open>Reading back what the gateway wrote\<close>

lemma sint_Unix:
  assumes "- (2 ^ 62) \<le> secs" and "secs < 2 ^ 62"
  shows "sint (Unix secs) = secs + unixToInternal"
proof -
  have "Unix secs = word_of_int (secs + unixToInternal)"
    by (simp add: Unix_def)
  moreover have "sint (word_of_int x :: 64 word) = x" if "- (2 ^ 63) \<le> x" "x < 2 ^ 63" for x
    using that by (simp only: sint_sbintrunc') (simp add: signed_take_bit_int_eq_self)
  ultimately show ?thesis
    using assms by (simp add: unixToInternal_def del: of_int_add)
qed

lemma Since_Unix:
  assumes "- (2 ^ 62) \<le> secs" and "secs < 2 ^ 62"
  shows "Since now (Unix secs) = saturate (now - seconds secs)"
  using sint_Unix [OF assms] by (simp add: Since_def seconds_def algebra_simps)

text \<open>Without the headers nothing reads as stepped up or fresh.\<close>

lemma read_no_amr: "Get h ''X-Auth-Amr'' = [] \<Longrightarrow> amr (readAuthStrength h) = []"
  by (simp add: readAuthStrength_def TrimSpace_def trim_left_def trim_right_def)

lemma read_no_time: "ParseInt (Get h ''X-Auth-Time'') = None \<Longrightarrow> authTime (readAuthStrength h) = 0"
  by (simp add: readAuthStrength_def)

text \<open>The methods the gateway joined come back as they were, when none needs trimming.\<close>

definition plain_method :: "string \<Rightarrow> bool" where
  "plain_method m \<longleftrightarrow> m \<noteq> [] \<and> CHR '','' \<notin> set m \<and> trimmed m"

lemma read_joined:
  assumes "Get h ''X-Auth-Amr'' = join_with '','' ws" and "\<forall>w \<in> set ws. plain_method w"
  shows "amr (readAuthStrength h) = ws"
proof (cases ws)
  case Nil
  with assms(1) read_no_amr [of h] show ?thesis by simp
next
  case (Cons w ws')
  then have "split_on CHR '','' (join_with '','' ws) = ws"
    using assms(2) by (intro split_join) (auto simp: plain_method_def)
  moreover have "map TrimSpace ws = ws" "filter (\<lambda>m. m \<noteq> []) ws = ws"
    using assms(2) by (auto simp: plain_method_def TrimSpace_trimmed intro: map_idI)
  ultimately show ?thesis
    using assms(1) by (simp add: readAuthStrength_def)
qed

text \<open>In general a method is a trimmed part of one of the strings that were joined.\<close>

lemma read_joined_parts:
  assumes "Get h ''X-Auth-Amr'' = join_with '','' ws" and "m \<in> set (amr (readAuthStrength h))"
  shows "\<exists>w \<in> set ws. \<exists>p \<in> set (split_on CHR '','' w). TrimSpace p = m"
proof -
  have "ws \<noteq> []"
    using assms read_no_amr [of h] by (cases ws) auto
  then have "split_on CHR '','' (join_with '','' ws) = concat (map (split_on CHR '','') ws)"
    by (rule split_join_concat)
  with assms show ?thesis
    by (auto simp: readAuthStrength_def)
qed

end
