(* ===== verification/Events.thy ===== *)
theory Events
  imports JsonPrint GoTime
begin

section \<open>The event envelope and the wire format\<close>

text \<open>
  \<open>internal/events/events.go\<close>: the envelope of the platform's events, the Confluent wire format
  around its JSON (a zero byte, the schema id as a big-endian \<open>int32\<close>, the text) and the registry
  that gives the schema id of a topic, cached after the first answer. The lemmas: a framed
  envelope is read back as it was (\<open>Unframe_Frame\<close>), nothing but a framed message is read, and a
  cached id is never asked for again.
\<close>

subsection \<open>The envelope\<close>

record envelope =
  EventID :: string
  EventType :: string
  SchemaVersion :: int
  OccurredAt :: time
  TenantID :: string
  CorrelationID :: string
  CausationID :: "string option"
  IdempotencyKey :: "string option"
  Payload :: gmap

text \<open>The zero value; Go's zero time is the first of January of the year 1.\<close>

definition zero_time :: time where
  "zero_time = - epoch_day * 86400 * 1000000000"

definition envelope_zero :: envelope where
  "envelope_zero = \<lparr>EventID = [], EventType = [], SchemaVersion = 0, OccurredAt = zero_time,
     TenantID = [], CorrelationID = [], CausationID = None, IdempotencyKey = None, Payload = None\<rparr>"

definition NewEnvelope :: "string \<Rightarrow> string \<Rightarrow> string \<Rightarrow> time \<Rightarrow> gmap \<Rightarrow> envelope" where
  "NewEnvelope eventID topic correlationID occurredAt payload =
     envelope_zero\<lparr>EventID := eventID, EventType := topic, SchemaVersion := 1,
       OccurredAt := occurredAt, TenantID := ''peikon'', CorrelationID := correlationID,
       Payload := payload\<rparr>"

definition of_map :: "gmap \<Rightarrow> gvalue" where
  "of_map m = (case m of None \<Rightarrow> GNull | Some ms \<Rightarrow> GObj ms)"

definition envelope_json :: "envelope \<Rightarrow> gvalue" where
  "envelope_json e =
     GObj [(''event_id'', GStr (EventID e)), (''event_type'', GStr (EventType e)),
       (''schema_version'', GInt (SchemaVersion e)),
       (''occurred_at'', GStr (Format_RFC3339Nano (OccurredAt e))),
       (''tenant_id'', GStr (TenantID e)), (''correlation_id'', GStr (CorrelationID e)),
       (''causation_id'', of_ptr (CausationID e)), (''idempotency_key'', of_ptr (IdempotencyKey e)),
       (''payload'', of_map (Payload e))]"

text \<open>A time decodes from the text of a literal as it stands, escapes included.\<close>

definition decode_time :: "time \<Rightarrow> jvalue \<Rightarrow> time option" where
  "decode_time old v = (case v of JvNull \<Rightarrow> Some old | JvStr l \<Rightarrow> Parse_RFC3339 l | _ \<Rightarrow> None)"

definition envelope_fields :: "envelope field list" where
  "envelope_fields =
     [(''event_id'', \<lambda>e v. map_option (\<lambda>x. e\<lparr>EventID := x\<rparr>) (decode_string (EventID e) v)),
      (''event_type'', \<lambda>e v. map_option (\<lambda>x. e\<lparr>EventType := x\<rparr>) (decode_string (EventType e) v)),
      (''schema_version'', \<lambda>e v. map_option (\<lambda>x. e\<lparr>SchemaVersion := x\<rparr>) (decode_int 64 (SchemaVersion e) v)),
      (''occurred_at'', \<lambda>e v. map_option (\<lambda>x. e\<lparr>OccurredAt := x\<rparr>) (decode_time (OccurredAt e) v)),
      (''tenant_id'', \<lambda>e v. map_option (\<lambda>x. e\<lparr>TenantID := x\<rparr>) (decode_string (TenantID e) v)),
      (''correlation_id'', \<lambda>e v. map_option (\<lambda>x. e\<lparr>CorrelationID := x\<rparr>) (decode_string (CorrelationID e) v)),
      (''causation_id'', \<lambda>e v. map_option (\<lambda>x. e\<lparr>CausationID := x\<rparr>) (decode_string_ptr (CausationID e) v)),
      (''idempotency_key'', \<lambda>e v. map_option (\<lambda>x. e\<lparr>IdempotencyKey := x\<rparr>) (decode_string_ptr (IdempotencyKey e) v)),
      (''payload'', \<lambda>e v. map_option (\<lambda>x. e\<lparr>Payload := x\<rparr>) (decode_map_field (Payload e) v))]"

subsection \<open>Framing\<close>

text \<open>\<open>PutUint32\<close> and \<open>Uint32\<close> in big-endian order, of an \<open>int32\<close>.\<close>

definition put_int32 :: "int \<Rightarrow> string" where
  "put_int32 i =
     (let u = nat (i mod 2 ^ 32)
      in [chr (u div 2 ^ 24), chr (u div 2 ^ 16 mod 256), chr (u div 2 ^ 8 mod 256), chr (u mod 256)])"

definition get_int32 :: "string \<Rightarrow> int" where
  "get_int32 bs =
     (let u = foldl (\<lambda>a c. a * 256 + int (byte c)) 0 (take 4 bs)
      in if u < 2 ^ 31 then u else u - 2 ^ 32)"

definition Frame :: "int \<Rightarrow> envelope \<Rightarrow> go_error + string" where
  "Frame schemaID e =
     (if four_digit_year (OccurredAt e)
      then Inr (chr 0 # put_int32 schemaID @ print (envelope_json e)) else Inl JsonError)"

definition framed :: "string \<Rightarrow> bool" where
  "framed value \<longleftrightarrow> \<not> length value < 6 \<and> hd value = chr 0"

definition Unframe :: "string \<Rightarrow> go_error + envelope" where
  "Unframe value =
     (if \<not> framed value then Inl (PlainError ''not a confluent-framed message'')
      else
        (case Option.bind (Unmarshal (drop 5 value)) (decode_struct envelope_fields envelope_zero) of
           None \<Rightarrow> Inl (Wrapped ''envelope parse'' JsonError)
         | Some e \<Rightarrow>
             (if EventID e = [] \<or> EventType e = []
              then Inl (PlainError ''envelope missing event_id/event_type'') else Inr e)))"

subsection \<open>The registry\<close>

definition subject_url :: "'w env \<Rightarrow> string \<Rightarrow> string" where
  "subject_url env topic = registry_base env @ ''/subjects/'' @ topic @ ''-value/versions/latest''"

definition lookup_failed :: "string \<Rightarrow> string" where
  "lookup_failed topic = ''registry lookup for '' @ topic"

definition SchemaID :: "'w env \<Rightarrow> string \<Rightarrow> 'w sys \<Rightarrow> (go_error + int) \<times> 'w sys" where
  "SchemaID env topic s =
     (case schema_ids s topic of
        Some i \<Rightarrow> (Inr i, s)
      | None \<Rightarrow>
          (case ask (http_get env (subject_url env topic)) s of
             (GetBadURL e, s1) \<Rightarrow> (Inl (Wrapped (lookup_failed topic) (PlainError e)), s1)
           | (GetFailed e, s1) \<Rightarrow> (Inl (Wrapped (lookup_failed topic) (PlainError e)), s1)
           | (GetReply code body, s1) \<Rightarrow>
               (if code \<noteq> 200 then
                  (Inl (PlainError (lookup_failed topic @ '': HTTP '' @ show_int code @ '' '' @ take 256 body)), s1)
                else
                  (case Option.bind (Decode body) (decode_struct [(''id'', decode_int 32)] 0) of
                     None \<Rightarrow> (Inl JsonError, s1)
                   | Some i \<Rightarrow> (Inr i, s1\<lparr>schema_ids := (schema_ids s1)(topic \<mapsto> i)\<rparr>)))))"

subsection \<open>Reading a framed envelope back\<close>

lemma get_put_int32:
  assumes "- (2 ^ 31) \<le> i" and "i < 2 ^ 31"
  shows "get_int32 (put_int32 i @ r) = i"
proof -
  define u where "u = nat (i mod 2 ^ 32)"
  have u: "u < 2 ^ 32" "int u = i mod 2 ^ 32"
    by (simp_all add: u_def nat_less_iff)
  have bytes: "u div 2 ^ 24 < 256"
    using u(1) by (simp add: less_mult_imp_div_less)
  have parts: "((u div 2 ^ 24 * 256 + u div 2 ^ 16 mod 256) * 256 + u div 2 ^ 8 mod 256) * 256 + u mod 256 = u"
  proof -
    have "u div 2 ^ 24 = u div 256 div 256 div 256" "u div 2 ^ 16 = u div 256 div 256" "u div 2 ^ 8 = u div 256"
      by (simp_all add: div_mult2_eq [symmetric])
    then show ?thesis by simp
  qed
  have "foldl (\<lambda>a c. a * 256 + int (byte c)) 0 (take 4 (put_int32 i @ r))
      = int (((u div 2 ^ 24 * 256 + u div 2 ^ 16 mod 256) * 256 + u div 2 ^ 8 mod 256) * 256 + u mod 256)"
  proof -
    have "nat (i mod 4294967296) = u" by (simp add: u_def)
    with bytes show ?thesis by (simp add: put_int32_def Let_def)
  qed
  also have "\<dots> = i mod 2 ^ 32"
    unfolding parts by (rule u(2))
  finally have "get_int32 (put_int32 i @ r) = (if i mod 2 ^ 32 < 2 ^ 31 then i mod 2 ^ 32 else i mod 2 ^ 32 - 2 ^ 32)"
    by (simp add: get_int32_def Let_def)
  also have "\<dots> = i"
  proof (cases "0 \<le> i")
    case True
    with assms have "i mod 2 ^ 32 = i" by (intro mod_pos_pos_trivial) simp_all
    with assms show ?thesis by simp
  next
    case False
    have "i mod 2 ^ 32 = (i + 2 ^ 32) mod 2 ^ 32" by simp
    also have "\<dots> = i + 2 ^ 32"
      using False assms by (intro mod_pos_pos_trivial) simp_all
    finally show ?thesis using False assms by simp
  qed
  finally show ?thesis .
qed

text \<open>
  The envelopes whose framing loses nothing: UTF-8 text, a schema version of 64 bits, a time with
  a four-digit year, a payload that prints and is canonical. The identifiers must be there.
\<close>

definition text_ok :: "string option \<Rightarrow> bool" where
  "text_ok p \<longleftrightarrow> (case p of None \<Rightarrow> True | Some s \<Rightarrow> utf8_ok s)"

definition payload_ok :: "gmap \<Rightarrow> bool" where
  "payload_ok p \<longleftrightarrow> (case p of None \<Rightarrow> True
     | Some ms \<Rightarrow> printable (maxNestingDepth - 1) (GObj ms) \<and> canonical (GObj ms))"

definition envelope_ok :: "envelope \<Rightarrow> bool" where
  "envelope_ok e \<longleftrightarrow> EventID e \<noteq> [] \<and> EventType e \<noteq> [] \<and> utf8_ok (EventID e) \<and> utf8_ok (EventType e)
     \<and> - (2 ^ 63) \<le> SchemaVersion e \<and> SchemaVersion e < 2 ^ 63 \<and> four_digit_year (OccurredAt e)
     \<and> utf8_ok (TenantID e) \<and> utf8_ok (CorrelationID e) \<and> text_ok (CausationID e)
     \<and> text_ok (IdempotencyKey e) \<and> payload_ok (Payload e)"

lemma utf8_ok_ascii: "\<forall>c \<in> set s. byte c < 0x80 \<Longrightarrow> utf8_ok s"
  by (induction s) (simp_all add: rune_len_ascii)

lemma unquote_plain:
  "\<forall>c \<in> set s. byte c < 0x80 \<and> c \<noteq> CHR 0x5C \<Longrightarrow> unquote s = s"
  by (induction s) (simp_all add: rune_len_ascii Let_def)

lemma escape_plain:
  "\<forall>c \<in> set s. byte c \<in> {43 ..< 60} \<or> byte c \<in> {65 ..< 91} \<or> byte c \<in> {95 ..< 123} \<Longrightarrow> escape s = s"
proof (induction s)
  case (Cons c s)
  then have "byte c \<in> {43 ..< 60} \<or> byte c \<in> {65 ..< 91} \<or> byte c \<in> {95 ..< 123}" by simp
  then have c: "byte c < 0x80" "byte c \<notin> {34, 92, 8, 12, 10, 13, 9, 60, 62, 38}" "\<not> byte c < 32"
    by (elim disjE; simp)+
  then have "esc_ascii c = [c]"
    by (simp add: esc_ascii_def)
  with Cons c(1) show ?case by simp
qed simp

text \<open>A formatted time needs no escape.\<close>

lemma format_chars: "c \<in> set (Format_RFC3339Nano t) \<Longrightarrow> byte c \<in> {43 ..< 60} \<or> byte c \<in> {65 ..< 91}"
proof -
  have digit: "byte c \<in> {43 ..< 60}" if "c \<in> set (pad w n)" for w n
    using pad_digits [OF that] by (auto simp: is_dec_def digit_val_def byte_def Let_def split: if_splits)
  have strip: "set (strip_zeros ds) \<subseteq> set ds" for ds
    by (auto simp: strip_zeros_def dest: set_dropWhileD)
  assume "c \<in> set (Format_RFC3339Nano t)"
  then consider w n where "c \<in> set (pad w n)" | "c \<in> set ''-:T.Z''"
    using strip by (auto simp: Format_RFC3339Nano_def format_date_time_def format_frac_def Let_def
        split: prod.splits if_splits)
  then show ?thesis
    by cases (use digit in \<open>auto simp: byte_def\<close>)
qed

lemma escape_format: "escape (Format_RFC3339Nano t) = Format_RFC3339Nano t"
  and utf8_ok_format: "utf8_ok (Format_RFC3339Nano t)"
  by (rule escape_plain, use format_chars in blast)
    (rule utf8_ok_ascii, use format_chars in fastforce)

lemma decode_string_printed: "utf8_ok s \<Longrightarrow> decode_string old (JvStr (escape s)) = Some s"
  by (simp add: decode_string_def unquote_escape)

lemma decode_ptr_printed: "text_ok p \<Longrightarrow> decode_string_ptr old (syntax_of (of_ptr p)) = Some p"
  by (cases p) (simp_all add: decode_string_ptr_def of_ptr_def text_ok_def unquote_escape)

lemma decode_payload_printed:
  assumes "payload_ok p"
  shows "decode_map_field None (syntax_of (of_map p)) = Some p"
proof (cases p)
  case (Some ms)
  with assms have "printable (maxNestingDepth - 1) (GObj ms)" "canonical (GObj ms)"
    by (simp_all add: payload_ok_def)
  then have "decode_map [] (syntax_map ms) = Some ([] @ ms)"
    by (intro decode_syntax(3)) auto
  with Some show ?thesis by (simp add: decode_map_field_def of_map_def)
qed (simp add: decode_map_field_def of_map_def)

lemma unquote_ascii: "list_all (\<lambda>c. byte c < 0x80) n \<Longrightarrow> unquote (escape n) = n"
  by (intro unquote_escape utf8_ok_ascii) (simp add: list_all_iff)

lemma envelope_field:
  assumes "list_all (\<lambda>c. byte c < 0x80) n" and "map_of envelope_fields n \<noteq> None"
  shows "decode_members envelope_fields ((escape n, v) # ms) e =
    (case the (map_of envelope_fields n) e v of
       None \<Rightarrow> None | Some e' \<Rightarrow> decode_members envelope_fields ms e')"
  using assms by (auto simp: unquote_ascii find_field_def)

lemma decode_envelope:
  assumes "envelope_ok e"
  shows "decode_struct envelope_fields envelope_zero (syntax_of (envelope_json e)) = Some e"
proof -
  note e = assms [unfolded envelope_ok_def]
  have time: "decode_time old (JvStr (escape (Format_RFC3339Nano (OccurredAt e)))) = Some (OccurredAt e)" for old
    using e Parse_Format_Nano by (simp add: decode_time_def escape_format)
  have int: "decode_int 64 old (syntax_of (GInt (SchemaVersion e))) = Some (SchemaVersion e)" for old
    using e by (intro decode_int_GInt) simp_all
  note field = arg_cong [OF envelope_fields_def, of "\<lambda>fs. map_of fs n" for n]
  note field = field [of "''event_id''", simplified] field [of "''event_type''", simplified]
    field [of "''schema_version''", simplified] field [of "''occurred_at''", simplified]
    field [of "''tenant_id''", simplified] field [of "''correlation_id''", simplified]
    field [of "''causation_id''", simplified] field [of "''idempotency_key''", simplified]
    field [of "''payload''", simplified]
  show ?thesis
    using e
    by (simp add: decode_struct_def envelope_json_def envelope_field field byte_def envelope_zero_def decode_string_printed
        decode_ptr_printed decode_payload_printed time int del: escape.simps decode_members.simps(2))
qed

lemma printable_envelope:
  assumes "envelope_ok e"
  shows "printable maxNestingDepth (envelope_json e)"
proof -
  have "utf8_ok n" if "list_all (\<lambda>c. byte c < 0x80) n" for n
    using that by (intro utf8_ok_ascii) (simp add: list_all_iff)
  note name = this [of "''event_id''"] this [of "''event_type''"] this [of "''schema_version''"]
    this [of "''occurred_at''"] this [of "''tenant_id''"] this [of "''correlation_id''"]
    this [of "''causation_id''"] this [of "''idempotency_key''"] this [of "''payload''"]
  have ptr: "printable d (of_ptr p)" if "text_ok p" for d p
    using that by (cases p) (simp_all add: of_ptr_def text_ok_def)
  have map: "printable 9999 (of_map p)" if "payload_ok p" for p
    using that by (cases p) (simp_all add: of_map_def payload_ok_def maxNestingDepth_def)
  have "printable_map d ((n, v) # ms) = (printable d v \<and> printable_map d ms)" if "utf8_ok n" for d n v ms
    using that by simp
  note step = this [OF name(1)] this [OF name(2)] this [OF name(3)] this [OF name(4)] this [OF name(5)]
    this [OF name(6)] this [OF name(7)] this [OF name(8)] this [OF name(9)]
  show ?thesis
    using assms unfolding envelope_json_def envelope_ok_def
    by (simp add: step byte_def ptr map utf8_ok_format maxNestingDepth_def del: printable_map.simps(2) utf8_ok.simps)
qed

text \<open>A framed message is longer than its header: even the shortest text has a byte.\<close>

lemma framed_Frame: "print g \<noteq> [] \<Longrightarrow> framed (chr 0 # put_int32 i @ print g)"
  by (cases "print g") (simp_all add: framed_def put_int32_def Let_def)

lemma Unframe_Frame:
  assumes "envelope_ok e"
  shows "\<exists>value. Frame i e = Inr value \<and> framed value \<and> Unframe value = Inr e
    \<and> (- (2 ^ 31) \<le> i \<longrightarrow> i < 2 ^ 31 \<longrightarrow> get_int32 (drop 1 value) = i)"
proof -
  let ?msg = "chr 0 # put_int32 i @ print (envelope_json e)"
  have "print (envelope_json e) \<noteq> []"
    by (simp add: envelope_json_def)
  then have "framed ?msg" by (rule framed_Frame)
  moreover have "drop 5 ?msg = print (envelope_json e)"
    by (simp add: put_int32_def Let_def)
  moreover have "Frame i e = Inr ?msg"
    using assms by (simp add: Frame_def envelope_ok_def)
  moreover have "EventID e \<noteq> []" "EventType e \<noteq> []"
    using assms by (simp_all add: envelope_ok_def)
  ultimately show ?thesis
    using Unmarshal_print [OF printable_envelope [OF assms]] decode_envelope [OF assms]
    by (simp add: Unframe_def get_put_int32)
qed

lemma Unframe_needs_frame: "\<not> framed value \<Longrightarrow> Unframe value = Inl (PlainError ''not a confluent-framed message'')"
  by (simp add: Unframe_def)

subsection \<open>The cache of the registry\<close>

lemma SchemaID_cached: "schema_ids s topic = Some i \<Longrightarrow> SchemaID env topic s = (Inr i, s)"
  by (simp add: SchemaID_def)

text \<open>An answer is cached, and an error caches nothing.\<close>

lemma SchemaID_effect:
  assumes "SchemaID env topic s = (r, s')"
  shows "untouched s s' \<and> schemas s' = schemas s
    \<and> schema_ids s' = (case r of Inl _ \<Rightarrow> schema_ids s | Inr i \<Rightarrow> (schema_ids s)(topic \<mapsto> i))"
proof -
  obtain a t where t: "ask (http_get env (subject_url env topic)) s = (a, t)" by fastforce
  show ?thesis
    using assms t ask_untouched [OF t]
    by (cases "schema_ids s topic"; cases a)
      (auto simp: SchemaID_def fun_upd_idem split: if_splits option.splits)
qed

end
