(* ===== verification/Reconcile.thy ===== *)
theory Reconcile
  imports Events Sweeps
begin

section \<open>Settlement reconciliation\<close>

text \<open>
  \<open>internal/saga/reconcile.go\<close>: the processor's settlement report against the captures our
  payments table has. \<open>reconcile\<close> is one run; it only looks, counts and records a snapshot. The
  loops of the code are \<open>scan_captures\<close> and \<open>scan_booked\<close>; the lemmas say what they count, and
  what a clean snapshot means for the payments and the report.
\<close>

subsection \<open>The report\<close>

record settlement_entry =
  se_reference :: string
  se_amount_minor :: int
  se_captured_at :: string
  se_settled :: int

record settlement_report =
  st_report_since :: string
  st_captures :: "settlement_entry list"

definition entry_zero :: settlement_entry where
  "entry_zero = \<lparr>se_reference = [], se_amount_minor = 0, se_captured_at = [], se_settled = 0\<rparr>"

definition entry_fields :: "settlement_entry field list" where
  "entry_fields =
     [(''reference'', \<lambda>e v. map_option (\<lambda>x. e\<lparr>se_reference := x\<rparr>) (decode_string (se_reference e) v)),
      (''amount_minor_units'', \<lambda>e v. map_option (\<lambda>x. e\<lparr>se_amount_minor := x\<rparr>) (decode_int 64 (se_amount_minor e) v)),
      (''captured_at'', \<lambda>e v. map_option (\<lambda>x. e\<lparr>se_captured_at := x\<rparr>) (decode_string (se_captured_at e) v)),
      (''settled'', \<lambda>e v. map_option (\<lambda>x. e\<lparr>se_settled := x\<rparr>) (decode_int 64 (se_settled e) v))]"

definition report_fields :: "settlement_report field list" where
  "report_fields =
     [(''report_since'', \<lambda>r v. map_option (\<lambda>x. r\<lparr>st_report_since := x\<rparr>) (decode_string (st_report_since r) v)),
      (''captures'', \<lambda>r v. map_option (\<lambda>x. r\<lparr>st_captures := x\<rparr>)
          (decode_slice (decode_struct entry_fields) entry_zero (st_captures r) v))]"

definition report_zero :: settlement_report where
  "report_zero = \<lparr>st_report_since = [], st_captures = []\<rparr>"

definition fetchSettlement :: "'w env \<Rightarrow> 'w sys \<Rightarrow> (go_error + settlement_report) \<times> 'w sys" where
  "fetchSettlement env s =
     (case ask (http_get env (psp_base env @ ''/settlement'')) s of
        (GetBadURL e, s1) \<Rightarrow> (Inl (PlainError e), s1)
      | (GetFailed e, s1) \<Rightarrow> (Inl (PlainError e), s1)
      | (GetReply code body, s1) \<Rightarrow>
          (if code \<noteq> 200 then (Inl (PlainError (''settlement report: HTTP '' @ show_int code)), s1)
           else
             (case Option.bind (Decode body) (decode_struct report_fields report_zero) of
                None \<Rightarrow> (Inl JsonError, s1)
              | Some r \<Rightarrow> (Inr r, s1))))"

subsection \<open>What our books say\<close>

text \<open>The references booked within the coverage, without duplicates, and how many rows are outside.\<close>

fun scan_booked :: "time \<Rightarrow> payment_row list \<Rightarrow> string list \<Rightarrow> nat \<Rightarrow> string list \<times> nat" where
  "scan_booked since [] booked out = (booked, out)"
| "scan_booked since (r # rs) booked out =
     (if pr_updated_at r < since then scan_booked since rs booked (out + 1)
      else scan_booked since rs (List.insert (derefS (pr_psp_reference r)) booked) out)"

definition booked_row :: "payment_row \<Rightarrow> bool" where
  "booked_row r \<longleftrightarrow> pr_step r = Captured \<and> pr_psp_reference r \<noteq> None"

definition bookedReferences :: "'w env \<Rightarrow> time \<Rightarrow> 'w sys \<Rightarrow> (go_error + string list \<times> nat) \<times> 'w sys" where
  "bookedReferences env since s =
     (case query_payments env [''psp_reference'', ''updated_at'', ''step''] (\<lambda>now. booked_row) s of
        (Inl e, s1) \<Rightarrow> (Inl e, s1)
      | (Inr rows, s1) \<Rightarrow> (Inr (scan_booked since rows [] 0), s1))"

subsection \<open>The comparison\<close>

text \<open>Over the report: what is settled but not booked, what is settled more than once.\<close>

fun scan_captures :: "time \<Rightarrow> string list \<Rightarrow> settlement_entry list \<Rightarrow> nat \<times> nat \<Rightarrow> nat \<times> nat" where
  "scan_captures cutoff booked [] (unbooked, doubled) = (unbooked, doubled)"
| "scan_captures cutoff booked (e # es) (unbooked, doubled) =
     (let doubled = (if 1 < se_settled e then doubled + 1 else doubled)
      in case Parse_RFC3339 (se_captured_at e) of
           None \<Rightarrow> scan_captures cutoff booked es (unbooked, doubled)
         | Some t \<Rightarrow>
             (if cutoff < t then scan_captures cutoff booked es (unbooked, doubled)
              else if se_reference e \<in> set booked then scan_captures cutoff booked es (unbooked, doubled)
              else scan_captures cutoff booked es (unbooked + 1, doubled)))"

fun scan_unsettled :: "string list \<Rightarrow> string list \<Rightarrow> nat" where
  "scan_unsettled settled [] = 0"
| "scan_unsettled settled (ref # refs) =
     (if ref \<in> set settled then 0 else 1) + scan_unsettled settled refs"

definition snapshot_status :: "nat \<Rightarrow> nat \<Rightarrow> nat \<Rightarrow> nat \<Rightarrow> string" where
  "snapshot_status unbooked unsettled doubled out =
     (if 0 < unbooked \<or> 0 < unsettled \<or> 0 < doubled then ''drift_detected''
      else if 0 < out then ''coverage_gap'' else ''clean'')"

definition snapshot_zero :: snapshot where
  "snapshot_zero = \<lparr>sn_status = [], sn_ran_at = [], sn_report_since = [], sn_settled_not_booked = 0,
     sn_booked_not_settled = 0, sn_double_settled = 0, sn_out_of_coverage = 0, sn_detail = []\<rparr>"

text \<open>\<open>Reconciler.record\<close> and \<open>Reconciler.Snapshot\<close>.\<close>

definition record_snapshot :: "'w env \<Rightarrow> snapshot \<Rightarrow> 'w sys \<Rightarrow> 'w sys" where
  "record_snapshot env sn s =
     s\<lparr>last_snapshot := sn\<lparr>sn_ran_at := Format_RFC3339 (clock env (world s))\<rparr>\<rparr>"

definition Snapshot :: "'w sys \<Rightarrow> snapshot" where
  "Snapshot s = last_snapshot s"

definition unavailable :: "'w env \<Rightarrow> string \<Rightarrow> 'w sys \<Rightarrow> 'w sys" where
  "unavailable env detail s =
     record_snapshot env (snapshot_zero\<lparr>sn_status := ''unavailable'', sn_detail := detail\<rparr>) s"

definition compare_books :: "'w env \<Rightarrow> duration \<Rightarrow> settlement_report \<Rightarrow> string list \<Rightarrow> nat \<Rightarrow> 'w sys \<Rightarrow> 'w sys" where
  "compare_books env grace report booked out s =
     (let cutoff = clock env (world s) - grace
      in case scan_captures cutoff booked (st_captures report) (0, 0) of (unbooked, doubled) \<Rightarrow>
        (let unsettled = scan_unsettled (map se_reference (st_captures report)) booked
         in record_snapshot env
              (snapshot_zero\<lparr>sn_status := snapshot_status unbooked unsettled doubled out,
                 sn_report_since := st_report_since report,
                 sn_settled_not_booked := int unbooked, sn_booked_not_settled := int unsettled,
                 sn_double_settled := int doubled, sn_out_of_coverage := int out\<rparr>) s))"

definition reconcile :: "'w env \<Rightarrow> duration \<Rightarrow> 'w sys \<Rightarrow> 'w sys" where
  "reconcile env grace s =
     (case fetchSettlement env s of
        (Inl e, s1) \<Rightarrow> unavailable env (sprint_error env e) s1
      | (Inr report, s1) \<Rightarrow>
          (case Parse_RFC3339 (st_report_since report) of
             None \<Rightarrow> unavailable env ''unusable report_since'' s1
           | Some since \<Rightarrow>
               (case bookedReferences env since s1 of
                  (Inl e, s2) \<Rightarrow> unavailable env (sprint_error env e) s2
                | (Inr (booked, out), s2) \<Rightarrow> compare_books env grace report booked out s2)))"

subsection \<open>What the loops count\<close>

definition within :: "time \<Rightarrow> payment_row \<Rightarrow> bool" where
  "within since r \<longleftrightarrow> \<not> pr_updated_at r < since"

lemma scan_booked_spec:
  "set (fst (scan_booked since rs booked out)) =
     set booked \<union> derefS ` pr_psp_reference ` set (filter (within since) rs)"
  "snd (scan_booked since rs booked out) = out + length (filter (\<lambda>r. \<not> within since r) rs)"
  "distinct booked \<Longrightarrow> distinct (fst (scan_booked since rs booked out))"
  by (induction rs arbitrary: booked out) (auto simp: within_def)

text \<open>An entry old enough to be evidence.\<close>

definition mature :: "time \<Rightarrow> settlement_entry \<Rightarrow> bool" where
  "mature cutoff e \<longleftrightarrow> (case Parse_RFC3339 (se_captured_at e) of None \<Rightarrow> False | Some t \<Rightarrow> t \<le> cutoff)"

lemma scan_captures_spec:
  "scan_captures cutoff booked es (u, d) =
     (u + length (filter (\<lambda>e. mature cutoff e \<and> se_reference e \<notin> set booked) es),
      d + length (filter (\<lambda>e. 1 < se_settled e) es))"
  by (induction es arbitrary: u d) (auto simp: mature_def Let_def split: option.split)

lemma scan_unsettled_spec:
  "scan_unsettled settled refs = length (filter (\<lambda>r. r \<notin> set settled) refs)"
  by (induction refs) auto

subsection \<open>The specification of a run\<close>

text \<open>The counts, over the rows of the table and the entries of the report.\<close>

definition booked_as :: "time \<Rightarrow> database \<Rightarrow> string \<Rightarrow> bool" where
  "booked_as since d ref \<longleftrightarrow>
     (\<exists>r \<in> set (payments d). pr_step r = Captured \<and> since \<le> pr_updated_at r \<and> pr_psp_reference r = Some ref)"

definition unbooked_entries :: "time \<Rightarrow> time \<Rightarrow> settlement_report \<Rightarrow> database \<Rightarrow> settlement_entry list" where
  "unbooked_entries since cutoff report d =
     filter (\<lambda>e. mature cutoff e \<and> \<not> booked_as since d (se_reference e)) (st_captures report)"

definition unsettled_references :: "time \<Rightarrow> settlement_report \<Rightarrow> database \<Rightarrow> string set" where
  "unsettled_references since report d =
     {ref. booked_as since d ref \<and> ref \<notin> se_reference ` set (st_captures report)}"

definition doubled_entries :: "settlement_report \<Rightarrow> settlement_entry list" where
  "doubled_entries report = filter (\<lambda>e. 1 < se_settled e) (st_captures report)"

definition uncovered_rows :: "time \<Rightarrow> database \<Rightarrow> payment_row list" where
  "uncovered_rows since d = filter (\<lambda>r. booked_row r \<and> pr_updated_at r < since) (payments d)"

lemma bookedReferences_spec:
  assumes "bookedReferences env since s = (Inr (booked, out), s')"
  shows "untouched s s'" and "distinct booked" and "ref \<in> set booked \<longleftrightarrow> booked_as since (db s) ref"
    and "out = length (uncovered_rows since (db s))"
proof -
  obtain ok t where t: "ask (db_read env) s = (ok, t)" by fastforce
  with assms have s': "s' = t" and scan: "scan_booked since (filter booked_row (payments (db t))) [] 0 = (booked, out)"
    by (auto simp: bookedReferences_def query_payments_def split: if_splits)
  have db: "db t = db s"
    using ask_eqD [OF t] by simp
  show "untouched s s'"
    using ask_untouched [OF t] s' by simp
  show "distinct booked"
    using scan_booked_spec(3) [of "[]" since "filter booked_row (payments (db t))" 0] scan by simp
  have "set booked = derefS ` pr_psp_reference ` set (filter (within since) (filter booked_row (payments (db t))))"
    using scan_booked_spec(1) [of since "filter booked_row (payments (db t))" "[]" 0] scan by simp
  then have "ref \<in> set booked \<longleftrightarrow> (\<exists>r \<in> set (payments (db t)). within since r \<and> booked_row r
      \<and> ref = derefS (pr_psp_reference r))"
    by auto
  also have "\<dots> \<longleftrightarrow> booked_as since (db s) ref"
    unfolding booked_as_def db
    by (rule bex_cong) (auto simp: booked_row_def within_def derefS_def split: option.splits)
  finally show "ref \<in> set booked \<longleftrightarrow> booked_as since (db s) ref" .
  have "out = length (filter (\<lambda>r. \<not> within since r) (filter booked_row (payments (db t))))"
    using scan_booked_spec(2) [of since "filter booked_row (payments (db t))" "[]" 0] scan by simp
  also have "filter (\<lambda>r. \<not> within since r) (filter booked_row (payments (db t))) = uncovered_rows since (db s)"
    using db by (auto simp: uncovered_rows_def within_def intro!: filter_cong)
  finally show "out = length (uncovered_rows since (db s))" .
qed

lemma fetchSettlement_untouched: "fetchSettlement env s = (r, s') \<Longrightarrow> untouched s s'"
proof -
  assume f: "fetchSettlement env s = (r, s')"
  obtain a t where t: "ask (http_get env (psp_base env @ ''/settlement'')) s = (a, t)" by fastforce
  from f t ask_untouched [OF t] show ?thesis
    by (cases a) (auto simp: fetchSettlement_def split: if_splits option.splits)
qed

text \<open>The snapshot that a comparison records.\<close>

definition report_snapshot :: "time \<Rightarrow> time \<Rightarrow> time \<Rightarrow> settlement_report \<Rightarrow> database \<Rightarrow> snapshot" where
  "report_snapshot now since cutoff report d =
     (let a = length (unbooked_entries since cutoff report d); b = card (unsettled_references since report d);
          c = length (doubled_entries report); n = length (uncovered_rows since d)
      in \<lparr>sn_status = snapshot_status a b c n, sn_ran_at = Format_RFC3339 now,
          sn_report_since = st_report_since report, sn_settled_not_booked = int a,
          sn_booked_not_settled = int b, sn_double_settled = int c, sn_out_of_coverage = int n,
          sn_detail = []\<rparr>)"

lemma compare_books_spec:
  assumes "distinct booked" and "\<And>ref. ref \<in> set booked \<longleftrightarrow> booked_as since d ref"
    and "out = length (uncovered_rows since d)"
  shows "compare_books env grace report booked out s =
    s\<lparr>last_snapshot := report_snapshot (clock env (world s)) since (clock env (world s) - grace) report d\<rparr>"
proof -
  have "filter (\<lambda>e. mature cutoff e \<and> se_reference e \<notin> set booked) (st_captures report)
      = unbooked_entries since cutoff report d" for cutoff
    by (simp add: unbooked_entries_def assms(2))
  moreover have "set (filter (\<lambda>r. r \<notin> se_reference ` set (st_captures report)) booked)
      = unsettled_references since report d"
    using assms(2) by (auto simp: unsettled_references_def)
  then have "length (filter (\<lambda>r. r \<notin> se_reference ` set (st_captures report)) booked)
      = card (unsettled_references since report d)"
    using assms(1) by (metis distinct_card distinct_filter)
  ultimately show ?thesis
    by (simp add: compare_books_def scan_captures_spec scan_unsettled_spec record_snapshot_def
        snapshot_zero_def report_snapshot_def doubled_entries_def assms(3) Let_def)
qed

text \<open>A run looks and records; it touches no payment, calls no service, publishes nothing.\<close>

lemma reconcile_frame:
  "db (reconcile env grace s) = db s" "bus (reconcile env grace s) = bus s"
  "spawned (reconcile env grace s) = spawned s" "calls (reconcile env grace s) = calls s"
  "produced (reconcile env grace s) = produced s"
proof -
  have stored: "db (record_snapshot env sn t) = db t" "bus (record_snapshot env sn t) = bus t"
    "spawned (record_snapshot env sn t) = spawned t" "calls (record_snapshot env sn t) = calls t"
    "produced (record_snapshot env sn t) = produced t" for sn t
    by (simp_all add: record_snapshot_def)
  obtain r t where t: "fetchSettlement env s = (r, t)" by fastforce
  obtain b u where u: "bookedReferences env (the (Parse_RFC3339 (st_report_since (projr r)))) t = (b, u)" by fastforce
  have "untouched s t" by (rule fetchSettlement_untouched [OF t])
  moreover have "untouched t u"
  proof -
    obtain ok v where v: "ask (db_read env) t = (ok, v)" by fastforce
    from u v ask_untouched [OF v] show ?thesis
      by (auto simp: bookedReferences_def query_payments_def split: if_splits)
  qed
  ultimately have frames: "db t = db s" "bus t = bus s" "spawned t = spawned s" "calls t = calls s" "produced t = produced s"
    "db u = db s" "bus u = bus s" "spawned u = spawned s" "calls u = calls s" "produced u = produced s"
    by (simp_all add: untouched_def)
  show "db (reconcile env grace s) = db s" "bus (reconcile env grace s) = bus s"
    "spawned (reconcile env grace s) = spawned s" "calls (reconcile env grace s) = calls s"
    "produced (reconcile env grace s) = produced s"
    using t u frames
    by (cases r; cases "Parse_RFC3339 (st_report_since (projr r))"; cases b;
        simp add: reconcile_def unavailable_def compare_books_def Let_def stored split: prod.split)+
qed

text \<open>
  With a report, a usable period and the database at hand, the snapshot is the one of the
  specification, for a cutoff one grace period before the instant of the comparison, which
  follows the read of the database.
\<close>

definition compared_at :: "'w env \<Rightarrow> 'w sys \<Rightarrow> time" where
  "compared_at env s1 = clock env (snd (db_read env (world s1)))"

lemma reconcile_spec:
  assumes "fetchSettlement env s = (Inr report, s1)" and "Parse_RFC3339 (st_report_since report) = Some since"
    and "fst (db_read env (world s1))"
  shows "last_snapshot (reconcile env grace s)
    = report_snapshot (compared_at env s1) since (compared_at env s1 - grace) report (db s)"
proof -
  obtain t where t: "ask (db_read env) s1 = (True, t)"
    using ask_answer [of "db_read env" s1 True] assms(3) by auto
  obtain booked out where "scan_booked since (filter booked_row (payments (db t))) [] 0 = (booked, out)"
    by fastforce
  with t have u: "bookedReferences env since s1 = (Inr (booked, out), t)"
    by (simp add: bookedReferences_def query_payments_def payments_columns_def)
  note spec = bookedReferences_spec [OF u]
  have db: "db s1 = db s"
    using fetchSettlement_untouched [OF assms(1)] by (simp add: untouched_def)
  have "reconcile env grace s = compare_books env grace report booked out t"
    using assms u by (simp add: reconcile_def)
  moreover have "clock env (world t) = compared_at env s1"
    using ask_eqD [OF t] by (simp add: compared_at_def)
  ultimately show ?thesis
    using compare_books_spec [OF spec(2) spec(3) spec(4), of env grace report t] db by simp
qed

lemma finite_unsettled: "finite (unsettled_references since report d)"
proof (rule finite_subset)
  show "unsettled_references since report d \<subseteq> (\<lambda>r. derefS (pr_psp_reference r)) ` set (payments d)"
    by (force simp: unsettled_references_def booked_as_def derefS_def image_iff split: option.splits)
qed simp

lemma status_clean_iff:
  "snapshot_status a b c n = ''clean'' \<longleftrightarrow> a = 0 \<and> b = 0 \<and> c = 0 \<and> n = 0"
  by (auto simp: snapshot_status_def)

end
