(* ===== verification/Server.thy ===== *)
theory Server
  imports Http Sha256 GoTime Idempotency StepUp Sweeps Reconcile
begin

section \<open>The payments API\<close>

text \<open>
  The handlers of \<open>internal/httpapi/server.go\<close>, one definition each, in the order of the file.
  \<open>server\<close> is the part of \<open>Server\<close> that is configuration. A handler takes the request with the
  headers the gateway's middleware left and returns its answer; the event stream is in \<open>Stream\<close>.
\<close>

record server =
  quoteTTL :: duration
  stepUpAmountLimit :: int
  stepUpMaxAge :: duration
  has_reconciler :: bool

subsection \<open>Health\<close>

definition live :: response where
  "live = writeJSON 200 (GObj [(''status'', GStr ''ok'')])"

definition snapshot_json :: "snapshot \<Rightarrow> gvalue" where
  "snapshot_json sn =
     GObj ([(''status'', GStr (sn_status sn)), (''ran_at'', GStr (sn_ran_at sn)),
        (''report_since'', GStr (sn_report_since sn)),
        (''settled_not_booked'', GInt (sn_settled_not_booked sn)),
        (''booked_not_settled'', GInt (sn_booked_not_settled sn)),
        (''double_settled'', GInt (sn_double_settled sn)),
        (''out_of_coverage_bookings'', GInt (sn_out_of_coverage sn))]
      @ (if sn_detail sn = [] then [] else [(''detail'', GStr (sn_detail sn))]))"

definition reconciliation :: "server \<Rightarrow> 'w sys \<Rightarrow> response" where
  "reconciliation sv s =
     (if \<not> has_reconciler sv then writeJSON 200 (GObj [(''status'', GStr ''disabled'')])
      else writeJSON 200 (snapshot_json (Snapshot s)))"

definition up_down :: "bool \<Rightarrow> gvalue" where
  "up_down ok = GStr (if ok then ''up'' else ''down'')"

definition ready :: "'w env \<Rightarrow> 'w sys \<Rightarrow> response \<times> 'w sys" where
  "ready env s =
     (case ask (db_read env) s of (postgres, s1) \<Rightarrow>
        (case ask (kafka_ping env) s1 of (kafka, s2) \<Rightarrow>
           (writeJSON (if postgres \<and> kafka then 200 else 503)
              (GObj [(''kafka'', up_down kafka), (''postgres'', up_down postgres)]), s2)))"

subsection \<open>The body of a payment request\<close>

record amount_req =
  MinorUnits :: int
  CurrencyCode :: string

record createPaymentReq =
  req_AccountID :: string
  req_MerchantID :: string
  req_InstrumentID :: string
  req_FxQuoteID :: string
  req_Amount :: amount_req

definition amount_zero :: amount_req where
  "amount_zero = \<lparr>MinorUnits = 0, CurrencyCode = []\<rparr>"

definition create_zero :: createPaymentReq where
  "create_zero = \<lparr>req_AccountID = [], req_MerchantID = [], req_InstrumentID = [], req_FxQuoteID = [],
     req_Amount = amount_zero\<rparr>"

definition amount_fields :: "amount_req field list" where
  "amount_fields =
     [(''amount_minor_units'', \<lambda>a v. map_option (\<lambda>x. a\<lparr>MinorUnits := x\<rparr>) (decode_int 64 (MinorUnits a) v)),
      (''currency_code'', \<lambda>a v. map_option (\<lambda>x. a\<lparr>CurrencyCode := x\<rparr>) (decode_string (CurrencyCode a) v))]"

definition create_fields :: "createPaymentReq field list" where
  "create_fields =
     [(''account_id'', \<lambda>r v. map_option (\<lambda>x. r\<lparr>req_AccountID := x\<rparr>) (decode_string (req_AccountID r) v)),
      (''merchant_id'', \<lambda>r v. map_option (\<lambda>x. r\<lparr>req_MerchantID := x\<rparr>) (decode_string (req_MerchantID r) v)),
      (''instrument_id'', \<lambda>r v. map_option (\<lambda>x. r\<lparr>req_InstrumentID := x\<rparr>) (decode_string (req_InstrumentID r) v)),
      (''fx_quote_id'', \<lambda>r v. map_option (\<lambda>x. r\<lparr>req_FxQuoteID := x\<rparr>) (decode_string (req_FxQuoteID r) v)),
      (''amount'', \<lambda>r v. map_option (\<lambda>x. r\<lparr>req_Amount := x\<rparr>) (decode_struct amount_fields (req_Amount r) v))]"

definition decode_create :: "string \<Rightarrow> createPaymentReq option" where
  "decode_create body = Option.bind (Unmarshal body) (decode_struct create_fields create_zero)"

text \<open>The probe of the gate reads the amount alone.\<close>

definition probe_amount_fields :: "int field list" where
  "probe_amount_fields = [(''amount_minor_units'', decode_int 64)]"

definition probe_fields :: "int field list" where
  "probe_fields = [(''amount'', decode_struct probe_amount_fields)]"

definition decode_probe :: "string \<Rightarrow> int option" where
  "decode_probe body = Option.bind (Unmarshal body) (decode_struct probe_fields 0)"

subsection \<open>Creating a payment\<close>

text \<open>
  A column of type \<open>char(n)\<close> pads with spaces to \<open>n\<close> characters. The insert fails when a
  constraint of the table does: the key, the references to the merchant, the instrument and the
  quote, a positive amount; and a text with a NUL is no text to the database.
\<close>

fun rune_count :: "string \<Rightarrow> nat" where
  "rune_count [] = 0"
| "rune_count (c # r) = Suc (rune_count (drop (rune_len (c # r) - 1) r))"

definition char_column :: "nat \<Rightarrow> string \<Rightarrow> string" where
  "char_column n t = t @ replicate (n - rune_count t) CHR '' ''"

definition no_nul :: "string \<Rightarrow> bool" where
  "no_nul t \<longleftrightarrow> list_all (\<lambda>c. byte c \<noteq> 0) t"

definition row_allowed :: "database \<Rightarrow> payment_row \<Rightarrow> bool" where
  "row_allowed d r \<longleftrightarrow>
     \<not> sql_exists (\<lambda>x. pr_id x = pr_id r) (payments d)
   \<and> sql_exists (\<lambda>m. mc_id m = pr_merchant_id r) (merchants d)
   \<and> sql_exists (\<lambda>n. in_id n = pr_instrument_id r) (instruments d)
   \<and> (case pr_fx_quote_id r of None \<Rightarrow> True | Some q \<Rightarrow> sql_exists (\<lambda>f. fx_id f = q) (fx_quotes d))
   \<and> 0 < pr_amount r \<and> no_nul (pr_merchant_id r) \<and> no_nul (pr_currency r)"

definition requested_row :: "uuid \<Rightarrow> uuid \<Rightarrow> uuid \<Rightarrow> uuid \<Rightarrow> uuid option \<Rightarrow> createPaymentReq \<Rightarrow> time \<Rightarrow> payment_row" where
  "requested_row pid user account instrument fx req now =
     \<lparr>pr_id = pid, pr_user_id = user, pr_account_id = account, pr_merchant_id = req_MerchantID req,
      pr_instrument_id = instrument, pr_amount = MinorUnits (req_Amount req),
      pr_currency = char_column 3 (CurrencyCode (req_Amount req)), pr_fx_quote_id = fx,
      pr_status = Processing, pr_step = Requested, pr_hold_id = None, pr_psp_reference = None,
      pr_failure_code = None, pr_failure_detail = None, pr_risk_score = None, pr_version = 0,
      pr_created_at = now, pr_updated_at = now\<rparr>"

text \<open>The transaction: the row and its event, or neither.\<close>

definition insert_payment :: "'w env \<Rightarrow> uuid \<Rightarrow> uuid \<Rightarrow> uuid \<Rightarrow> uuid \<Rightarrow> uuid option \<Rightarrow> createPaymentReq
    \<Rightarrow> 'w sys \<Rightarrow> go_error option \<times> 'w sys" where
  "insert_payment env pid user account instrument fx req =
     begin_func env (\<lambda>t.
       let r = requested_row pid user account instrument fx req (clock env (world t))
       in if \<not> row_allowed (db t) r then (Some DbError, t)
          else (None, WriteRequestedEvent env pid user (req_MerchantID req) (MinorUnits (req_Amount req))
                  (CurrencyCode (req_Amount req)) fx (t\<lparr>db := (db t)\<lparr>payments := payments (db t) @ [r]\<rparr>\<rparr>)))"

text \<open>
  The quote a request names. The lookup's error is tested for no rows only: after any other
  error \<open>expiresAt\<close> is the zero time, which is past.
\<close>

definition quote_expired :: string where
  "quote_expired = ''fx quote expired '' @ map char_of [0xE2, 0x80, 0x94 :: nat] @ '' request a new quote''"

definition find_quote :: "'w env \<Rightarrow> string \<Rightarrow> 'w sys \<Rightarrow> (string + uuid option) \<times> 'w sys" where
  "find_quote env t s =
     (if t = [] then (Inr None, s)
      else
        (case uuid_parse env t of
           None \<Rightarrow> (Inl ''invalid fx_quote_id'', s)
         | Some q \<Rightarrow>
             (case ask (db_read env) s of (ok, s1) \<Rightarrow>
                (if \<not> ok then (Inl quote_expired, s1)
                 else
                   (case sql_select_one (\<lambda>f. fx_id f = q) (fx_quotes (db s1)) of
                      None \<Rightarrow> (Inl ''unknown fx_quote_id'', s1)
                    | Some f \<Rightarrow>
                        (if fx_expires_at f < clock env (world s1)
                         then (Inl quote_expired, s1)
                         else (Inr (Some q), s1)))))))"

text \<open>\<open>executeCreate\<close>: the code and the body of the answer.\<close>

definition accepted_json :: "'w env \<Rightarrow> uuid \<Rightarrow> createPaymentReq \<Rightarrow> gvalue" where
  "accepted_json env pid req =
     GObj [(''amount'', GObj [(''amount_minor_units'', GInt (MinorUnits (req_Amount req))),
          (''currency_code'', GStr (CurrencyCode (req_Amount req)))]),
       (''id'', GStr (uuid_str env pid)), (''merchant_id'', GStr (req_MerchantID req)),
       (''status'', GStr ''processing'')]"

definition create_payment :: "'w env \<Rightarrow> uuid \<Rightarrow> uuid \<Rightarrow> uuid \<Rightarrow> uuid option \<Rightarrow> createPaymentReq
    \<Rightarrow> 'w sys \<Rightarrow> (int \<times> gvalue) \<times> 'w sys" where
  "create_payment env user account instrument fx req s =
     (case ask (uuid_new env) s of (pid, s1) \<Rightarrow>
        (case insert_payment env pid user account instrument fx req s1 of
           (Some _, s2) \<Rightarrow> ((500, problem ''could not create payment''), s2)
         | (None, s2) \<Rightarrow>
             ((202, accepted_json env pid req), s2\<lparr>spawned := spawned s2 @ [pid]\<rparr>)))"

definition executeCreate :: "'w env \<Rightarrow> uuid \<Rightarrow> string \<Rightarrow> 'w sys \<Rightarrow> (int \<times> gvalue) \<times> 'w sys" where
  "executeCreate env user body s =
     (case decode_create body of
        None \<Rightarrow> ((400, problem ''malformed JSON body''), s)
      | Some req \<Rightarrow>
          (case (uuid_parse env (req_AccountID req), uuid_parse env (req_InstrumentID req)) of
             (Some account, Some instrument) \<Rightarrow>
               (if req_MerchantID req = [] then
                  ((400, problem ''account_id, instrument_id and merchant_id are required''), s)
                else if MinorUnits (req_Amount req) \<le> 0 \<or> length (CurrencyCode (req_Amount req)) \<noteq> 3 then
                  ((400, problem ''amount must be positive minor units with ISO-4217 currency''), s)
                else
                  (case find_quote env (req_FxQuoteID req) s of
                     (Inl detail, s1) \<Rightarrow> ((400, problem detail), s1)
                   | (Inr fx, s1) \<Rightarrow> create_payment env user account instrument fx req s1))
           | _ \<Rightarrow> ((400, problem ''account_id, instrument_id and merchant_id are required''), s)))"

text \<open>The gate in front of the key: a body the probe cannot read passes (and fails below).\<close>

definition gated :: "'w env \<Rightarrow> server \<Rightarrow> headers \<Rightarrow> string \<Rightarrow> 'w sys \<Rightarrow> bool" where
  "gated env sv h body s =
     (case decode_probe body of
        None \<Rightarrow> False
      | Some amount \<Rightarrow>
          stepUpRequired (clock env (world s)) (stepUpAmountLimit sv) (stepUpMaxAge sv) h amount)"

definition replayed :: "replay \<Rightarrow> response" where
  "replayed r =
     \<lparr>rs_code = Code r, rs_headers = [(''Content-Type'', ''application/json''), (''Idempotency-Replayed'', ''true'')],
      rs_body = Body r\<rparr>"

definition executed :: "int \<times> gvalue \<Rightarrow> response" where
  "executed a =
     \<lparr>rs_code = fst a, rs_headers = [(''Content-Type'', ''application/json'')], rs_body = print (snd a)\<rparr>"

definition run_once :: "'w env \<Rightarrow> uuid \<Rightarrow> string \<Rightarrow> string \<Rightarrow> 'w sys \<Rightarrow> response \<times> 'w sys" where
  "run_once env user key body s =
     (case executeCreate env user body s of (a, s1) \<Rightarrow>
        (case Complete env user key (fst a) (print (snd a)) s1 of (_, s2) \<Rightarrow> (executed a, s2)))"

definition claim_and_run :: "'w env \<Rightarrow> uuid \<Rightarrow> string \<Rightarrow> string \<Rightarrow> 'w sys \<Rightarrow> response \<times> 'w sys" where
  "claim_and_run env user key body s =
     (case Begin env user key (HashBody body) s of
        (Inl ErrPayloadMismatch, s1) \<Rightarrow>
          (httpError 422 ''idempotency key reused with different payload'', s1)
      | (Inl ErrInFlight, s1) \<Rightarrow>
          (httpError 409 ''request in flight for this idempotency key'', s1)
      | (Inl (BeginFailed _), s1) \<Rightarrow> (fail_answer, s1)
      | (Inr (Some r), s1) \<Rightarrow> (replayed r, s1)
      | (Inr None, s1) \<Rightarrow> run_once env user key body s1)"

definition body_limit :: nat where
  "body_limit = 65536"

definition createPayment :: "'w env \<Rightarrow> server \<Rightarrow> request \<Rightarrow> 'w sys \<Rightarrow> response \<times> 'w sys" where
  "createPayment env sv rq s =
     (let h = rq_headers rq; key = Get h ''Idempotency-Key'' in
      case uuid_parse env (Get h ''X-User-Id'') of
        None \<Rightarrow> (httpError 401 ''missing identity'', s)
      | Some user \<Rightarrow>
          (if key = [] \<or> 255 < length key then (httpError 400 ''Idempotency-Key header is required'', s)
           else
             (case rq_body rq of
                None \<Rightarrow> (httpError 400 ''unreadable body'', s)
              | Some b \<Rightarrow>
                  (if gated env sv h (take body_limit b) s then
                     (writeJSON 401 (problem ''step_up_required: this amount requires a recent second factor''), s)
                   else claim_and_run env user key (take body_limit b) s))))"

subsection \<open>Resuming and reading a payment\<close>

fun is_not_resumable :: "go_error \<Rightarrow> bool" where
  "is_not_resumable NotResumable = True"
| "is_not_resumable (Wrapped _ e) = is_not_resumable e"
| "is_not_resumable _ = False"

text \<open>The caller and the payment the path names: an answer when either is missing.\<close>

definition caller_and_id :: "'w env \<Rightarrow> request \<Rightarrow> string \<Rightarrow> response + uuid \<times> uuid" where
  "caller_and_id env rq t =
     (case uuid_parse env (Get (rq_headers rq) ''X-User-Id'') of
        None \<Rightarrow> Inl (httpError 401 ''missing identity'')
      | Some user \<Rightarrow>
          (case uuid_parse env t of
             None \<Rightarrow> Inl (httpError 400 ''invalid payment id'')
           | Some i \<Rightarrow> Inr (user, i)))"

definition resumePayment :: "'w env \<Rightarrow> server \<Rightarrow> request \<Rightarrow> string \<Rightarrow> 'w sys \<Rightarrow> response \<times> 'w sys" where
  "resumePayment env sv rq t s =
     (case caller_and_id env rq t of
        Inl a \<Rightarrow> (a, s)
      | Inr (user, i) \<Rightarrow>
          (let auth = readAuthStrength (rq_headers rq) in
           if \<not> steppedUp auth \<or> \<not> fresh_auth (clock env (world s)) (stepUpMaxAge sv) auth then
             (writeJSON 401 (problem ''step_up_required: complete a recent second factor to resume this payment''), s)
           else
             (case ResumeAfterStepUp env i user s of
                (None, s1) \<Rightarrow>
                  (writeJSON 202 (GObj [(''id'', GStr (uuid_str env i)), (''status'', GStr ''processing'')]), s1)
              | (Some e, s1) \<Rightarrow>
                  (if is_not_resumable e then httpError 409 ''payment is not awaiting step-up'' else fail_answer, s1))))"

definition payment_json :: "'w env \<Rightarrow> payment_row \<Rightarrow> merchant_row \<Rightarrow> gvalue" where
  "payment_json env r m =
     GObj [(''amount'', GObj [(''amount_minor_units'', GInt (pr_amount r)), (''currency_code'', GStr (pr_currency r))]),
       (''created_at'', GStr (Format_RFC3339Nano (pr_created_at r))),
       (''failure_code'', of_ptr (pr_failure_code r)), (''failure_detail'', of_ptr (pr_failure_detail r)),
       (''id'', GStr (uuid_str env (pr_id r))), (''instrument_id'', GStr (uuid_str env (pr_instrument_id r))),
       (''merchant_id'', GStr (pr_merchant_id r)), (''merchant_name'', GStr (mc_display_name m)),
       (''psp_reference'', of_ptr (pr_psp_reference r)), (''status'', GStr (status_text (pr_status r))),
       (''step'', GStr (step_text (pr_step r))),
       (''updated_at'', GStr (Format_RFC3339Nano (pr_updated_at r)))]"

definition own_payment :: "uuid \<Rightarrow> uuid \<Rightarrow> payment_row \<Rightarrow> bool" where
  "own_payment user i r \<longleftrightarrow> pr_id r = i \<and> pr_user_id r = user"

definition getPayment :: "'w env \<Rightarrow> request \<Rightarrow> string \<Rightarrow> 'w sys \<Rightarrow> response \<times> 'w sys" where
  "getPayment env rq t s =
     (case caller_and_id env rq t of
        Inl a \<Rightarrow> (a, s)
      | Inr (user, i) \<Rightarrow>
          (case ask (db_read env) s of (ok, s1) \<Rightarrow>
             ((if \<not> ok then httpError 404 ''payment not found''
               else
                 (case sql_select_one (own_payment user i) (payments (db s1)) of
                    None \<Rightarrow> httpError 404 ''payment not found''
                  | Some r \<Rightarrow>
                      (case sql_select_one (\<lambda>m. mc_id m = pr_merchant_id r) (merchants (db s1)) of
                         None \<Rightarrow> httpError 404 ''payment not found''
                       | Some m \<Rightarrow> writeJSON 200 (payment_json env r m)))), s1)))"

subsection \<open>Lists\<close>

text \<open>\<open>order by\<close> a text column: a stable insertion sort under the database's order of texts.\<close>

fun insert_by :: "('a \<Rightarrow> 'a \<Rightarrow> bool) \<Rightarrow> 'a \<Rightarrow> 'a list \<Rightarrow> 'a list" where
  "insert_by le x [] = [x]"
| "insert_by le x (y # ys) = (if le x y then x # y # ys else y # insert_by le x ys)"

definition order_by :: "('a \<Rightarrow> 'a \<Rightarrow> bool) \<Rightarrow> 'a list \<Rightarrow> 'a list" where
  "order_by le xs = foldr (insert_by le) xs []"

definition of_int_ptr :: "int option \<Rightarrow> gvalue" where
  "of_int_ptr p = (case p of None \<Rightarrow> GNull | Some i \<Rightarrow> GInt i)"

definition instrument_json :: "'w env \<Rightarrow> instrument_row \<Rightarrow> gvalue" where
  "instrument_json env n =
     GObj [(''instrument_id'', GStr (uuid_str env (in_id n))), (''method'', GStr (in_method n)),
       (''brand'', of_ptr (in_brand n)), (''last4'', of_ptr (in_last4 n)),
       (''exp_month'', of_int_ptr (in_exp_month n)), (''exp_year'', of_int_ptr (in_exp_year n))]"

definition listInstruments :: "'w env \<Rightarrow> 'w sys \<Rightarrow> response \<times> 'w sys" where
  "listInstruments env s =
     (case ask (db_read env) s of (ok, s1) \<Rightarrow>
        ((if \<not> ok then fail_answer
          else writeJSON 200 (GObj [(''instruments'',
            GArr (map (instrument_json env)
              (order_by (\<lambda>a b. text_le env (in_method a) (in_method b)) (instruments (db s1)))))])), s1))"

definition merchant_json :: "merchant_row \<Rightarrow> gvalue" where
  "merchant_json m =
     GObj [(''merchant_id'', GStr (mc_id m)), (''display_name'', GStr (mc_display_name m)),
       (''category'', GStr (mc_category m))]"

definition listMerchants :: "'w env \<Rightarrow> 'w sys \<Rightarrow> response \<times> 'w sys" where
  "listMerchants env s =
     (case ask (db_read env) s of (ok, s1) \<Rightarrow>
        ((if \<not> ok then fail_answer
          else writeJSON 200 (GObj [(''merchants'',
            GArr (map merchant_json
              (order_by (\<lambda>a b. text_le env (mc_display_name a) (mc_display_name b)) (merchants (db s1)))))])), s1))"

subsection \<open>Quotes\<close>

record fxQuoteReq =
  fq_Amount :: amount_req
  fq_TargetCurrency :: string

definition quote_fields :: "fxQuoteReq field list" where
  "quote_fields =
     [(''amount'', \<lambda>r v. map_option (\<lambda>x. r\<lparr>fq_Amount := x\<rparr>) (decode_struct amount_fields (fq_Amount r) v)),
      (''target_currency'', \<lambda>r v. map_option (\<lambda>x. r\<lparr>fq_TargetCurrency := x\<rparr>) (decode_string (fq_TargetCurrency r) v))]"

definition decode_quote :: "string \<Rightarrow> fxQuoteReq option" where
  "decode_quote body =
     Option.bind (Decode body) (decode_struct quote_fields \<lparr>fq_Amount = amount_zero, fq_TargetCurrency = []\<rparr>)"

text \<open>\<open>order by valid_from desc limit 1\<close>: the first of the rates of the pair that none is later than.\<close>

definition pair_rates :: "string \<Rightarrow> string \<Rightarrow> database \<Rightarrow> rate_row list" where
  "pair_rates base target d = filter (\<lambda>r. rt_base r = base \<and> rt_quote r = target) (exchange_rates d)"

definition latest_rate :: "string \<Rightarrow> string \<Rightarrow> database \<Rightarrow> rate_row option" where
  "latest_rate base target d =
     (let rs = pair_rates base target d
      in find (\<lambda>r. list_all (\<lambda>x. rt_valid_from x \<le> rt_valid_from r) rs) rs)"

text \<open>The rate of a pair, or the inverse of the rate of the opposite pair.\<close>

definition find_rate :: "'w env \<Rightarrow> string \<Rightarrow> string \<Rightarrow> 'w sys \<Rightarrow> (uuid \<times> string) option \<times> 'w sys" where
  "find_rate env base target s =
     (case ask (db_read env) s of (ok, s1) \<Rightarrow>
        (if \<not> ok \<or> \<not> no_nul base \<or> \<not> no_nul target then (None, s1)
         else
           (case latest_rate (char_column 3 base) (char_column 3 target) (db s1) of
              Some r \<Rightarrow> (Some (rt_id r, rt_rate r), s1)
            | None \<Rightarrow>
                (case ask (db_read env) s1 of (ok2, s2) \<Rightarrow>
                   (if \<not> ok2 then (None, s2)
                    else
                      (case latest_rate (char_column 3 target) (char_column 3 base) (db s2) of
                         Some r \<Rightarrow> (Some (rt_id r, numeric_inverse env (rt_rate r)), s2)
                       | None \<Rightarrow> (None, s2)))))))"

text \<open>A plain insert affects one row; no row affected stands for the violated primary key.\<close>

definition insert_quote :: "uuid \<Rightarrow> string \<Rightarrow> string \<Rightarrow> string \<Rightarrow> uuid \<Rightarrow> time \<Rightarrow> time \<Rightarrow> database \<Rightarrow> nat \<times> database" where
  "insert_quote i base target rate rate_id expires now d =
     (if sql_exists (\<lambda>f. fx_id f = i) (fx_quotes d) then (0, d)
      else (1, d\<lparr>fx_quotes := fx_quotes d @
          [\<lparr>fx_id = i, fx_base = char_column 3 base, fx_quote = char_column 3 target, fx_rate = rate,
            fx_rate_id = rate_id, fx_created_at = now, fx_expires_at = expires\<rparr>]\<rparr>))"

definition quote_json :: "'w env \<Rightarrow> uuid \<Rightarrow> string \<Rightarrow> string \<Rightarrow> string \<Rightarrow> time \<Rightarrow> gvalue" where
  "quote_json env i base target rate expires =
     GObj [(''base'', GStr base), (''expires_at'', GStr (Format_RFC3339Nano expires)), (''quote'', GStr target),
       (''quote_id'', GStr (uuid_str env i)), (''rate'', GStr rate)]"

definition make_quote :: "'w env \<Rightarrow> server \<Rightarrow> string \<Rightarrow> string \<Rightarrow> uuid \<times> string \<Rightarrow> 'w sys \<Rightarrow> response \<times> 'w sys" where
  "make_quote env sv base target rate s =
     (case ask (uuid_new env) s of (i, s1) \<Rightarrow>
        (let expires = clock env (world s1) + quoteTTL sv in
         case pool_exec env (insert_quote i base target (snd rate) (fst rate) expires) s1 of
           (Inl _, s2) \<Rightarrow> (fail_answer, s2)
         | (Inr n, s2) \<Rightarrow>
             (if n = 0 then (fail_answer, s2)
              else (writeJSON 200 (quote_json env i base target (snd rate) expires), s2))))"

definition fxQuote :: "'w env \<Rightarrow> server \<Rightarrow> request \<Rightarrow> 'w sys \<Rightarrow> response \<times> 'w sys" where
  "fxQuote env sv rq s =
     (case uuid_parse env (Get (rq_headers rq) ''X-User-Id'') of
        None \<Rightarrow> (httpError 401 ''missing identity'', s)
      | Some _ \<Rightarrow>
          (case Option.bind (rq_body rq) decode_quote of
             None \<Rightarrow> (httpError 400 ''malformed body'', s)
           | Some q \<Rightarrow>
               (let base = CurrencyCode (fq_Amount q); target = fq_TargetCurrency q in
                if length base \<noteq> 3 \<or> length target \<noteq> 3 \<or> base = target then
                  (httpError 400 ''distinct ISO-4217 base and target currencies required'', s)
                else
                  (case find_rate env base target s of
                     (None, s1) \<Rightarrow> (httpError 400 ''no rate available for pair'', s1)
                   | (Some rate, s1) \<Rightarrow> make_quote env sv base target rate s1))))"

end
