(* ===== verification/Stream_Events.thy ===== *)
theory Stream_Events
  imports Server
begin

section \<open>The event stream and the routes\<close>

text \<open>
  \<open>streamEvents\<close> of \<open>internal/httpapi/server.go\<close> and \<open>Handler\<close>. The handler reads the state of
  the payment, subscribes, sends what it read, and then waits for whatever comes first. Other
  goroutines publish meanwhile: \<open>missed\<close> are the updates published between the read and the
  subscription, and the script of a stream says which alternative of the \<open>select\<close> is taken next
  and what is published in between.
\<close>

subsection \<open>Frames\<close>

definition update_json :: "update \<Rightarrow> gvalue" where
  "update_json u =
     GObj [(''payment_id'', GStr (u_payment_id u)), (''status'', GStr (status_text (u_status u))),
       (''step'', GStr (step_text (u_step u)))]"

definition frame_of :: "update \<Rightarrow> string" where
  "frame_of u = ''event: status'' @ [newline] @ ''data: '' @ print (update_json u) @ [newline, newline]"

definition keepalive :: string where
  "keepalive = '': keepalive'' @ [newline, newline]"

subsection \<open>The loop\<close>

text \<open>
  A receive with nothing in the buffer does not happen (the \<open>select\<close> would not choose it). The
  flag says whether the stream is still open; leaving the loop unsubscribes.
\<close>

datatype stream_act = Disconnect | Heartbeat | Receive | Publish update

definition stream_turn :: "string \<Rightarrow> nat \<Rightarrow> stream_act \<Rightarrow> bool \<times> string list \<times> bus \<Rightarrow> bool \<times> string list \<times> bus" where
  "stream_turn pid ch act st =
     (case st of (opened, out, b) \<Rightarrow>
        (case act of
           Publish u \<Rightarrow> (opened, out, publish u b)
         | _ \<Rightarrow>
             (if \<not> opened then st
              else
                (case act of
                   Heartbeat \<Rightarrow> (True, out @ [keepalive], b)
                 | Receive \<Rightarrow>
                     (case recv pid ch b of
                        (None, b1) \<Rightarrow> (True, out, b1)
                      | (Some u, b1) \<Rightarrow>
                          (if u_status u \<noteq> Processing then (False, out @ [frame_of u], unsubscribe pid ch b1)
                           else (True, out @ [frame_of u], b1)))
                 | _ \<Rightarrow> (False, out, unsubscribe pid ch b)))))"

definition stream_loop :: "string \<Rightarrow> nat \<Rightarrow> stream_act list \<Rightarrow> bool \<times> string list \<times> bus \<Rightarrow> bool \<times> string list \<times> bus" where
  "stream_loop pid ch acts st = fold (stream_turn pid ch) acts st"

datatype reply =
    Answer response
  | EventStream "string list" bool

definition open_stream :: "'w env \<Rightarrow> payment_row \<Rightarrow> update list \<Rightarrow> stream_act list \<Rightarrow> 'w sys \<Rightarrow> reply \<times> 'w sys" where
  "open_stream env r missed acts s =
     (let pid = uuid_str env (pr_id r) in
      case subscribe pid (fold publish missed (bus s)) of (ch, b) \<Rightarrow>
        (case stream_loop pid ch acts
            (True, [frame_of \<lparr>u_payment_id = pid, u_status = pr_status r, u_step = pr_step r\<rparr>], b) of
           (opened, out, b1) \<Rightarrow> (EventStream out opened, s\<lparr>bus := b1\<rparr>)))"

definition streamEvents :: "'w env \<Rightarrow> request \<Rightarrow> string \<Rightarrow> update list \<Rightarrow> stream_act list \<Rightarrow> 'w sys
    \<Rightarrow> reply \<times> 'w sys" where
  "streamEvents env rq t missed acts s =
     (case caller_and_id env rq t of
        Inl a \<Rightarrow> (Answer a, s)
      | Inr (user, i) \<Rightarrow>
          (case ask (db_read env) s of (ok, s1) \<Rightarrow>
             (case (if ok then sql_select_one (own_payment user i) (payments (db s1)) else None) of
                None \<Rightarrow> (Answer (httpError 404 ''payment not found''), s1)
              | Some r \<Rightarrow>
                  (if \<not> rq_flusher rq then (Answer (httpError 500 ''streaming unsupported''), s1)
                   else open_stream env r missed acts s1))))"

subsection \<open>The handler behind the gateway\<close>

definition answer :: "response \<times> 'w sys \<Rightarrow> reply \<times> 'w sys" where
  "answer p = (case p of (a, s) \<Rightarrow> (Answer a, s))"

definition Handler :: "'w env \<Rightarrow> server \<Rightarrow> update list \<Rightarrow> stream_act list \<Rightarrow> request \<Rightarrow> 'w sys \<Rightarrow> reply \<times> 'w sys" where
  "Handler env sv missed acts rq s =
     (case route_of rq of
        Live \<Rightarrow> (Answer live, s)
      | Ready \<Rightarrow> answer (ready env s)
      | Reconciliation \<Rightarrow> (Answer (reconciliation sv s), s)
      | CreatePayment \<Rightarrow> answer (createPayment env sv rq s)
      | ListInstruments \<Rightarrow> answer (listInstruments env s)
      | FxQuote \<Rightarrow> answer (fxQuote env sv rq s)
      | ResumePayment t \<Rightarrow> answer (resumePayment env sv rq t s)
      | GetPayment t \<Rightarrow> answer (getPayment env rq t s)
      | StreamEvents t \<Rightarrow> streamEvents env rq t missed acts s
      | ListMerchants \<Rightarrow> answer (listMerchants env s)
      | Redirect \<Rightarrow> (Answer (mux_answer 301), s)
      | NotFound \<Rightarrow> (Answer (mux_answer 404), s)
      | MethodNotAllowed \<Rightarrow> (Answer (mux_answer 405), s))"

text \<open>\<open>verifier.Middleware(... .Handler())\<close>, as \<open>run\<close> of \<open>cmd/server/main.go\<close> wires it.\<close>

definition serve :: "(string \<Rightarrow> claims option) \<Rightarrow> 'w env \<Rightarrow> server \<Rightarrow> update list \<Rightarrow> stream_act list \<Rightarrow> request
    \<Rightarrow> 'w sys \<Rightarrow> reply \<times> 'w sys" where
  "serve jwt_parse env sv missed acts rq s =
     (case Middleware jwt_parse (url_path rq) (rq_headers rq) of
        Inl detail \<Rightarrow> (Answer (reject detail), s)
      | Inr h \<Rightarrow> Handler env sv missed acts (rq\<lparr>rq_headers := h\<rparr>) s)"

end
