(* ===== verification/ServerFacts.thy ===== *)
theory ServerFacts
  imports Stream_Events Interleaving
begin

section \<open>What the handlers do\<close>

text \<open>
  The lemmas the properties of the API rest on: the probe of the step-up gate reads the amount
  the payment is created with, the effect of each handler on the service, and what a handler
  reads.
\<close>

subsection \<open>The probe of the gate\<close>

text \<open>One struct's fields are enough to follow a part of another's: \<open>part\<close> reads it off.\<close>

definition follows :: "('r \<Rightarrow> 'q) \<Rightarrow> ('r \<Rightarrow> jvalue \<Rightarrow> 'r option) option \<Rightarrow> ('q \<Rightarrow> jvalue \<Rightarrow> 'q option) option \<Rightarrow> bool" where
  "follows part f g \<longleftrightarrow>
     (case f of
        None \<Rightarrow> g = None
      | Some f' \<Rightarrow>
          (\<forall>r v r'. f' r v = Some r' \<longrightarrow>
             (case g of None \<Rightarrow> part r' = part r | Some g' \<Rightarrow> g' (part r) v = Some (part r'))))"

lemma decode_members_follows:
  assumes "\<And>k. follows part (find_field fs k) (find_field gs k)"
    and "decode_members fs ms r = Some r'"
  shows "decode_members gs ms (part r) = Some (part r')"
  using assms(2)
proof (induction ms arbitrary: r)
  case (Cons m ms)
  obtain k v where m: "m = (k, v)" by fastforce
  from Cons show ?case
    using assms(1) [of "unquote k"] by (fastforce simp: m follows_def split: option.splits)
qed simp

lemma decode_struct_follows:
  assumes "\<And>k. follows part (find_field fs k) (find_field gs k)"
    and "decode_struct fs r v = Some r'"
  shows "decode_struct gs (part r) v = Some (part r')"
  using assms(2) decode_members_follows [OF assms(1)]
  by (auto simp: decode_struct_def split: jvalue.splits)

text \<open>Which field a key goes to depends on the names alone.\<close>

definition find_name :: "string list \<Rightarrow> string \<Rightarrow> string option" where
  "find_name ns k = (if k \<in> set ns then Some k else find (\<lambda>n. foldName n = foldName k) ns)"

lemma find_fst: "map_option snd (find (\<lambda>(n, f). P n) gs) = Option.bind (find P (map fst gs)) (map_of gs)"
proof (induction gs)
  case (Cons x gs)
  obtain a b where x: "x = (a, b)" by fastforce
  show ?case
  proof (cases "P a")
    case False
    then have "find P (map fst gs) \<noteq> Some a" by (auto simp: find_Some_iff)
    with False Cons show ?thesis
      by (cases "find P (map fst gs)") (auto simp: x)
  qed (simp add: x)
qed simp

lemma find_field_name: "find_field fs k = Option.bind (find_name (map fst fs) k) (map_of fs)"
proof (cases "map_of fs k")
  case None
  then have "k \<notin> fst ` set fs" by (simp add: map_of_eq_None_iff)
  with None show ?thesis
    using find_fst [of "\<lambda>n. foldName n = foldName k" fs]
    by (simp add: find_field_def find_name_def)
next
  case (Some f)
  then have "k \<in> fst ` set fs" by (metis domI dom_map_of_conv_image_fst)
  with Some show ?thesis
    by (simp add: find_field_def find_name_def)
qed

lemma find_name_SomeD: "find_name ns k = Some n \<Longrightarrow> n \<in> set ns \<and> foldName n = foldName k"
  by (auto simp: find_name_def find_Some_iff split: if_splits)

lemma find_name_one:
  assumes "distinct (map foldName ns)" and "a \<in> set ns"
  shows "find_name [a] k = (if find_name ns k = Some a then Some a else None)"
proof (cases "find_name ns k")
  case None
  with assms(2) show ?thesis
    by (auto simp: find_name_def find_None_iff split: if_splits)
next
  case (Some n)
  from find_name_SomeD [OF Some] have n: "n \<in> set ns" "foldName n = foldName k" by simp_all
  with assms have "foldName a = foldName k \<longleftrightarrow> a = n"
    by (auto simp: distinct_map inj_on_def)
  with Some n(2) show ?thesis
    by (auto simp: find_name_def split: if_splits)
qed

lemma follows_field:
  assumes "distinct (map foldName (map fst fs))" and "map_of fs a = Some f"
    and "\<And>r v r'. f r v = Some r' \<Longrightarrow> g (part r) v = Some (part r')"
    and "\<And>n h r v r'. (n, h) \<in> set fs \<Longrightarrow> n \<noteq> a \<Longrightarrow> h r v = Some r' \<Longrightarrow> part r' = part r"
  shows "follows part (find_field fs k) (find_field [(a, g)] k)"
proof -
  have a: "a \<in> set (map fst fs)"
    using assms(2) by (metis domI dom_map_of_conv_image_fst list.set_map)
  have one: "find_field [(a, g)] k = (if find_name (map fst fs) k = Some a then Some g else None)"
    using find_name_one [OF assms(1) a, of k] by (simp add: find_field_name)
  show ?thesis
  proof (cases "find_name (map fst fs) k")
    case None
    then show ?thesis
      unfolding one by (simp add: find_field_name follows_def)
  next
    case (Some n)
    show ?thesis
    proof (cases "n = a")
      case True
      with Some assms(2,3) show ?thesis
        unfolding one by (simp add: find_field_name follows_def)
    next
      case False
      with Some assms(4) show ?thesis
        unfolding one by (auto simp: find_field_name follows_def split: option.split dest: map_of_SomeD)
    qed
  qed
qed

lemma distinct_names:
  "distinct (map foldName (map fst amount_fields))" "distinct (map foldName (map fst create_fields))"
  by code_simp+

lemma amount_follows:
  "follows MinorUnits (find_field amount_fields k) (find_field probe_amount_fields k)"
  unfolding probe_amount_fields_def
proof (rule follows_field [OF distinct_names(1)])
  show "map_of amount_fields ''amount_minor_units'' =
      Some (\<lambda>a v. map_option (\<lambda>x. a\<lparr>MinorUnits := x\<rparr>) (decode_int 64 (MinorUnits a) v))"
    by (simp add: amount_fields_def)
qed (auto simp: amount_fields_def)

lemma create_follows:
  "follows (\<lambda>r. MinorUnits (req_Amount r)) (find_field create_fields k) (find_field probe_fields k)"
  unfolding probe_fields_def
proof (rule follows_field [OF distinct_names(2)])
  show "map_of create_fields ''amount'' =
      Some (\<lambda>r v. map_option (\<lambda>x. r\<lparr>req_Amount := x\<rparr>) (decode_struct amount_fields (req_Amount r) v))"
    by (simp add: create_fields_def)
  show "decode_struct probe_amount_fields (MinorUnits (req_Amount r)) v = Some (MinorUnits (req_Amount r'))"
    if "map_option (\<lambda>x. r\<lparr>req_Amount := x\<rparr>) (decode_struct amount_fields (req_Amount r) v) = Some r'" for r v r'
    using that decode_struct_follows [OF amount_follows] by auto
qed (auto simp: create_fields_def)

lemma probe_reads_amount:
  assumes "decode_create body = Some req"
  shows "decode_probe body = Some (MinorUnits (req_Amount req))"
proof -
  obtain v where v: "Unmarshal body = Some v" "decode_struct create_fields create_zero v = Some req"
    using assms by (auto simp: decode_create_def Option.bind_eq_Some_conv)
  have "MinorUnits (req_Amount create_zero) = 0"
    by (simp add: create_zero_def amount_zero_def)
  with decode_struct_follows [OF create_follows v(2)] v(1) show ?thesis
    by (simp add: decode_probe_def)
qed

subsection \<open>Tables a handler leaves alone\<close>

definition without_keys :: "database \<Rightarrow> database" where
  "without_keys d = d\<lparr>idempotency_keys := []\<rparr>"

definition keys_only :: "'w sys \<Rightarrow> 'w sys \<Rightarrow> bool" where
  "keys_only s s' \<longleftrightarrow> without_keys (db s') = without_keys (db s)
     \<and> bus s' = bus s \<and> spawned s' = spawned s \<and> calls s' = calls s"

lemma keys_only_refl [simp]: "keys_only s s"
  by (simp add: keys_only_def)

lemma keys_only_trans: "keys_only s t \<Longrightarrow> keys_only t u \<Longrightarrow> keys_only s u"
  by (simp add: keys_only_def)

lemma without_keys_fields:
  "payments (without_keys d) = payments d" "outbox (without_keys d) = outbox d"
  "merchants (without_keys d) = merchants d" "instruments (without_keys d) = instruments d"
  "fx_quotes (without_keys d) = fx_quotes d" "exchange_rates (without_keys d) = exchange_rates d"
  by (simp_all add: without_keys_def)

lemma keys_onlyD:
  "keys_only s s' \<Longrightarrow> payments (db s') = payments (db s) \<and> outbox (db s') = outbox (db s)
     \<and> merchants (db s') = merchants (db s) \<and> instruments (db s') = instruments (db s)
     \<and> fx_quotes (db s') = fx_quotes (db s) \<and> exchange_rates (db s') = exchange_rates (db s)
     \<and> bus s' = bus s \<and> spawned s' = spawned s \<and> calls s' = calls s"
  unfolding keys_only_def by (metis without_keys_fields)

lemma keys_only_ask: "ask f s = (a, s') \<Longrightarrow> keys_only s s'"
  by (drule ask_eqD) (simp add: keys_only_def)

lemma keys_only_exec:
  assumes "pool_exec env f s = (r, s')" and "\<And>now d. without_keys (snd (f now d)) = without_keys d"
  shows "keys_only s s'"
proof -
  have "without_keys (db s') = without_keys (db s)"
    using assms(1) by (cases rule: pool_exec_effect) (simp_all add: assms(2))
  with pool_exec_frame [OF assms(1)] show ?thesis
    by (simp add: keys_only_def)
qed

lemma claim_insert_keys: "without_keys (snd (claim_insert u k h now d)) = without_keys d"
  by (simp add: claim_insert_def without_keys_def)

lemma update_keys_keys: "without_keys (snd (update_keys P f d)) = without_keys d"
  by (simp add: update_keys_def sql_update_def without_keys_def)

lemma Begin_keys_only:
  assumes "Begin env u k h s = (res, s')"
  shows "keys_only s s'"
proof -
  obtain c s1 where c: "pool_exec env (claim_insert u k h) s = (c, s1)" by fastforce
  note 1 = keys_only_exec [OF c claim_insert_keys]
  obtain ok s2 where ok: "ask (db_read env) s1 = (ok, s2)" by fastforce
  note 2 = keys_only_trans [OF 1 keys_only_ask [OF ok]]
  obtain x s3 where x: "pool_exec env (lease_takeover u k) s2 = (x, s3)" by fastforce
  have "without_keys (snd (lease_takeover u k now d)) = without_keys d" for now d
    unfolding lease_takeover_def by (rule update_keys_keys)
  note 3 = keys_only_trans [OF 2 keys_only_exec [OF x this]]
  from assms c ok x have "s' \<in> {s1, s2, s3}"
    by (auto simp: Begin_def split: sum.splits option.splits if_splits)
  with 1 2 3 show ?thesis by blast
qed

lemma Complete_keys_only: "Complete env u k code body s = (e, s') \<Longrightarrow> keys_only s s'"
  unfolding Complete_def
  by (cases "pool_exec env (\<lambda>_. update_keys (key_is u k)
        (\<lambda>r. r\<lparr>ik_response_code := Some code, ik_response_body := jsonb_norm env body, ik_locked_at := None\<rparr>)) s")
    (auto split: sum.splits intro: keys_only_exec update_keys_keys)

subsection \<open>Ids drawn while a request is handled\<close>

text \<open>
  The worlds the database and the source of ids may come to from the one a request starts in.
  That ids are fresh is asked of these only.
\<close>

inductive later :: "'w env \<Rightarrow> 'w \<Rightarrow> 'w \<Rightarrow> bool" for env w where
  now: "later env w w"
| commit: "later env w v \<Longrightarrow> later env w (snd (db_commit env v))"
| read: "later env w v \<Longrightarrow> later env w (snd (db_read env v))"
| draw: "later env w v \<Longrightarrow> later env w (snd (uuid_new env v))"

lemma later_trans: "later env v u \<Longrightarrow> later env w v \<Longrightarrow> later env w u"
  by (induction rule: later.induct) (auto intro: later.intros)

lemma later_read: "ask (db_read env) s = (x, s') \<Longrightarrow> later env (world s) (world s')"
  using later.read [OF later.now, of env "world s"] by (auto simp: ask_def split: prod.splits)

lemma later_exec: "pool_exec env f s = (r, s') \<Longrightarrow> later env (world s) (world s')"
  using later.commit [OF later.now, of env "world s"]
  by (auto simp: pool_exec_def ask_def split: prod.splits db_outcome.splits)

lemma Begin_later:
  assumes "Begin env u k h s = (res, s')"
  shows "later env (world s) (world s')"
proof -
  obtain c s1 where c: "pool_exec env (claim_insert u k h) s = (c, s1)" by fastforce
  obtain ok s2 where ok: "ask (db_read env) s1 = (ok, s2)" by fastforce
  obtain x s3 where x: "pool_exec env (lease_takeover u k) s2 = (x, s3)" by fastforce
  note 1 = later_exec [OF c]
  note 2 = later_trans [OF later_read [OF ok] 1]
  note 3 = later_trans [OF later_exec [OF x] 2]
  from assms c ok x have "s' \<in> {s1, s2, s3}"
    by (auto simp: Begin_def split: sum.splits option.splits if_splits)
  with 1 2 3 show ?thesis by blast
qed

lemma find_quote_later:
  assumes "find_quote env t s = (x, s')"
  shows "later env (world s) (world s')"
proof -
  obtain ok s1 where ok: "ask (db_read env) s = (ok, s1)" by fastforce
  from assms ok have "s' = s \<or> s' = s1"
    by (auto simp: find_quote_def split: option.splits if_splits)
  with later_read [OF ok] show ?thesis by (auto intro: later.now)
qed

subsection \<open>Creating a payment\<close>

text \<open>
  One more payment, as new as a payment can be, with the event that announces it, and nothing
  else of the database.
\<close>

definition created :: "'w env \<Rightarrow> 'w sys \<Rightarrow> payment_row \<Rightarrow> string \<Rightarrow> 'w sys \<Rightarrow> bool" where
  "created env s r cur s' \<longleftrightarrow>
     row_allowed (db s) r \<and> new_payment r
   \<and> (\<exists>t. db t = (db s)\<lparr>payments := payments (db s) @ [r]\<rparr> \<and> calls t = calls s
       \<and> bus t = bus s \<and> spawned t = spawned s
       \<and> s' = WriteRequestedEvent env (pr_id r) (pr_user_id r) (pr_merchant_id r) (pr_amount r) cur
                (pr_fx_quote_id r) t)"

lemma insert_payment_effect:
  assumes "insert_payment env pid user account instrument fx req s = (e, s')"
  obtains (refused) "e \<noteq> None" and "keys_only s s'"
    | (inserted) now where "created env s (requested_row pid user account instrument fx req now)
        (CurrencyCode (req_Amount req)) s'" and "e = None \<or> e = Some DbError"
proof -
  obtain oc t where t: "ask (db_commit env) s = (oc, t)" by fastforce
  note ask = ask_eqD [OF t]
  let ?r = "requested_row pid user account instrument fx req (clock env (world t))"
  have new: "new_payment ?r"
    by (simp add: new_payment_def requested_row_def)
  have fields: "pr_id ?r = pid" "pr_user_id ?r = user" "pr_merchant_id ?r = req_MerchantID req"
    "pr_amount ?r = MinorUnits (req_Amount req)" "pr_fx_quote_id ?r = fx"
    by (simp_all add: requested_row_def)
  show thesis
  proof (cases "oc \<noteq> DbFail \<and> row_allowed (db s) ?r")
    case False
    moreover have "keys_only s (t\<lparr>db := db s\<rparr>)"
    proof -
      have "t\<lparr>db := db s\<rparr> = t" using ask by simp
      with keys_only_ask [OF t] show ?thesis by simp
    qed
    ultimately show thesis
      using assms t ask keys_only_ask [OF t]
      by (intro refused) (auto simp: insert_payment_def begin_func_def Let_def split: if_splits)
  next
    case True
    then have "s' = WriteRequestedEvent env pid user (req_MerchantID req) (MinorUnits (req_Amount req))
        (CurrencyCode (req_Amount req)) fx (t\<lparr>db := (db t)\<lparr>payments := payments (db t) @ [?r]\<rparr>\<rparr>)"
      and e: "e = None \<or> e = Some DbError"
      using assms t ask by (auto simp: insert_payment_def begin_func_def Let_def split: if_splits)
    then have "created env s ?r (CurrencyCode (req_Amount req)) s'"
      unfolding created_def fields using True new ask
      by (intro conjI exI [of _ "t\<lparr>db := (db t)\<lparr>payments := payments (db t) @ [?r]\<rparr>\<rparr>"]) simp_all
    then show thesis using e by (rule inserted)
  qed
qed

definition same_service :: "'w sys \<Rightarrow> 'w sys \<Rightarrow> bool" where
  "same_service s s' \<longleftrightarrow> db s' = db s \<and> bus s' = bus s \<and> spawned s' = spawned s \<and> calls s' = calls s"

lemma same_service_refl [simp]: "same_service s s"
  by (simp add: same_service_def)

lemma same_service_trans: "same_service s t \<Longrightarrow> same_service t u \<Longrightarrow> same_service s u"
  by (simp add: same_service_def)

lemma same_service_ask: "ask f s = (a, s') \<Longrightarrow> same_service s s'"
  by (drule ask_eqD) (simp add: same_service_def)

lemma same_service_keys: "same_service s s' \<Longrightarrow> keys_only s s'"
  by (simp add: same_service_def keys_only_def)

lemma created_from_same: "same_service s t \<Longrightarrow> created env t r cur s' \<Longrightarrow> created env s r cur s'"
  by (simp add: same_service_def created_def)

lemma find_quote_same:
  assumes "find_quote env t s = (x, s')"
  shows "same_service s s'"
proof -
  obtain ok s1 where ok: "ask (db_read env) s = (ok, s1)" by fastforce
  from assms ok have "s' = s \<or> s' = s1"
    by (auto simp: find_quote_def split: option.splits if_splits)
  with same_service_ask [OF ok] show ?thesis by auto
qed

lemma create_payment_effect:
  assumes "create_payment env user account instrument fx req s = (a, s')"
  obtains (refused) "fst a = 500" and "keys_only s s'"
    | (inserted) pid now s1 where "created env s (requested_row pid user account instrument fx req now)
          (CurrencyCode (req_Amount req)) s1"
        and "a = (202, accepted_json env pid req) \<and> s' = s1\<lparr>spawned := spawned s1 @ [pid]\<rparr>
          \<or> fst a = 500 \<and> s' = s1"
        and "pid = fst (uuid_new env (world s))"
proof -
  obtain pid s1 where pid: "ask (uuid_new env) s = (pid, s1)" by fastforce
  obtain e s2 where ins: "insert_payment env pid user account instrument fx req s1 = (e, s2)" by fastforce
  have a: "a = (case e of None \<Rightarrow> (202, accepted_json env pid req) | Some _ \<Rightarrow> (500, problem ''could not create payment''))"
    and s': "s' = (case e of None \<Rightarrow> s2\<lparr>spawned := spawned s2 @ [pid]\<rparr> | Some _ \<Rightarrow> s2)"
    using assms pid ins by (auto simp: create_payment_def split: option.splits)
  have new: "pid = fst (uuid_new env (world s))"
    using ask_eqD [OF pid] by simp
  from ins show thesis
  proof (cases rule: insert_payment_effect)
    case refused
    with a s' keys_only_trans [OF keys_only_ask [OF pid]] that(1) show thesis by auto
  next
    case (inserted now)
    show thesis
    proof (rule that(2))
      show "created env s (requested_row pid user account instrument fx req now) (CurrencyCode (req_Amount req)) s2"
        using created_from_same [OF same_service_ask [OF pid] inserted(1)] .
      show "a = (202, accepted_json env pid req) \<and> s' = s2\<lparr>spawned := spawned s2 @ [pid]\<rparr> \<or> fst a = 500 \<and> s' = s2"
        using a s' by (cases e) auto
    qed (rule new)
  qed
qed

lemma executeCreate_effect:
  assumes "executeCreate env user body s = (a, s')"
  obtains (refused) "fst a = 400 \<or> fst a = 500" and "keys_only s s'"
    | (inserted) req account instrument fx pid now s1 where "decode_create body = Some req"
        and "length (CurrencyCode (req_Amount req)) = 3"
        and "created env s (requested_row pid user account instrument fx req now)
          (CurrencyCode (req_Amount req)) s1"
        and "a = (202, accepted_json env pid req) \<and> s' = s1\<lparr>spawned := spawned s1 @ [pid]\<rparr>
          \<or> fst a = 500 \<and> s' = s1"
        and "\<exists>w. later env (world s) w \<and> pid = fst (uuid_new env w)"
proof (cases "decode_create body")
  case None
  with assms that(1) show thesis by (auto simp: executeCreate_def)
next
  case (Some req)
  obtain q s1 where q: "find_quote env (req_FxQuoteID req) s = (q, s1)" by fastforce
  note same = find_quote_same [OF q]
  show thesis
  proof (cases "fst a = 400 \<and> keys_only s s'")
    case False
    then obtain account instrument fx where run: "q = Inr fx"
        "create_payment env user account instrument fx req s1 = (a, s')"
        "length (CurrencyCode (req_Amount req)) = 3"
      using assms Some q same_service_keys [OF same]
      by (auto simp: executeCreate_def split: option.splits if_splits sum.splits)
    from run(2) show thesis
    proof (cases rule: create_payment_effect)
      case refused
      with that(1) keys_only_trans [OF same_service_keys [OF same]] show thesis by blast
    next
      case (inserted pid now s2)
      with that(2) [OF Some run(3) created_from_same [OF same inserted(1)] inserted(2)] find_quote_later [OF q]
      show thesis by blast
    qed
  qed (use that(1) in blast)
qed

text \<open>Creation with its key: between the claim and the completion, which touch keys only.\<close>

lemma run_once_effect:
  assumes "run_once env user key body s = (a, s')"
  obtains (refused) "rs_code a = 400 \<or> rs_code a = 500" and "keys_only s s'"
    | (inserted) req account instrument fx pid now s1 s2 where "decode_create body = Some req"
        and "length (CurrencyCode (req_Amount req)) = 3"
        and "created env s (requested_row pid user account instrument fx req now)
          (CurrencyCode (req_Amount req)) s1"
        and "a = executed (202, accepted_json env pid req) \<and> s2 = s1\<lparr>spawned := spawned s1 @ [pid]\<rparr>
          \<or> rs_code a = 500 \<and> s2 = s1"
        and "\<exists>w. later env (world s) w \<and> pid = fst (uuid_new env w)" and "keys_only s2 s'"
proof -
  obtain x s1 where x: "executeCreate env user body s = (x, s1)" by fastforce
  obtain e s2 where c: "Complete env user key (fst x) (print (snd x)) s1 = (e, s2)" by fastforce
  have a: "a = executed x" "s' = s2"
    using assms x c by (simp_all add: run_once_def)
  have code: "rs_code a = fst x"
    by (simp add: a executed_def)
  note keys = Complete_keys_only [OF c]
  from x show thesis
  proof (cases rule: executeCreate_effect)
    case refused
    with that(1) a code keys_only_trans [OF _ keys] show thesis by auto
  next
    case (inserted req account instrument fx pid now t)
    show thesis
      by (rule that(2) [OF inserted(1-3) _ inserted(5), where ?s2.0 = s1])
        (use inserted(4) a keys code in auto)
  qed
qed

end
