(* ===== verification/ServerRefinement.thy ===== *)
theory ServerRefinement
  imports ServerFacts
begin

section \<open>Requests as steps of the interleaved model\<close>

text \<open>
  Every request the service answers is a sequence of steps of \<open>conf_step\<close>: it creates a payment,
  resumes one, or leaves the books alone. So what holds in every reachable configuration holds
  whatever requests arrive. The one assumption is that an id drawn while the request is handled is
  not the id of an event already written (\<open>uuid.New\<close> is random); for the payments the primary
  key enforces it.
\<close>

definition fresh_ids :: "'w env \<Rightarrow> 'w sys \<Rightarrow> bool" where
  "fresh_ids env s \<longleftrightarrow> (\<forall>w. later env (world s) w \<longrightarrow>
     uuid_str env (fst (uuid_new env w)) \<notin> ob_aggregateid ` set (outbox (db s)))"

lemma claim_and_run_effect:
  assumes "claim_and_run env user key body s = (a, s')"
  obtains (other) "keys_only s s'"
    | (run) s1 where "Begin env user key (HashBody body) s = (Inr None, s1)" and "keys_only s s1"
        and "later env (world s) (world s1)" and "run_once env user key body s1 = (a, s')"
proof -
  obtain x s1 where x: "Begin env user key (HashBody body) s = (x, s1)" by fastforce
  note keys = Begin_keys_only [OF x]
  show thesis
  proof (cases "x = Inr None")
    case True
    with assms x keys Begin_later [OF x] that(2) show thesis by (simp add: claim_and_run_def)
  next
    case False
    with assms x have "s' = s1"
      by (auto simp: claim_and_run_def split: sum.splits begin_error.splits option.splits)
    with keys that(1) show thesis by simp
  qed
qed

lemma createPayment_cases:
  assumes "createPayment env sv rq s = (a, s')"
  obtains (kept) "s' = s" and "rs_code a = 400 \<or> rs_code a = 401"
    | (claimed) user b where "uuid_parse env (Get (rq_headers rq) ''X-User-Id'') = Some user"
        and "rq_body rq = Some b" and "Get (rq_headers rq) ''Idempotency-Key'' \<noteq> []"
        and "\<not> gated env sv (rq_headers rq) (take body_limit b) s"
        and "claim_and_run env user (Get (rq_headers rq) ''Idempotency-Key'') (take body_limit b) s = (a, s')"
proof (cases "s' = s \<and> (rs_code a = 400 \<or> rs_code a = 401)")
  case False
  then show thesis
    using assms that(2)
    by (auto simp: createPayment_def Let_def httpError_def writeJSON_def split: option.splits if_splits)
qed (use that(1) in blast)

definition row_of_request :: "'w env \<Rightarrow> server \<Rightarrow> request \<Rightarrow> 'w sys \<Rightarrow> payment_row \<Rightarrow> string \<Rightarrow> bool" where
  "row_of_request env sv rq s r cur \<longleftrightarrow>
     (\<exists>b req account instrument fx w now.
        uuid_parse env (Get (rq_headers rq) ''X-User-Id'') = Some (pr_user_id r)
      \<and> rq_body rq = Some b \<and> decode_create (take body_limit b) = Some req
      \<and> \<not> gated env sv (rq_headers rq) (take body_limit b) s
      \<and> length (CurrencyCode (req_Amount req)) = 3 \<and> cur = CurrencyCode (req_Amount req)
      \<and> later env (world s) w \<and> r = requested_row (fst (uuid_new env w)) (pr_user_id r) account instrument fx req now)"

lemma row_of_request_id: 
  "row_of_request env sv rq s r cur \<Longrightarrow> \<exists>w. later env (world s) w \<and> pr_id r = fst (uuid_new env w)"
proof -
  assume "row_of_request env sv rq s r cur"
  then obtain account instrument fx req w now
    where w: "later env (world s) w"
      and r: "r = requested_row (fst (uuid_new env w)) (pr_user_id r) account instrument fx req now"
    unfolding row_of_request_def by blast
  from w arg_cong [OF r, of pr_id] show ?thesis
    by (auto simp: requested_row_def)
qed

lemma createPayment_effect:
  assumes "createPayment env sv rq s = (a, s')"
  obtains (none) "keys_only s s'"
    | (one) r cur s0 s1 s2 where "row_of_request env sv rq s r cur" and "keys_only s s0"
        and "created env s0 r cur s1" and "s2 = s1 \<or> s2 = s1\<lparr>spawned := spawned s1 @ [pr_id r]\<rparr>"
        and "keys_only s2 s'"
  using assms
proof (cases rule: createPayment_cases)
  case kept
  then show thesis using that(1) by simp
next
  case (claimed user b)
  from claimed(5) show thesis
  proof (cases rule: claim_and_run_effect)
    case other
    then show thesis by (rule that(1))
  next
    case (run s0)
    from run(4) show thesis
    proof (cases rule: run_once_effect)
      case refused
      with that(1) keys_only_trans [OF run(2)] show thesis by blast
    next
      case (inserted req account instrument fx pid now s1 s2)
      let ?r = "requested_row pid user account instrument fx req now"
      have r: "pr_id ?r = pid" "pr_user_id ?r = user"
        by (simp_all add: requested_row_def)
      have "row_of_request env sv rq s ?r (CurrencyCode (req_Amount req))"
        unfolding row_of_request_def r using claimed inserted(1,2,5) later_trans [OF _ run(3)] by blast
      moreover have "s2 = s1 \<or> s2 = s1\<lparr>spawned := spawned s1 @ [pr_id ?r]\<rparr>"
        using inserted(4) r by auto
      ultimately show thesis
        by (rule that(2) [OF _ run(2) inserted(3) _ inserted(6)])
    qed
  qed
qed

subsection \<open>Steps\<close>

lemma created_rows:
  assumes "created env s r cur s'"
  shows "payments (db s') = payments (db s) @ [r]" and "new_payment r" and "spawned s' = spawned s"
    and "\<exists>b. outbox (db s') = outbox (db s) @ [b] \<and> ob_type b = topic_requested
      \<and> ob_aggregateid b = uuid_str env (pr_id r)"
proof -
  obtain t where t: "db t = (db s)\<lparr>payments := payments (db s) @ [r]\<rparr>" "spawned t = spawned s"
      "s' = WriteRequestedEvent env (pr_id r) (pr_user_id r) (pr_merchant_id r) (pr_amount r) cur
        (pr_fx_quote_id r) t"
    using assms by (auto simp: created_def)
  show "payments (db s') = payments (db s) @ [r]" "spawned s' = spawned s"
    by (simp_all add: t WriteRequestedEvent_def)
  show "new_payment r" using assms by (simp add: created_def)
  show "\<exists>b. outbox (db s') = outbox (db s) @ [b] \<and> ob_type b = topic_requested
      \<and> ob_aggregateid b = uuid_str env (pr_id r)"
    using outbox_write_outbox [of env topic_requested "''payment''" "uuid_str env (pr_id r)" _ t]
    unfolding t(3) WriteRequestedEvent_def by (fastforce simp: t(1))
qed

lemma keys_only_books: "keys_only s s' \<Longrightarrow> same_books s s'"
  using keys_onlyD by (fastforce simp: same_books_def)

lemma spawn_books: "same_books s (s\<lparr>spawned := x\<rparr>)"
  by (simp add: same_books_def)

lemma elsewhere_steps: "same_books s s' \<Longrightarrow> (conf_step env)\<^sup>*\<^sup>* (ts, s) (ts, s')"
  by (blast intro: conf_step.elsewhere)

lemma created_step:
  assumes "created env s r cur s'" and "uuid_str env (pr_id r) \<notin> ob_aggregateid ` set (outbox (db s))"
    and "ids = [] \<or> ids = [pr_id r]"
  shows "conf_step env (ts, s) (ts @ map TAdvance ids, s')"
proof -
  obtain t where t: "db t = (db s)\<lparr>payments := payments (db s) @ [r]\<rparr>" "calls t = calls s"
      "s' = WriteRequestedEvent env (pr_id r) (pr_user_id r) (pr_merchant_id r) (pr_amount r) cur
        (pr_fx_quote_id r) t"
    using assms(1) by (auto simp: created_def)
  have "new_payment r" "pr_id r \<notin> pr_id ` set (payments (db s))"
    using assms(1) by (auto simp: created_def row_allowed_def)
  then show ?thesis
    by (rule conf_step.create [where t = t]) (use t assms(2,3) in auto)
qed

text \<open>The goroutines a request starts are tasks of the model, the last ones.\<close>

lemma createPayment_steps:
  assumes "createPayment env sv rq s = (a, s')" and "fresh_ids env s"
  shows "\<exists>ids. spawned s' = spawned s @ ids \<and> (conf_step env)\<^sup>*\<^sup>* (ts, s) (ts @ map TAdvance ids, s')"
  using assms(1)
proof (cases rule: createPayment_effect)
  case none
  from elsewhere_steps [OF keys_only_books [OF none], of env ts] keys_onlyD [OF none] show ?thesis
    by (intro exI [of _ "[]"]) simp
next
  case (one r cur s0 s1 s2)
  obtain ids where ids: "spawned s2 = spawned s1 @ ids" "ids = [] \<or> ids = [pr_id r]"
    using one(4) by (elim disjE) auto
  have "uuid_str env (pr_id r) \<notin> ob_aggregateid ` set (outbox (db s0))"
    using assms(2) row_of_request_id [OF one(1)] keys_onlyD [OF one(2)]
    unfolding fresh_ids_def by metis
  from created_step [OF one(3) this ids(2), of ts]
  have "(conf_step env)\<^sup>*\<^sup>* (ts, s0) (ts @ map TAdvance ids, s1)" by blast
  moreover have "same_books s1 s'"
    using one(4) spawn_books keys_only_books [OF one(5)] same_books_trans by metis
  ultimately have "(conf_step env)\<^sup>*\<^sup>* (ts, s) (ts @ map TAdvance ids, s')"
    using elsewhere_steps keys_only_books [OF one(2)] by (metis rtranclp_trans)
  moreover have "spawned s' = spawned s @ ids"
    using ids(1) created_rows(3) [OF one(3)] keys_onlyD [OF one(2)] keys_onlyD [OF one(5)] by simp
  ultimately show ?thesis by blast
qed

text \<open>A resume is the handler's task run to its end, between two pieces of the other workers.\<close>

lemma transition_spawned:
  assumes "transition env p st sta id s = (e, s')"
  shows "spawned s' = spawned s"
proof -
  obtain e1 t where g: "guarded_tx env (ConcurrentTransition (ID p))
      (\<lambda>r. pr_id r = ID p \<and> pr_step r = Step p) (transition_row st sta) id s = (e1, t)" by fastforce
  then have "spawned t = spawned s"
    by (cases rule: guarded_tx_effect) simp_all
  with assms g show ?thesis
    by (auto simp: transition_def announce_def split: option.splits)
qed

lemma resume_steps:
  assumes "ResumeAfterStepUp env i user s = (e, s')"
  shows "\<exists>ids. spawned s' = spawned s @ ids \<and> (conf_step env)\<^sup>*\<^sup>* (ts, s) (ts @ map TAdvance ids, s')"
proof -
  obtain x s1 where x: "load env i s = (x, s1)" by fastforce
  have start: "conf_step env (ts, s) (ts @ [TResume i user], s)"
    by (rule conf_step.step_up)
  have books: "same_books s s1" "spawned s1 = spawned s"
    using x load_frame [of env i s] by (simp_all add: same_books_def)
  show ?thesis
  proof (cases "\<exists>p. x = Inr p \<and> UserID p = user \<and> Status p = RequiresAction")
    case False
    then have "s' = s1"
      using assms x by (auto simp: ResumeAfterStepUp_def split: sum.splits if_splits)
    with elsewhere_steps [OF books(1), of env ts] books(2) show ?thesis
      by (intro exI [of _ "[]"]) simp
  next
    case True
    then obtain p where p: "x = Inr p" "UserID p = user" "Status p = RequiresAction" by blast
    obtain e2 s2 where tr: "transition env p FraudScreened Processing id s1 = (e2, s2)" by fastforce
    let ?ids = "if e2 = None then [ID p] else []"
    have 1: "conf_step env (ts @ [TResume i user], s) (ts @ [TUnpark p], s1)"
      using conf_step.run [of env "TResume i user" s "[TUnpark p]" s1 ts "[]"] x p by simp
    have 2: "conf_step env (ts @ [TUnpark p], s1) (ts @ map TAdvance ?ids, s2)"
      using conf_step.run [of env "TUnpark p" s1 "map TAdvance ?ids" s2 ts "[]"] tr by simp
    have "same_books s2 s'" and "spawned s' = spawned s @ ?ids"
      using assms x p tr books(2) transition_spawned [OF tr]
      by (auto simp: ResumeAfterStepUp_def same_books_def split: option.splits)
    moreover from elsewhere_steps [OF this(1)] start 1 2
    have "(conf_step env)\<^sup>*\<^sup>* (ts, s) (ts @ map TAdvance ?ids, s')"
      by (meson converse_rtranclp_into_rtranclp)
    ultimately show ?thesis by blast
  qed
qed

subsection \<open>The other handlers\<close>

lemma same_service_books: "same_service s s' \<Longrightarrow> same_books s s'"
  by (simp add: same_service_def same_books_def)

lemma ready_same: "ready env s = (a, s') \<Longrightarrow> same_service s s'"
  by (auto simp: ready_def split: prod.splits intro: same_service_trans same_service_ask)

lemma listInstruments_same: "listInstruments env s = (a, s') \<Longrightarrow> same_service s s'"
  by (auto simp: listInstruments_def split: prod.splits intro: same_service_ask)

lemma listMerchants_same: "listMerchants env s = (a, s') \<Longrightarrow> same_service s s'"
  by (auto simp: listMerchants_def split: prod.splits intro: same_service_ask)

lemma getPayment_same: "getPayment env rq t s = (a, s') \<Longrightarrow> same_service s s'"
  by (auto simp: getPayment_def split: prod.splits sum.splits intro: same_service_ask)

lemma find_rate_same:
  assumes "find_rate env base target s = (x, s')"
  shows "same_service s s'"
proof -
  obtain ok s1 where ok: "ask (db_read env) s = (ok, s1)" by fastforce
  obtain ok2 s2 where ok2: "ask (db_read env) s1 = (ok2, s2)" by fastforce
  from assms ok ok2 have "s' = s1 \<or> s' = s2"
    by (auto simp: find_rate_def split: option.splits if_splits)
  with same_service_ask [OF ok] same_service_trans [OF same_service_ask [OF ok] same_service_ask [OF ok2]]
  show ?thesis by blast
qed

text \<open>A quote is one more row of its table, the one the answer shows.\<close>

lemma make_quote_effect:
  assumes "make_quote env sv base target rate s = (a, s')"
  obtains (failed) "rs_code a = 500" and "db s' = db s" and "same_books s s'"
    | (made) i now expires where "db s' = snd (insert_quote i base target (snd rate) (fst rate) expires now (db s))"
        and "same_books s s'" and "expires = clock env (snd (uuid_new env (world s))) + quoteTTL sv"
        and "rs_code a = 500 \<or> \<not> sql_exists (\<lambda>f. fx_id f = i) (fx_quotes (db s))
          \<and> a = writeJSON 200 (quote_json env i base target (snd rate) expires)"
proof -
  obtain i s1 where i: "ask (uuid_new env) s = (i, s1)" by fastforce
  let ?e = "clock env (world s1) + quoteTTL sv"
  obtain r s2 where r: "pool_exec env (insert_quote i base target (snd rate) (fst rate) ?e) s1 = (r, s2)" by fastforce
  note ask = ask_eqD [OF i]
  have s': "s' = s2"
    using assms i r by (auto simp: make_quote_def Let_def split: sum.splits if_splits)
  have keep: "payments (snd (insert_quote i base target x y e now d)) = payments d"
    "outbox (snd (insert_quote i base target x y e now d)) = outbox d" for x y e now d
    by (simp_all add: insert_quote_def)
  have code: "rs_code fail_answer = 500"
    by (simp add: fail_answer_def httpError_def writeJSON_def)
  note frame = pool_exec_frame [OF r]
  have e: "?e = clock env (snd (uuid_new env (world s))) + quoteTTL sv"
    using ask by (metis snd_conv)
  from r show thesis
  proof (cases rule: pool_exec_effect)
    case refused
    then show thesis
      using assms i r ask frame s' that(1) code by (simp add: make_quote_def Let_def same_books_def)
  next
    case applied
    then have "rs_code a = 500 \<or> \<not> sql_exists (\<lambda>f. fx_id f = i) (fx_quotes (db s))
        \<and> a = writeJSON 200 (quote_json env i base target (snd rate) ?e)"
      using assms i r ask code
      by (cases "sql_exists (\<lambda>f. fx_id f = i) (fx_quotes (db s))")
        (simp_all add: make_quote_def Let_def insert_quote_def)
    moreover have "same_books s s'"
      using applied(2) s' ask frame keep by (simp add: same_books_def)
    ultimately show thesis
      using that(2) [OF _ _ e] applied(2) unfolding s' conjunct1 [OF ask] by blast
  next
    case lost
    then have "rs_code a = 500"
      using assms i r code by (simp add: make_quote_def Let_def)
    moreover have "same_books s s'"
      using lost(2) s' ask frame keep by (simp add: same_books_def)
    ultimately show thesis
      using that(2) [OF _ _ e] lost(2) unfolding s' conjunct1 [OF ask] by blast
  qed
qed

lemma fxQuote_effect:
  assumes "fxQuote env sv rq s = (a, s')"
  obtains (refused) "same_service s s'" and "rs_code a = 400 \<or> rs_code a = 401"
    | (quoted) user b q rate s1 where "uuid_parse env (Get (rq_headers rq) ''X-User-Id'') = Some user"
        and "rq_body rq = Some b" and "decode_quote b = Some q"
        and "find_rate env (CurrencyCode (fq_Amount q)) (fq_TargetCurrency q) s = (Some rate, s1)"
        and "make_quote env sv (CurrencyCode (fq_Amount q)) (fq_TargetCurrency q) rate s1 = (a, s')"
proof (cases "same_service s s' \<and> (rs_code a = 400 \<or> rs_code a = 401)")
  case False
  obtain q where q: "Option.bind (rq_body rq) decode_quote = Some q"
    using assms False by (auto simp: fxQuote_def httpError_def writeJSON_def split: option.splits)
  obtain x s1 where x: "find_rate env (CurrencyCode (fq_Amount q)) (fq_TargetCurrency q) s = (x, s1)" by fastforce
  with False assms q find_rate_same [OF x] that(2) show thesis
    by (auto simp: fxQuote_def httpError_def writeJSON_def Let_def Option.bind_eq_Some_conv
        split: option.splits if_splits)
qed (use that(1) in blast)

lemma fxQuote_books: "fxQuote env sv rq s = (a, s') \<Longrightarrow> same_books s s'"
proof (erule fxQuote_effect)
  show "same_service s s' \<Longrightarrow> same_books s s'" by (rule same_service_books)
  fix q rate s1
  assume "find_rate env (CurrencyCode (fq_Amount q)) (fq_TargetCurrency q) s = (Some rate, s1)"
    and m: "make_quote env sv (CurrencyCode (fq_Amount q)) (fq_TargetCurrency q) rate s1 = (a, s')"
  then have "same_books s s1" using find_rate_same same_service_books by blast
  moreover have "same_books s1 s'" using m by (cases rule: make_quote_effect)
  ultimately show "same_books s s'" by (rule same_books_trans)
qed

lemma streamEvents_books:
  assumes "streamEvents env rq t missed acts s = (a, s')"
  shows "same_books s s' \<and> spawned s' = spawned s"
proof -
  obtain ok s1 where ok: "ask (db_read env) s = (ok, s1)" by fastforce
  from assms ok have "s' = s \<or> s' = s1 \<or> (\<exists>b. s' = s1\<lparr>bus := b\<rparr>)"
    by (auto simp: streamEvents_def open_stream_def Let_def split: sum.splits option.splits if_splits prod.splits)
  with ask_eqD [OF ok] show ?thesis
    by (auto simp: same_books_def)
qed

lemma fxQuote_spawned:
  assumes "fxQuote env sv rq s = (a, s')"
  shows "spawned s' = spawned s"
  using assms
proof (cases rule: fxQuote_effect)
  case (quoted user b q rate s1)
  obtain i s2 where i: "ask (uuid_new env) s1 = (i, s2)" by fastforce
  let ?f = "insert_quote i (CurrencyCode (fq_Amount q)) (fq_TargetCurrency q) (snd rate) (fst rate)
    (clock env (world s2) + quoteTTL sv)"
  obtain r s3 where r: "pool_exec env ?f s2 = (r, s3)" by fastforce
  have "s' = s3"
    using quoted(5) i r by (auto simp: make_quote_def Let_def split: sum.splits if_splits)
  with pool_exec_frame(2) [OF r] ask_eqD [OF i] find_rate_same [OF quoted(4)] show ?thesis
    by (simp add: same_service_def)
qed (simp add: same_service_def)

lemma same_service_spawned: "same_service s s' \<Longrightarrow> spawned s' = spawned s"
  by (simp add: same_service_def)

text \<open>What a request does to the books: it creates a payment, resumes one, or leaves them alone.\<close>

lemma Handler_effect:
  assumes "Handler env sv missed acts rq s = (a, s')"
  obtains (creates) r where "route_of rq = CreatePayment" and "createPayment env sv rq s = (r, s')" and "a = Answer r"
    | (resumes) user i e t where "route_of rq = ResumePayment t" and "caller_and_id env rq t = Inr (user, i)"
        and "steppedUp (readAuthStrength (rq_headers rq))"
        and "fresh_auth (clock env (world s)) (stepUpMaxAge sv) (readAuthStrength (rq_headers rq))"
        and "ResumeAfterStepUp env i user s = (e, s')"
    | (quiet) "same_books s s'" and "spawned s' = spawned s"
proof (cases "same_books s s' \<and> spawned s' = spawned s")
  case False
  then have kept: "s' \<noteq> s" by auto
  show thesis
  proof (cases "route_of rq")
    case CreatePayment
    with assms that(1) show thesis by (auto simp: Handler_def answer_def split: prod.splits)
  next
    case (ResumePayment t)
    with assms kept that(2) show thesis
      by (auto simp: Handler_def answer_def resumePayment_def Let_def split: prod.splits sum.splits if_splits option.splits)
  next
    case (StreamEvents t)
    with assms False streamEvents_books [of env rq t missed acts s a s'] show thesis
      by (simp add: Handler_def)
  next
    case FxQuote
    with assms False show thesis
      by (auto simp: Handler_def answer_def split: prod.splits dest: fxQuote_books fxQuote_spawned)
  next
    case (GetPayment t)
    with assms False show thesis
      by (auto simp: Handler_def answer_def split: prod.splits dest!: getPayment_same
          intro: same_service_books same_service_spawned)
  next
    case Ready
    with assms False show thesis
      by (auto simp: Handler_def answer_def split: prod.splits dest!: ready_same
          intro: same_service_books same_service_spawned)
  next
    case ListInstruments
    with assms False show thesis
      by (auto simp: Handler_def answer_def split: prod.splits dest!: listInstruments_same
          intro: same_service_books same_service_spawned)
  next
    case ListMerchants
    with assms False show thesis
      by (auto simp: Handler_def answer_def split: prod.splits dest!: listMerchants_same
          intro: same_service_books same_service_spawned)
  qed (use assms kept in \<open>auto simp: Handler_def\<close>)
qed (use that(3) in blast)

lemma Handler_steps:
  assumes "Handler env sv missed acts rq s = (a, s')" and "fresh_ids env s"
  shows "\<exists>ids. spawned s' = spawned s @ ids \<and> (conf_step env)\<^sup>*\<^sup>* (ts, s) (ts @ map TAdvance ids, s')"
  using assms(1)
proof (cases rule: Handler_effect)
  case (creates r)
  with createPayment_steps assms(2) show ?thesis by blast
next
  case (resumes user i e t)
  with resume_steps show ?thesis by blast
next
  case quiet
  from elsewhere_steps [OF quiet(1), of env ts] quiet(2) show ?thesis
    by (intro exI [of _ "[]"]) simp
qed

lemma serve_steps:
  assumes "serve jwt_parse env sv missed acts rq s = (a, s')" and "fresh_ids env s"
  shows "\<exists>ids. spawned s' = spawned s @ ids \<and> (conf_step env)\<^sup>*\<^sup>* (ts, s) (ts @ map TAdvance ids, s')"
proof (cases "Middleware jwt_parse (url_path rq) (rq_headers rq)")
  case (Inl detail)
  then have "s' = s" using assms(1) by (simp add: serve_def)
  then show ?thesis by (intro exI [of _ "[]"]) simp
next
  case (Inr h)
  with assms Handler_steps show ?thesis by (auto simp: serve_def)
qed

end
