(* ===== verification/IdempotencyProperties.thy ===== *)
theory IdempotencyProperties
  imports Idempotency Scenario
begin

section \<open>Properties of the idempotency store\<close>

text \<open>
  What a request for payment may rely on when it claims a key: the answer is decided by the
  state of the key, a stored response is replayed as it is, one of several reclaimers wins,
  keys live for a day. And what it may not rely on: the completion of an overtaken request
  replaces the response of the one that overtook it.
\<close>

lemma pool_exec_ok:
  assumes "\<And>w. fst (db_commit env w) = DbOk" and "pool_exec env f s = (r, s')"
  shows "r = Inr (fst (f (exec_time env s) (db s))) \<and> db s' = snd (f (exec_time env s) (db s))"
proof -
  obtain oc t where t: "ask (db_commit env) s = (oc, t)" by fastforce
  have "oc = DbOk"
    using assms(1) [of "world s"] ask_eqD [OF t] by simp
  with assms(2) t ask_eqD [OF t] show ?thesis
    by (auto simp: pool_exec_def exec_time_def split: prod.splits)
qed

lemma Begin_no_failure:
  assumes "\<And>w. fst (db_commit env w) = DbOk" and "\<And>w. fst (db_read env w)"
  shows "fst (Begin env u k h s) \<noteq> Inl (BeginFailed e)"
proof -
  obtain c s1 where c: "pool_exec env (claim_insert u k h) s = (c, s1)" by fastforce
  obtain n where n: "c = Inr n"
    using pool_exec_ok [OF assms(1) c] by blast
  obtain rd s2 where rd: "ask (db_read env) s1 = (rd, s2)" by fastforce
  have "rd"
    using assms(2) [of "world s1"] ask_eqD [OF rd] by simp
  moreover obtain x s3 where x: "pool_exec env (lease_takeover u k) s2 = (x, s3)" by fastforce
  moreover obtain m where "x = Inr m"
    using pool_exec_ok [OF assms(1) x] by blast
  ultimately show ?thesis
    using c n rd by (auto simp: Begin_def split: option.splits)
qed

text \<open>
  The database's times of the two statements: the insert of the claim and, when a claim with this
  payload is there, the attempt to take it over.
\<close>

definition second_time :: "'w env \<Rightarrow> 'w sys \<Rightarrow> time" where
  "second_time env s = clock env (snd (db_commit env (snd (db_read env (snd (db_commit env (world s)))))))"

lemma pool_exec_world: "pool_exec env f s = (r, s') \<Longrightarrow> world s' = snd (db_commit env (world s))"
  by (auto simp: pool_exec_def ask_def split: prod.splits db_outcome.splits)

lemma Begin_up:
  assumes ok: "keys_ok s" and up: "\<And>w. fst (db_commit env w) = DbOk" "\<And>w. fst (db_read env w)"
    and x: "state_of_key u k s = x"
  shows "(fst (Begin env u k h s), state_of_key u k (snd (Begin env u k h s))) =
    (case x of
       Unused \<Rightarrow> (Inr None, Claimed h (exec_time env s))
     | Claimed h0 t \<Rightarrow>
         (if h0 \<noteq> h then (Inl ErrPayloadMismatch, x)
          else if t < second_time env s - lockLease then (Inr None, Claimed h (second_time env s))
          else (Inl ErrInFlight, x))
     | Completed h0 c b \<Rightarrow> (if h0 = h then Inr (Some \<lparr>Code = c, Body = b\<rparr>) else Inl ErrPayloadMismatch, x))"
proof -
  obtain c s1 where c: "pool_exec env (claim_insert u k h) s = (c, s1)" by fastforce
  note ins = pool_exec_ok [OF up(1) c]
  note claim = claim_insert_refines [OF ok conjunct2 [OF ins]]
  show ?thesis
  proof (cases "key_row u k s")
    case None
    then have "x = Unused" using x by (simp add: state_of_key_def)
    with claim(2) [OF None] ins c show ?thesis by (simp add: Begin_def)
  next
    case (Some r)
    then have n: "c = Inr 0" and d1: "db s1 = db s" using claim(3) ins by simp_all
    obtain rd s2 where rd: "ask (db_read env) s1 = (rd, s2)" by fastforce
    have rd_ok: "rd" and d2: "db s2 = db s" and w2: "world s2 = snd (db_read env (snd (db_commit env (world s))))"
      using ask_eqD [OF rd] up(2) [of "world s1"] d1 pool_exec_world [OF c] by (auto simp: prod_eq_iff)
    have ok2: "keys_ok s2" by (rule keys_ok_same [OF ok]) (simp add: d2)
    have same: "state_of_key u k s2 = x" "key_row u k s2 = Some r"
      using d2 x Some by (simp_all add: state_of_key_def key_row_def)
    obtain y s3 where y: "pool_exec env (lease_takeover u k) s2 = (y, s3)" by fastforce
    have time: "exec_time env s2 = second_time env s" by (simp add: exec_time_def second_time_def w2)
    note take = pool_exec_ok [OF up(1) y, unfolded time]
    have state: "x = state_of_row (Some r)"
      using same by (simp add: state_of_key_def)
    have step: "Begin env u k h s =
       (if ik_request_hash r \<noteq> h then (Inl ErrPayloadMismatch, s2)
        else (case ik_response_code r of
                None \<Rightarrow> (if y = Inr 1 then (Inr None, s3) else (Inl ErrInFlight, s3))
              | Some c \<Rightarrow> (Inr (Some \<lparr>Code = c, Body = ik_response_body r\<rparr>), s2)))"
      using c n rd rd_ok same(2) y take by (simp add: Begin_def key_row_def split: option.split)
    show ?thesis
    proof (cases "ik_response_code r")
      case None
      then obtain t where t: "x = Claimed (ik_request_hash r) t" using state by simp
      note tk = lease_takeover_refines [OF ok2 conjunct2 [OF take] same(2) None]
      have locked: "lease_expired (second_time env s) r \<longleftrightarrow> t < second_time env s - lockLease"
        using tk(3) [of t] same(1) t state None ok key_row_SomeD [OF Some]
        by (auto simp: keys_ok_def lease_expired_def)
      show ?thesis
        using step None t tk(2) tk(3) [of t] same(1) take locked by simp
    next
      case (Some c)
      with step state same(1) show ?thesis by simp
    qed
  qed
qed

text \<open>
  C26. While the database answers, \<open>Begin\<close> decides by the state of the key and the clock alone. A
  free key is claimed. A completed one is replayed to the same payload and refused to another, and
  stays as it is. A claimed one is refused to another payload; to the same it is in flight, until
  its lease is over: then, and only then, the claim is taken over and its lease starts anew.
\<close>

theorem begin_decides_by_key_state:
  assumes "keys_ok s" and "\<And>w. fst (db_commit env w) = DbOk" and "\<And>w. fst (db_read env w)"
  shows "(fst (Begin env u k h s), state_of_key u k (snd (Begin env u k h s))) =
    (case state_of_key u k s of
       Unused \<Rightarrow> (Inr None, Claimed h (exec_time env s))
     | Claimed h0 t \<Rightarrow>
         (if h0 \<noteq> h then (Inl ErrPayloadMismatch, Claimed h0 t)
          else if t < second_time env s - lockLease then (Inr None, Claimed h (second_time env s))
          else (Inl ErrInFlight, Claimed h t))
     | Completed h0 c b \<Rightarrow>
         (if h0 = h then Inr (Some \<lparr>Code = c, Body = b\<rparr>) else Inl ErrPayloadMismatch, Completed h0 c b))"
  unfolding Begin_up [OF assms refl] by (auto split: key_state.split)

definition no_keys :: "int \<Rightarrow> int sys" where
  "no_keys now = demo_sys [] now"

lemma no_keys_ok: "keys_ok (no_keys now)"
  by (simp add: no_keys_def demo_sys_def keys_ok_def)

lemma demo_db: "fst (db_commit (demo_env yes) w) = DbOk" "fst (db_read (demo_env yes) w)"
  by (simp_all add: demo_env_def yes_def)

theorem begin_decides_by_key_state_witness:
  "fst (Begin (demo_env yes) 2 ''k'' ''h'' (no_keys 0)) = Inr None"
proof -
  have "state_of_key 2 ''k'' (no_keys 0) = Unused"
    by (simp add: no_keys_def demo_sys_def state_of_key_def key_row_def sql_select_one_def)
  with begin_decides_by_key_state [OF no_keys_ok demo_db, of 2 "''k''" "''h''" 0] show ?thesis by simp
qed

text \<open>
  A completed key answers every later request, whatever requests came in between and
  whatever they asked for: the stored response to the same payload, a refusal to another,
  unless the database fails.
\<close>

lemma completed_key_replays:
  assumes "keys_ok s" and "state_of_key u k s = Completed h c b"
  shows "fst (Begin env u k h' (run_tries (\<lambda>q. Begin env (fst q) (snd q)) reqs s))
     \<in> {if h' = h then Inr (Some \<lparr>Code = c, Body = b\<rparr>) else Inl ErrPayloadMismatch}
     \<union> Inl ` range BeginFailed"
  using idem.tries_replay [OF assms(1), of "(u, k)" h c b env h' reqs] assms(2) by simp

definition answered :: "int sys" where
  "answered = snd (Complete (demo_env yes) 2 ''k'' 202 ''body''
     (snd (Begin (demo_env yes) 2 ''k'' ''h'' (no_keys 0))))"

lemma answered_state: "state_of_key 2 ''k'' answered = Completed ''h'' 202 ''body''"
  by code_simp

lemma answered_ok: "keys_ok answered"
  unfolding answered_def
  using Complete_refines [OF Begin_keys_ok [OF no_keys_ok] prod.collapse [symmetric]] by blast

lemma completed_key_replays_witness:
  "fst (Begin (demo_env yes) 2 ''k'' ''h''
      (run_tries (\<lambda>q. Begin (demo_env yes) (fst q) (snd q)) [((2, ''k''), ''other''), ((3, ''k''), ''h'')] answered))
   = Inr (Some \<lparr>Code = 202, Body = ''body''\<rparr>)"
  using completed_key_replays [OF answered_ok answered_state, of "demo_env yes" "''h''"
      "[((2, ''k''), ''other''), ((3, ''k''), ''h'')]"]
    Begin_no_failure [OF demo_db, of 2 "''k''" "''h''"
      "run_tries (\<lambda>q. Begin (demo_env yes) (fst q) (snd q)) [((2, ''k''), ''other''), ((3, ''k''), ''h'')] answered"]
  by auto

text \<open>
  Of several requests that found the same expired claim only one takes it over, as long
  as they come within a lease of each other.
\<close>

lemma only_one_reclaimer_wins:
  assumes "keys_ok s" and "fst (lease_takeover u k now (db s)) = 1"
    and "now \<le> now'" and "now' \<le> now + lockLease"
  shows "fst (lease_takeover u k now' (snd (lease_takeover u k now (db s)))) = 0"
  using lease_takeover_once [of u k now "db s" now'] assms by (simp add: keys_ok_def)

definition claimed :: "int sys" where
  "claimed = snd (Begin (demo_env yes) 2 ''k'' ''h'' (no_keys 0))"

lemma claimed_expired: "fst (lease_takeover 2 ''k'' (seconds 121) (db claimed)) = 1"
  by code_simp

lemma only_one_reclaimer_wins_witness:
  "fst (lease_takeover 2 ''k'' (seconds 122) (snd (lease_takeover 2 ''k'' (seconds 121) (db claimed)))) = 0"
  using only_one_reclaimer_wins [of claimed 2 "''k''" "seconds 121" "seconds 122"]
    Begin_keys_ok [OF no_keys_ok, of "demo_env yes" 2 "''k''" "''h''"] claimed_expired
  by (simp add: claimed_def seconds_def lockLease_def)

text \<open>
  \<open>Purge\<close> removes exactly the keys created more than a day ago, reports how many, and
  touches nothing else.
\<close>

lemma purge_removes_expired_keys:
  assumes "Purge env s = (Inr n, s')"
  shows "idempotency_keys (db s') =
      filter (\<lambda>r. exec_time env s - keyTTL \<le> ik_created_at r) (idempotency_keys (db s))
    \<and> n = length (filter (\<lambda>r. ik_created_at r < exec_time env s - keyTTL) (idempotency_keys (db s)))
    \<and> payments (db s') = payments (db s) \<and> outbox (db s') = outbox (db s)"
  using assms unfolding Purge_def
proof (cases rule: pool_exec_effect)
  case applied
  then show ?thesis
    by (simp add: purge_keys_def sql_delete_def not_less)
qed simp_all

lemma purge_removes_expired_keys_witness:
  "\<exists>n s'. Purge (demo_env yes) (no_keys 5) = (Inr n, s') \<and> n = 0"
proof -
  obtain r s' where p: "Purge (demo_env yes) (no_keys 5) = (r, s')" by fastforce
  then obtain n where n: "r = Inr n"
    using pool_exec_ok [OF demo_db(1)] unfolding Purge_def by blast
  from purge_removes_expired_keys [OF p [unfolded n]] p n show ?thesis
    by (simp add: no_keys_def demo_sys_def)
qed



end
