(* ===== verification/ServerAccept.thy ===== *)
theory ServerAccept
  imports ServerRefinement IdempotencyProperties
begin

section \<open>Accepting a payment request\<close>

text \<open>
  The accepting path of \<open>createPayment\<close>: a valid request whose key is granted, while the database
  answers, creates one payment; and what the state of its key is then.
\<close>

definition db_up :: "'w env \<Rightarrow> bool" where
  "db_up env \<longleftrightarrow> (\<forall>w. fst (db_commit env w) = DbOk \<and> fst (db_read env w))"

text \<open>The constraints of the insert, as far as the request decides them.\<close>

definition payable :: "database \<Rightarrow> uuid \<Rightarrow> uuid option \<Rightarrow> createPaymentReq \<Rightarrow> bool" where
  "payable d instrument fx req \<longleftrightarrow>
     (\<exists>m \<in> set (merchants d). mc_id m = req_MerchantID req)
   \<and> (\<exists>n \<in> set (instruments d). in_id n = instrument)
   \<and> (case fx of None \<Rightarrow> True | Some q \<Rightarrow> \<exists>f \<in> set (fx_quotes d). fx_id f = q)
   \<and> 0 < MinorUnits (req_Amount req) \<and> no_nul (req_MerchantID req) \<and> no_nul (CurrencyCode (req_Amount req))"

lemma no_nul_column: "no_nul (char_column n t) = no_nul t"
  by (auto simp: no_nul_def char_column_def byte_def list_all_iff)

lemma row_allowed_payable:
  "row_allowed d (requested_row pid user account instrument fx req now) \<longleftrightarrow>
     pid \<notin> pr_id ` set (payments d) \<and> payable d instrument fx req"
  by (auto simp: row_allowed_def requested_row_def payable_def no_nul_column split: option.splits)

lemma insert_payment_ok:
  assumes "db_up env" and "pid \<notin> pr_id ` set (payments (db s))" and "payable (db s) instrument fx req"
  shows "fst (insert_payment env pid user account instrument fx req s) = None"
proof -
  obtain oc t where t: "ask (db_commit env) s = (oc, t)" by fastforce
  have "oc = DbOk"
    using assms(1) ask_eqD [OF t] by (metis db_up_def fst_conv)
  moreover have "db t = db s" using ask_eqD [OF t] by simp
  ultimately show ?thesis
    using assms(2,3) t by (simp add: insert_payment_def begin_func_def row_allowed_payable Let_def)
qed

lemma create_payment_ok:
  assumes "db_up env" and "fst (uuid_new env (world s)) \<notin> pr_id ` set (payments (db s))"
    and "payable (db s) instrument fx req"
  shows "fst (fst (create_payment env user account instrument fx req s)) = 202"
proof -
  obtain pid s1 where pid: "ask (uuid_new env) s = (pid, s1)" by fastforce
  note ask = ask_eqD [OF pid]
  obtain e s2 where ins: "insert_payment env pid user account instrument fx req s1 = (e, s2)" by fastforce
  have "pid \<notin> pr_id ` set (payments (db s1))" "payable (db s1) instrument fx req"
    using ask assms(2,3) by simp_all
  from insert_payment_ok [OF assms(1) this, of user account] ins have "e = None" by simp
  with pid ins show ?thesis by (simp add: create_payment_def)
qed

text \<open>A quote the request may name: none, or one of the table that has not expired.\<close>

definition quote_ok :: "'w env \<Rightarrow> database \<Rightarrow> string \<Rightarrow> bool" where
  "quote_ok env d t \<longleftrightarrow> t = []
     \<or> (\<exists>q f. uuid_parse env t = Some q \<and> sql_select_one (\<lambda>f. fx_id f = q) (fx_quotes d) = Some f
          \<and> (\<forall>w. clock env w \<le> fx_expires_at f))"

lemma find_quote_ok:
  assumes "db_up env" and "quote_ok env (db s) t"
  shows "\<exists>fx s'. find_quote env t s = (Inr fx, s')
    \<and> (case fx of None \<Rightarrow> True | Some q \<Rightarrow> \<exists>f \<in> set (fx_quotes (db s)). fx_id f = q)"
proof (cases "t = []")
  case False
  then obtain q f where q: "uuid_parse env t = Some q"
      "sql_select_one (\<lambda>f. fx_id f = q) (fx_quotes (db s)) = Some f" "\<forall>w. clock env w \<le> fx_expires_at f"
    using assms(2) by (auto simp: quote_ok_def)
  obtain ok s1 where ok: "ask (db_read env) s = (ok, s1)" by fastforce
  have "ok"
    using assms(1) ask_eqD [OF ok] by (metis db_up_def fst_conv)
  with False q ok ask_eqD [OF ok] sql_select_one_SomeD [OF q(2)] show ?thesis
    by (auto simp: find_quote_def not_less)
qed (simp add: find_quote_def)

text \<open>What a request must be to be accepted.\<close>

definition valid_request :: "'w env \<Rightarrow> server \<Rightarrow> request \<Rightarrow> 'w sys \<Rightarrow> uuid \<Rightarrow> string \<Rightarrow> string \<Rightarrow> createPaymentReq \<Rightarrow> bool" where
  "valid_request env sv rq s user key body req \<longleftrightarrow>
     uuid_parse env (Get (rq_headers rq) ''X-User-Id'') = Some user
   \<and> Get (rq_headers rq) ''Idempotency-Key'' = key \<and> key \<noteq> [] \<and> length key \<le> 255
   \<and> (\<exists>b. rq_body rq = Some b \<and> body = take body_limit b)
   \<and> \<not> gated env sv (rq_headers rq) body s \<and> decode_create body = Some req
   \<and> length (CurrencyCode (req_Amount req)) = 3 \<and> req_MerchantID req \<noteq> []
   \<and> uuid_parse env (req_AccountID req) \<noteq> None
   \<and> (\<exists>n. uuid_parse env (req_InstrumentID req) = Some n \<and> payable (db s) n None req)
   \<and> quote_ok env (db s) (req_FxQuoteID req)"

lemma valid_requestD:
  assumes "valid_request env sv rq s user key body req"
  shows "createPayment env sv rq s = claim_and_run env user key body s"
    and "0 < MinorUnits (req_Amount req)"
  using assms by (auto simp: valid_request_def createPayment_def Let_def payable_def)

lemma payable_quote:
  "payable d n None req \<Longrightarrow> (case fx of None \<Rightarrow> True | Some q \<Rightarrow> \<exists>f \<in> set (fx_quotes d). fx_id f = q)
     \<Longrightarrow> payable d n fx req"
  by (simp add: payable_def)

lemma executeCreate_ok:
  assumes "db_up env" and "\<And>w. later env (world s) w \<Longrightarrow> fst (uuid_new env w) \<notin> pr_id ` set (payments (db s))"
    and v: "valid_request env sv rq s user key body req" and "keys_only s s1" and "later env (world s) (world s1)"
  shows "fst (fst (executeCreate env user body s1)) = 202"
proof -
  obtain account instrument where ids: "uuid_parse env (req_AccountID req) = Some account"
      "uuid_parse env (req_InstrumentID req) = Some instrument" "payable (db s) instrument None req"
    using v by (auto simp: valid_request_def)
  note same = keys_onlyD [OF assms(4)]
  have q: "quote_ok env (db s1) (req_FxQuoteID req)"
    using v same by (simp add: valid_request_def quote_ok_def)
  obtain fx s2 where fx: "find_quote env (req_FxQuoteID req) s1 = (Inr fx, s2)"
      "case fx of None \<Rightarrow> True | Some q \<Rightarrow> \<exists>f \<in> set (fx_quotes (db s1)). fx_id f = q"
    using find_quote_ok [OF assms(1) q] by blast
  have s2: "db s2 = db s1"
    using find_quote_same [OF fx(1)] by (simp add: same_service_def)
  have "payable (db s) instrument fx req"
    by (rule payable_quote [OF ids(3)]) (use fx(2) same in \<open>auto split: option.splits\<close>)
  then have "payable (db s2) instrument fx req"
    using same s2 fx(2) by (simp add: payable_def)
  moreover have "fst (uuid_new env (world s2)) \<notin> pr_id ` set (payments (db s2))"
    using assms(2) later_trans [OF find_quote_later [OF fx(1)] assms(5)] same s2 by simp
  ultimately have "fst (fst (create_payment env user account instrument fx req s2)) = 202"
    using create_payment_ok [OF assms(1)] by blast
  with v ids(1,2) valid_requestD(2) [OF v] fx(1) show ?thesis
    by (simp add: valid_request_def executeCreate_def not_le)
qed

subsection \<open>The key of an accepted request\<close>

lemma WriteRequestedEvent_keys:
  "idempotency_keys (db (WriteRequestedEvent env pid user m a c fx t)) = idempotency_keys (db t)"
  by (simp add: WriteRequestedEvent_def)

lemma created_keys:
  assumes "created env s r cur s'"
  shows "idempotency_keys (db s') = idempotency_keys (db s)"
proof -
  obtain t where "db t = (db s)\<lparr>payments := payments (db s) @ [r]\<rparr>"
      "s' = WriteRequestedEvent env (pr_id r) (pr_user_id r) (pr_merchant_id r) (pr_amount r) cur
        (pr_fx_quote_id r) t"
    using assms by (auto simp: created_def)
  then show ?thesis by (simp add: WriteRequestedEvent_keys)
qed

lemma insert_payment_keys:
  "idempotency_keys (db (snd (insert_payment env pid user account instrument fx req s))) = idempotency_keys (db s)"
proof -
  obtain oc t where t: "ask (db_commit env) s = (oc, t)" by fastforce
  with ask_eqD [OF t] show ?thesis
    by (auto simp: insert_payment_def begin_func_def Let_def WriteRequestedEvent_keys)
qed

lemma create_payment_keys:
  "idempotency_keys (db (snd (create_payment env user account instrument fx req s))) = idempotency_keys (db s)"
proof -
  obtain pid s1 where pid: "ask (uuid_new env) s = (pid, s1)" by fastforce
  with ask_eqD [OF pid] insert_payment_keys [of env pid user account instrument fx req s1] show ?thesis
    by (auto simp: create_payment_def split: prod.splits option.splits)
qed

lemma executeCreate_keys:
  "idempotency_keys (db (snd (executeCreate env user body s))) = idempotency_keys (db s)"
proof -
  have q: "idempotency_keys (db s1) = idempotency_keys (db s)" if "find_quote env t s = (x, s1)" for t x s1
    using find_quote_same [OF that] by (simp add: same_service_def)
  show ?thesis
    by (auto simp: executeCreate_def create_payment_keys q split: option.splits prod.splits sum.splits)
qed

lemma state_of_key_same:
  "idempotency_keys (db s') = idempotency_keys (db s) \<Longrightarrow> state_of_key u k s' = state_of_key u k s"
  by (simp add: state_of_key_def key_row_def)

lemma Complete_ok:
  assumes "db_up env" and "Complete env u k code body s = (e, s')"
  shows "e = None"
proof -
  let ?f = "\<lambda>_. update_keys (key_is u k)
     (\<lambda>r. r\<lparr>ik_response_code := Some code, ik_response_body := jsonb_norm env body, ik_locked_at := None\<rparr>)"
  obtain x t where x: "pool_exec env ?f s = (x, t)" by fastforce
  have "\<exists>n. x = Inr n"
    using pool_exec_ok [OF _ x] assms(1) by (auto simp: db_up_def)
  with assms(2) x show ?thesis by (auto simp: Complete_def)
qed

text \<open>A valid request whose key is granted: what it leaves behind.\<close>

lemma valid_request_accepted:
  assumes up: "db_up env" and ids: "\<And>w. later env (world s) w \<Longrightarrow> fst (uuid_new env w) \<notin> pr_id ` set (payments (db s))"
    and v: "valid_request env sv rq s user key body req" and keys: "keys_ok s"
    and grant: "fst (Begin env user key (HashBody body) s) = Inr None"
    and run: "createPayment env sv rq s = (a, s')"
  obtains pid now account instrument fx s0 s1 s2 where
      "created env s0 (requested_row pid user account instrument fx req now) (CurrencyCode (req_Amount req)) s1"
      and "keys_only s s0" and "s2 = s1\<lparr>spawned := spawned s1 @ [pid]\<rparr>" and "keys_only s2 s'"
      and "a = executed (202, accepted_json env pid req)"
      and "state_of_key user key s' = Completed (HashBody body) 202 (jsonb_norm env (rs_body a))"
proof -
  obtain x s0 where b: "Begin env user key (HashBody body) s = (x, s0)" by fastforce
  with grant have x: "x = Inr None" by simp
  note k0 = Begin_keys_only [OF b]
  have once: "run_once env user key body s0 = (a, s')"
    using run b x by (simp add: valid_requestD(1) [OF v] claim_and_run_def)
  obtain y s2 where y: "executeCreate env user body s0 = (y, s2)" by fastforce
  obtain e s3 where c: "Complete env user key (fst y) (print (snd y)) s2 = (e, s3)" by fastforce
  have a: "a = executed y" and s': "s' = s3"
    using once y c by (simp_all add: run_once_def)
  have code: "fst y = 202"
    using executeCreate_ok [OF up ids v k0 Begin_later [OF b]] y by simp
  have "keys_ok s0"
    using Begin_keys_ok [OF keys, of env user key "HashBody body"] b by simp
  moreover have ks: "idempotency_keys (db s2) = idempotency_keys (db s0)"
    using executeCreate_keys [of env user body s0] y by simp
  ultimately have "keys_ok s2"
    using keys_ok_same by blast
  moreover obtain now where "state_of_key user key s0 = Claimed (HashBody body) now"
    using idem.grant_claims [OF keys, of env "(user, key)" "HashBody body"] b x by auto
  ultimately have done_key: "state_of_key user key s' = Completed (HashBody body) 202 (jsonb_norm env (rs_body a))"
    using Complete_refines [OF _ c] Complete_ok [OF up c] code state_of_key_same [OF ks]
    unfolding s' a by (simp add: executed_def)
  from y show thesis
  proof (cases rule: executeCreate_effect)
    case refused
    with code show thesis by simp
  next
    case (inserted req' account instrument fx pid now t)
    moreover have "req' = req"
      using inserted(1) v by (simp add: valid_request_def)
    ultimately show thesis
      using that [of s0 pid account instrument fx now t s2] k0 code a s' done_key Complete_keys_only [OF c] by auto
  qed
qed

end
