(* ===== verification/GatewayProperties.thy ===== *)
theory GatewayProperties
  imports StepUp
begin

section \<open>Properties of the gateway and of the step-up gate\<close>

text \<open>
  Who a request comes from, and what it proved: only the verified assertion decides. The
  witnesses use a token with one user and the methods \<open>pwd\<close> and \<open>mfa\<close>.
\<close>

definition demo_claims :: claims where
  "demo_claims = [''sub'' \<mapsto> CString ''u1'', ''amr'' \<mapsto> CArray [CString ''pwd'', CString ''mfa''],
     ''auth_time'' \<mapsto> CNumber 1700000000]"

definition demo_jwt :: "string \<Rightarrow> claims option" where
  "demo_jwt raw = (if raw = ''token'' then Some demo_claims else None)"

definition demo_headers :: headers where
  "demo_headers = (\<lambda>k. if k = assertionHeader then [''token''] else if k = ''X-User-Id'' then [''forged'']
     else if k = ''Idempotency-Key'' then [''k''] else [])"

definition not_health :: "string \<Rightarrow> bool" where
  "not_health path \<longleftrightarrow> take (length ''/health/'') path \<noteq> ''/health/''"

lemma demo_middleware:
  "Middleware demo_jwt ''/payments'' demo_headers = Inr (identify demo_claims ''u1'' demo_headers)"
  by (simp add: Middleware_def demo_jwt_def demo_headers_def assertionHeader_def Get_def GetSubject_def
      demo_claims_def)

text \<open>
  Outside the health endpoints a request reaches a handler exactly when it carries an
  assertion that verifies and names a subject; everything else is rejected.
\<close>

lemma gateway_passes_only_verified_requests:
  assumes "not_health path"
  shows "(\<exists>h'. Middleware jwt_parse path h = Inr h') \<longleftrightarrow>
    Get h assertionHeader \<noteq> []
    \<and> (\<exists>cl sub. jwt_parse (Get h assertionHeader) = Some cl \<and> GetSubject cl = Some sub \<and> sub \<noteq> [])"
  using assms by (auto simp: Middleware_def not_health_def Let_def split: option.splits)

lemma gateway_passes_only_verified_requests_witness:
  "\<not> (\<exists>h'. Middleware demo_jwt ''/payments'' (\<lambda>_. []) = Inr h')"
  using gateway_passes_only_verified_requests [of "''/payments''" demo_jwt "\<lambda>_. []"]
  by (simp add: not_health_def Get_def)

text \<open>
  The identity a handler reads is the assertion's: the user is the verified subject, and
  two requests with the same assertion give the same identity headers, whatever identity
  headers they came with.
\<close>

lemma inbound_identity_is_ignored:
  assumes "not_health path" and "Middleware jwt_parse path h1 = Inr h1'"
    and "Middleware jwt_parse path h2 = Inr h2'" and "Get h1 assertionHeader = Get h2 assertionHeader"
  shows "(\<forall>k \<in> set identityHeaders. h1' k = h2' k)
    \<and> (\<exists>cl. jwt_parse (Get h1 assertionHeader) = Some cl \<and> GetSubject cl = Some (Get h1' ''X-User-Id''))
    \<and> Get h1' ''X-User-Id'' \<noteq> [] \<and> Get h1' assertionHeader = []"
proof -
  obtain cl1 sub1 where 1: "jwt_parse (Get h1 assertionHeader) = Some cl1" "GetSubject cl1 = Some sub1"
      "sub1 \<noteq> []" "h1' = identify cl1 sub1 h1"
    using Middleware_passes [OF assms(2)] assms(1) unfolding not_health_def by metis
  obtain cl2 sub2 where 2: "jwt_parse (Get h2 assertionHeader) = Some cl2" "GetSubject cl2 = Some sub2"
      "sub2 \<noteq> []" "h2' = identify cl2 sub2 h2"
    using Middleware_passes [OF assms(3)] assms(1) unfolding not_health_def by metis
  have "cl2 = cl1" "sub2 = sub1"
    using 1 2 assms(4) by auto
  with 1 2 show ?thesis
    using identify_identity [of _ cl1 sub1 h1] identify_identity [of _ cl1 sub1 h2]
    by (auto simp: identify_Get)
qed

lemma inbound_identity_is_ignored_witness:
  "GetSubject demo_claims = Some (Get (identify demo_claims ''u1'' demo_headers) ''X-User-Id'')"
proof -
  have "not_health ''/payments''" by (simp add: not_health_def)
  from inbound_identity_is_ignored [OF this demo_middleware demo_middleware refl]
  show ?thesis by (auto simp: demo_jwt_def split: if_splits)
qed

lemma recent_mfa_passes:
  assumes "not_health path" and "Middleware jwt_parse path h = Inr h'"
    and "jwt_parse (Get h assertionHeader) = Some cl"
    and "cl ''amr'' = Some (CArray methods)" and "''mfa'' \<in> set (strings_of methods)"
    and "\<forall>w \<in> set (strings_of methods). plain_method w"
    and "cl ''auth_time'' = Some (CNumber (of_int secs))" and "0 \<le> secs" and "secs < 2 ^ 62"
    and "now - seconds secs \<le> maxAge" and "- (2 ^ 63) \<le> maxAge"
  shows "\<not> stepUpRequired now limit maxAge h' amount"
proof -
  obtain sub where h': "h' = identify cl sub h"
    using Middleware_passes [OF assms(2)] assms(1,3) unfolding not_health_def by (metis option.inject)
  have "Get h' ''X-Auth-Amr'' = join_with '','' (strings_of methods)"
    unfolding h' identify_Get by (simp add: assms(4) joinStrings_def)
  from read_joined [OF this assms(6)] have "steppedUp (readAuthStrength h')"
    using assms(5) by (simp add: steppedUp_def list_ex_iff)
  moreover have "int64_of_float (of_int secs) = secs"
    using assms(8,9) by (simp add: int64_of_float_def trunc_float_def)
  then have time: "authTime (readAuthStrength h') = Unix secs"
    using ParseInt_show_int [of secs] assms(7-9) by (simp add: readAuthStrength_def h' identify_Get)
  have "sint (Unix secs) \<noteq> 0"
    using sint_Unix [of secs] assms(8,9) by (simp add: unixToInternal_def)
  then have "Unix secs \<noteq> 0" by auto
  moreover have "Since now (Unix secs) \<le> maxAge"
    using Since_Unix [of secs now] assms(8-11) by (simp add: saturate_def)
  ultimately show ?thesis
    by (simp add: stepUpRequired_def fresh_auth_def time Let_def)
qed

lemma demo_methods: "\<forall>w \<in> set (strings_of [CString ''pwd'', CString ''mfa'']). plain_method w"
  by (auto simp: plain_method_def intro!: trimmed_outer)

lemma demo_step_up_passes:
  "\<not> stepUpRequired (seconds 1700000060) limit (seconds 900)
     (identify demo_claims ''u1'' demo_headers) amount"
proof (rule recent_mfa_passes [of "''/payments''", OF _ demo_middleware])
  show "demo_jwt (Get demo_headers assertionHeader) = Some demo_claims"
    by (simp add: demo_jwt_def demo_headers_def Get_def)
  show "demo_claims ''amr'' = Some (CArray [CString ''pwd'', CString ''mfa''])"
    by (simp add: demo_claims_def)
  show "demo_claims ''auth_time'' = Some (CNumber (of_int 1700000000))"
    by (simp add: demo_claims_def)
  show "\<forall>w \<in> set (strings_of [CString ''pwd'', CString ''mfa'']). plain_method w"
    by (rule demo_methods)
qed (simp_all add: not_health_def seconds_def)

text \<open>
  A payment at or above the limit passes the step-up gate only if the verified assertion
  names \<open>mfa\<close> among its authentication methods and its time of authentication is no older
  than the maximum age. Nothing a client sends beside the assertion can replace either.
\<close>

lemma large_payment_needs_recent_mfa:
  assumes "not_health path" and "Middleware jwt_parse path h = Inr h'"
    and "limit \<le> amount" and "\<not> stepUpRequired now limit maxAge h' amount"
  shows "\<exists>cl methods t. jwt_parse (Get h assertionHeader) = Some cl
    \<and> cl ''amr'' = Some (CArray methods)
    \<and> (\<exists>w \<in> set (strings_of methods). \<exists>p \<in> set (split_on CHR '','' w). TrimSpace p = ''mfa'')
    \<and> cl ''auth_time'' = Some (CNumber t)
    \<and> Since now (Unix (int64_of_float t)) \<le> maxAge"
proof -
  obtain cl sub where cl: "jwt_parse (Get h assertionHeader) = Some cl" "h' = identify cl sub h"
    using Middleware_passes [OF assms(2)] assms(1) unfolding not_health_def by metis
  let ?a = "readAuthStrength h'"
  have a: "''mfa'' \<in> set (amr ?a)" "authTime ?a \<noteq> 0" "Since now (authTime ?a) \<le> maxAge"
    using assms(3,4) by (auto simp: stepUpRequired_def steppedUp_def fresh_auth_def Let_def list_ex_iff)
  have "Get h' ''X-Auth-Amr'' \<noteq> []"
    using a(1) read_no_amr [of h'] by auto
  then have "joinStrings (cl ''amr'') \<noteq> []"
    unfolding cl(2) identify_Get .
  then obtain methods where m: "cl ''amr'' = Some (CArray methods)"
    by (auto simp: joinStrings_def split: option.splits claim.splits)
  have "Get h' ''X-Auth-Amr'' = join_with '','' (strings_of methods)"
    unfolding cl(2) identify_Get by (simp add: m joinStrings_def)
  from read_joined_parts [OF this a(1)]
  have mfa: "\<exists>w \<in> set (strings_of methods). \<exists>p \<in> set (split_on CHR '','' w). TrimSpace p = ''mfa''" .
  have "ParseInt (Get h' ''X-Auth-Time'') \<noteq> None"
    using a(2) read_no_time [of h'] by auto
  moreover have "ParseInt [] = None"
    by (simp add: ParseInt_def parse_nat_def)
  ultimately have "Get h' ''X-Auth-Time'' \<noteq> []" by metis
  then obtain t where t: "cl ''auth_time'' = Some (CNumber t)"
    unfolding cl(2) identify_Get by (auto split: option.splits claim.splits)
  have "authTime ?a = Unix (int64_of_float t)"
    using ParseInt_show_int [of "int64_of_float t"] int64_of_float_range [of t]
    by (simp add: readAuthStrength_def cl(2) identify_Get t)
  with a(3) cl(1) m mfa t show ?thesis by auto
qed

lemma large_payment_needs_recent_mfa_witness:
  "\<exists>t. demo_claims ''auth_time'' = Some (CNumber t)
     \<and> Since (seconds 1700000060) (Unix (int64_of_float t)) \<le> seconds 900"
proof -
  have "not_health ''/payments''" by (simp add: not_health_def)
  from large_payment_needs_recent_mfa [OF this demo_middleware _ demo_step_up_passes, of 100 250]
  show ?thesis by (auto simp: demo_jwt_def split: if_splits)
qed

text \<open>
  And such a caller does pass: the gate asks for nothing else.\<close>

lemma recent_mfa_satisfies_step_up:
  assumes "not_health path" and "Middleware jwt_parse path h = Inr h'"
    and "jwt_parse (Get h assertionHeader) = Some cl"
    and "cl ''amr'' = Some (CArray methods)" and "''mfa'' \<in> set (strings_of methods)"
    and "\<forall>w \<in> set (strings_of methods). plain_method w"
    and "cl ''auth_time'' = Some (CNumber (of_int secs))" and "0 \<le> secs" and "secs < 2 ^ 62"
    and "now - seconds secs \<le> maxAge" and "- (2 ^ 63) \<le> maxAge"
  shows "\<not> stepUpRequired now limit maxAge h' amount"
  using assms by (rule recent_mfa_passes)

lemma recent_mfa_satisfies_step_up_witness:
  "\<not> stepUpRequired (seconds 1700000060) 100000 (seconds 900)
     (identify demo_claims ''u1'' demo_headers) 100000"
proof (rule recent_mfa_satisfies_step_up [of "''/payments''", OF _ demo_middleware])
  show "demo_jwt (Get demo_headers assertionHeader) = Some demo_claims"
    by (simp add: demo_jwt_def demo_headers_def Get_def)
  show "demo_claims ''amr'' = Some (CArray [CString ''pwd'', CString ''mfa''])"
    by (simp add: demo_claims_def)
  show "demo_claims ''auth_time'' = Some (CNumber (of_int 1700000000))"
    by (simp add: demo_claims_def)
  show "\<forall>w \<in> set (strings_of [CString ''pwd'', CString ''mfa'']). plain_method w"
    by (rule demo_methods)
qed (simp_all add: not_health_def seconds_def)

text \<open>
  The gate has no lower bound on the age: an authentication time in the future counts as
  fresh.
\<close>

lemma future_authentication_is_fresh:
  assumes "now \<le> seconds secs" and "0 \<le> secs" and "secs < 2 ^ 62" and "0 \<le> maxAge"
  shows "fresh_auth now maxAge \<lparr>amr = ms, authTime = Unix secs\<rparr>"
proof -
  have "sint (Unix secs) \<noteq> 0"
    using sint_Unix [of secs] assms(2,3) by (simp add: unixToInternal_def)
  then have "Unix secs \<noteq> 0" by auto
  with Since_Unix [of secs now] assms show ?thesis
    by (simp add: fresh_auth_def saturate_def)
qed

lemma future_authentication_is_fresh_witness:
  "fresh_auth 0 (seconds 900) \<lparr>amr = [], authTime = Unix 4000000000\<rparr>"
  using future_authentication_is_fresh [of 0 4000000000 "seconds 900" "[]"] by (simp add: seconds_def)

end
