(* ===== verification/ServerProperties.thy ===== *)
theory ServerProperties
  imports ServerAccept GatewayProperties SagaProperties
begin

section \<open>Properties of the payments API\<close>

text \<open>
  Who can create a payment and with what proof, what an accepted request leaves behind, what a
  key answers afterwards, what one user's requests show of another's payments, and what a quote
  and the event stream deliver.
\<close>

subsection \<open>Keys and ids under requests\<close>

lemma resume_tables:
  assumes "ResumeAfterStepUp env i user s = (e, s')"
  shows "idempotency_keys (db s') = idempotency_keys (db s)
    \<and> map pr_id (payments (db s')) = map pr_id (payments (db s))"
proof -
  obtain x s1 where x: "load env i s = (x, s1)" by fastforce
  have s1: "db s1 = db s"
    using load_frame(1) [of env i s] x by simp
  show ?thesis
  proof (cases "db s' = db s")
    case False
    obtain p where "x = Inr p"
      using False assms x s1 by (cases x) (auto simp: ResumeAfterStepUp_def)
    obtain e2 s2 where tr: "transition env p FraudScreened Processing id s1 = (e2, s2)" by fastforce
    have s': "db s' = db s2"
      using False assms x s1 tr \<open>x = Inr p\<close>
      by (auto simp: ResumeAfterStepUp_def split: if_splits option.splits)
    obtain e3 s3 where g: "guarded_tx env (ConcurrentTransition (ID p))
        (\<lambda>r. pr_id r = ID p \<and> pr_step r = Step p) (transition_row FraudScreened Processing) id s1 = (e3, s3)"
      by fastforce
    have "db s2 = db s3"
      using tr g by (auto simp: transition_def announce_def split: option.splits)
    with g s' s1 show ?thesis
      by (cases rule: guarded_tx_effect) (auto simp: transition_row_def)
  qed simp
qed

lemma fxQuote_tables:
  assumes "fxQuote env sv rq s = (a, s')"
  shows "idempotency_keys (db s') = idempotency_keys (db s)"
  using assms
proof (cases rule: fxQuote_effect)
  case refused
  then show ?thesis by (simp add: same_service_def)
next
  case (quoted user b q rate s1)
  have "idempotency_keys (db s1) = idempotency_keys (db s)"
    using find_rate_same [OF quoted(4)] by (simp add: same_service_def)
  moreover from quoted(5) have "idempotency_keys (db s') = idempotency_keys (db s1)"
    by (cases rule: make_quote_effect) (simp_all add: insert_quote_def)
  ultimately show ?thesis by simp
qed

lemma streamEvents_tables:
  assumes "streamEvents env rq t missed acts s = (a, s')"
  shows "db s' = db s"
proof -
  obtain ok s1 where ok: "ask (db_read env) s = (ok, s1)" by fastforce
  from assms ok have "s' = s \<or> s' = s1 \<or> (\<exists>b. s' = s1\<lparr>bus := b\<rparr>)"
    by (auto simp: streamEvents_def open_stream_def Let_def split: sum.splits option.splits if_splits prod.splits)
  with ask_eqD [OF ok] show ?thesis by auto
qed

lemma same_service_db: "same_service s s' \<Longrightarrow> db s' = db s"
  by (simp add: same_service_def)

lemma Handler_tables:
  assumes "Handler env sv missed acts rq s = (a, s')" and "route_of rq \<noteq> CreatePayment"
  shows "idempotency_keys (db s') = idempotency_keys (db s)
    \<and> map pr_id (payments (db s')) = map pr_id (payments (db s))"
proof
  show "idempotency_keys (db s') = idempotency_keys (db s)"
    using assms
    by (auto simp: Handler_def answer_def resumePayment_def Let_def
        split: route.splits prod.splits sum.splits if_splits option.splits
        dest!: fxQuote_tables streamEvents_tables resume_tables
          getPayment_same [THEN same_service_db] ready_same [THEN same_service_db]
          listInstruments_same [THEN same_service_db] listMerchants_same [THEN same_service_db])
  show "map pr_id (payments (db s')) = map pr_id (payments (db s))"
    using assms(1)
  proof (cases rule: Handler_effect)
    case (resumes user i e t)
    with resume_tables show ?thesis by blast
  qed (use assms(2) in \<open>auto simp: same_books_def\<close>)
qed



subsection \<open>A request that is accepted\<close>

definition demo_parse :: "string \<Rightarrow> uuid option" where
  "demo_parse = map_of [(''u1'', 2), (''acct'', 3), (''inst'', 4), (''pay'', 1), (''u5'', 5), (''hold'', 7)]"

definition demo_server_env :: "int env" where
  "demo_server_env = (demo_env yes)\<lparr>uuid_parse := demo_parse\<rparr>"

definition demo_server :: server where
  "demo_server = \<lparr>quoteTTL = seconds 90, stepUpAmountLimit = 100, stepUpMaxAge = seconds 900,
     has_reconciler = True\<rparr>"

definition demo_body :: string where
  "demo_body = print (GObj [(''account_id'', GStr ''acct''),
     (''amount'', GObj [(''amount_minor_units'', GNum ''250''), (''currency_code'', GStr ''EUR'')]),
     (''instrument_id'', GStr ''inst''), (''merchant_id'', GStr ''m'')])"

definition demo_req :: createPaymentReq where
  "demo_req = \<lparr>req_AccountID = ''acct'', req_MerchantID = ''m'', req_InstrumentID = ''inst'',
     req_FxQuoteID = [], req_Amount = \<lparr>MinorUnits = 250, CurrencyCode = ''EUR''\<rparr>\<rparr>"

definition demo_request :: request where
  "demo_request = \<lparr>rq_method = ''POST'', rq_segments = [''payments''], rq_clean = True,
     rq_headers = demo_headers, rq_body = Some demo_body, rq_flusher = True\<rparr>"

text \<open>The request as the handler sees it.\<close>

definition demo_inner :: request where
  "demo_inner = demo_request\<lparr>rq_headers := identify demo_claims ''u1'' demo_headers\<rparr>"

definition demo_start :: "int sys" where
  "demo_start = demo_sys [] (seconds 1700000060)"

lemma demo_decodes: "decode_create demo_body = Some demo_req" "length demo_body \<le> body_limit"
proof -
  show "decode_create demo_body = Some demo_req" by code_simp
  have "length demo_body < 200" by code_simp
  then show "length demo_body \<le> body_limit" by (simp add: body_limit_def)
qed

lemma demo_inner_headers:
  "Get (rq_headers demo_inner) ''X-User-Id'' = ''u1''" "Get (rq_headers demo_inner) ''Idempotency-Key'' = ''k''"
  by (simp_all add: demo_inner_def identify_Get)
    (simp add: identify_def Let_def identityHeaders_def assertionHeader_def demo_claims_def demo_headers_def Get_def
      Set_def Del_def)

lemma demo_up: "db_up demo_server_env"
  using demo_db by (simp add: db_up_def demo_server_env_def)

lemma demo_inj: "inj (uuid_str demo_server_env)"
  using inj_demo_uuid [of yes] by (simp add: demo_server_env_def)

lemma demo_not_gated: "\<not> gated demo_server_env demo_server (rq_headers demo_inner) demo_body demo_start"
proof -
  have "clock demo_server_env (world demo_start) = seconds 1700000060"
    by (simp add: demo_server_env_def demo_env_def demo_start_def demo_sys_def)
  then show ?thesis
    using demo_step_up_passes probe_reads_amount [OF demo_decodes(1)]
    by (simp add: gated_def demo_server_def demo_inner_def demo_req_def)
qed

lemma demo_valid:
  "valid_request demo_server_env demo_server demo_inner demo_start 2 ''k'' demo_body demo_req"
proof -
  have "rq_body demo_inner = Some demo_body \<and> demo_body = take body_limit demo_body"
    using demo_decodes(2) by (simp add: demo_inner_def demo_request_def)
  then have body: "\<exists>b. rq_body demo_inner = Some b \<and> demo_body = take body_limit b" by blast
  have parse: "demo_parse ''u1'' = Some 2" "demo_parse ''acct'' = Some 3" "demo_parse ''inst'' = Some 4"
    by (simp_all add: demo_parse_def)
  have "payable (db demo_start) 4 None demo_req"
    by (simp add: payable_def demo_start_def demo_sys_def demo_merchant_def demo_instrument_def demo_req_def
        no_nul_def byte_def)
  then show ?thesis
    using body demo_not_gated demo_decodes(1)
    by (simp add: valid_request_def demo_inner_headers demo_server_env_def parse quote_ok_def demo_req_def)
qed

lemma demo_keys: "keys_ok demo_start" "fst (Begin demo_server_env 2 ''k'' h demo_start) = Inr None"
proof -
  show keys: "keys_ok demo_start"
    by (simp add: demo_start_def demo_sys_def keys_ok_def)
  have "state_of_key 2 ''k'' demo_start = Unused"
    by (simp add: demo_start_def demo_sys_def state_of_key_def key_row_def sql_select_one_def)
  with begin_spec_unused Begin_begin_spec [OF keys, of h 2 "''k''" demo_server_env]
    Begin_no_failure [of demo_server_env 2 "''k''" h demo_start] demo_up
  show "fst (Begin demo_server_env 2 ''k'' h demo_start) = Inr None"
    unfolding db_up_def by metis
qed

lemma demo_serve:
  "serve demo_jwt demo_server_env demo_server missed acts demo_request s =
     answer (createPayment demo_server_env demo_server demo_inner s)"
proof -
  have "url_path demo_request = ''/payments''" "rq_headers demo_request = demo_headers"
    by (simp_all add: demo_request_def url_path_def)
  moreover have "route_of demo_inner = CreatePayment"
    by (simp add: demo_inner_def demo_request_def route_of_def route_def Let_def)
  ultimately show ?thesis
    using demo_middleware by (simp add: serve_def Handler_def flip: demo_inner_def)
qed

subsection \<open>Properties\<close>

lemma demo_start_initial: "reachable env ([], demo_start)" "fresh_ids env demo_start"
  by (auto simp: demo_start_def demo_sys_def initial_def fresh_ids_def intro: reachable.start)

text \<open>
  C7. A payment comes into being only for a verified caller: the request carries an assertion
  that verifies, the payment belongs to the subject it names, and at or above the step-up limit
  the assertion proves a second factor no older than the maximum age. No path, header or body
  gets around it (the gate reads the same amount the payment is created with).
\<close>

theorem only_verified_caller_creates_payment:
  assumes "serve jwt_parse env sv missed acts rq s = (a, s')" and "r \<in> set (payments (db s'))"
    and "pr_id r \<notin> pr_id ` set (payments (db s))"
  shows "new_payment r \<and> (\<exists>cl sub. jwt_parse (Get (rq_headers rq) assertionHeader) = Some cl
    \<and> GetSubject cl = Some sub \<and> uuid_parse env sub = Some (pr_user_id r)
    \<and> (stepUpAmountLimit sv \<le> pr_amount r \<longrightarrow>
         (\<exists>methods t. cl ''amr'' = Some (CArray methods)
            \<and> (\<exists>w \<in> set (strings_of methods). \<exists>p \<in> set (split_on CHR '','' w). TrimSpace p = ''mfa'')
            \<and> cl ''auth_time'' = Some (CNumber t)
            \<and> Since (clock env (world s)) (Unix (int64_of_float t)) \<le> stepUpMaxAge sv)))"
proof -
  have "s' \<noteq> s" using assms(2,3) by auto
  then obtain h where h: "Middleware jwt_parse (url_path rq) (rq_headers rq) = Inr h"
      "Handler env sv missed acts (rq\<lparr>rq_headers := h\<rparr>) s = (a, s')"
    using assms(1) by (auto simp: serve_def split: sum.splits)
  let ?rq = "rq\<lparr>rq_headers := h\<rparr>"
  have route: "route_of ?rq = CreatePayment"
    using Handler_tables [OF h(2)] assms(2,3) by (metis image_eqI set_map)
  have "url_path ?rq = url_path rq" by (simp add: url_path_def)
  then have path: "not_health (url_path rq)"
    using health_prefix [of ?rq] route by (auto simp: not_health_def)
  obtain x where "createPayment env sv ?rq s = (x, s')"
    using h(2) route by (auto simp: Handler_def answer_def split: prod.splits)
  then obtain r' cur where r': "row_of_request env sv ?rq s r' cur" "new_payment r'"
      "payments (db s') = payments (db s) @ [r']"
  proof (cases rule: createPayment_effect)
    case none
    with assms(2,3) keys_onlyD show thesis by fastforce
  next
    case (one r' cur s0 s1 s2)
    have "payments (db s') = payments (db s2)" "payments (db s0) = payments (db s)"
      using keys_onlyD [OF one(2)] keys_onlyD [OF one(5)] by simp_all
    moreover have "payments (db s2) = payments (db s0) @ [r']"
      using one(4) created_rows(1) [OF one(3)] by auto
    ultimately show thesis
      using that [OF one(1) created_rows(2) [OF one(3)]] by simp
  qed
  have [simp]: "r' = r" using r'(3) assms(2,3) by auto
  obtain b req where b: "uuid_parse env (Get h ''X-User-Id'') = Some (pr_user_id r)"
      "decode_create (take body_limit b) = Some req" "\<not> gated env sv h (take body_limit b) s"
      "pr_amount r = MinorUnits (req_Amount req)"
    using r'(1) by (auto simp: row_of_request_def requested_row_def dest: arg_cong [where f = pr_amount])
  have gate: "\<not> stepUpRequired (clock env (world s)) (stepUpAmountLimit sv) (stepUpMaxAge sv) h (pr_amount r)"
    using b(3,4) probe_reads_amount [OF b(2)] by (simp add: gated_def)
  obtain cl sub where cl: "jwt_parse (Get (rq_headers rq) assertionHeader) = Some cl"
      "GetSubject cl = Some sub" "h = identify cl sub (rq_headers rq)"
    using Middleware_passes [OF h(1)] path unfolding not_health_def by metis
  have "uuid_parse env sub = Some (pr_user_id r)"
    using b(1) unfolding cl(3) identify_Get .
  with r'(2) cl(1,2) large_payment_needs_recent_mfa [OF path h(1) _ gate] show ?thesis
    by auto
qed


lemma demo_new_payment:
  obtains r a where "fst (serve demo_jwt demo_server_env demo_server missed acts demo_request demo_start) = Answer a"
    and "payments (db (snd (serve demo_jwt demo_server_env demo_server missed acts demo_request demo_start))) = [r]"
    and "pr_amount r = 250"
proof -
  obtain a s' where run: "createPayment demo_server_env demo_server demo_inner demo_start = (a, s')" by fastforce
  have none: "payments (db demo_start) = []" by (simp add: demo_start_def demo_sys_def)
  have "fst (uuid_new demo_server_env w) \<notin> pr_id ` set (payments (db demo_start))" for w
    using none by simp
  from valid_request_accepted [OF demo_up this demo_valid demo_keys(1) demo_keys(2) run]
  obtain pid now account instrument fx s0 s1 s2 where new:
      "created demo_server_env s0 (requested_row pid 2 account instrument fx demo_req now) (CurrencyCode (req_Amount demo_req)) s1"
      "keys_only demo_start s0" "s2 = s1\<lparr>spawned := spawned s1 @ [pid]\<rparr>" "keys_only s2 s'"
    by metis
  have "payments (db s') = [requested_row pid 2 account instrument fx demo_req now]"
    using created_rows(1) [OF new(1)] keys_onlyD [OF new(2)] keys_onlyD [OF new(4)] new(3) none by simp
  moreover have "pr_amount (requested_row pid 2 account instrument fx demo_req now) = 250"
    by (simp add: requested_row_def demo_req_def)
  ultimately show thesis
    using that run by (simp add: demo_serve answer_def)
qed

theorem only_verified_caller_creates_payment_witness:
  "\<exists>r. payments (db (snd (serve demo_jwt demo_server_env demo_server [] [] demo_request demo_start))) = [r]
     \<and> pr_user_id r = 2 \<and> (\<exists>t. demo_claims ''auth_time'' = Some (CNumber t)
         \<and> Since (seconds 1700000060) (Unix (int64_of_float t)) \<le> seconds 900)"
proof -
  obtain r where r: "payments (db (snd (serve demo_jwt demo_server_env demo_server [] [] demo_request demo_start))) = [r]"
      "pr_amount r = 250"
    using demo_new_payment by metis
  then have "r \<in> set (payments (db (snd (serve demo_jwt demo_server_env demo_server [] [] demo_request demo_start))))"
    by simp
  moreover have "pr_id r \<notin> pr_id ` set (payments (db demo_start))"
    by (simp add: demo_start_def demo_sys_def)
  moreover have "clock demo_server_env (world demo_start) = seconds 1700000060"
    by (simp add: demo_server_env_def demo_env_def demo_start_def demo_sys_def)
  moreover have "demo_jwt (Get (rq_headers demo_request) assertionHeader) = Some demo_claims"
    by (simp add: demo_request_def demo_jwt_def demo_headers_def Get_def)
  moreover have "GetSubject demo_claims = Some ''u1''"
    by (simp add: GetSubject_def demo_claims_def)
  moreover have "uuid_parse demo_server_env ''u1'' = Some 2"
    by (simp add: demo_server_env_def demo_parse_def)
  ultimately show ?thesis
    using only_verified_caller_creates_payment [OF prod.collapse [symmetric], of r demo_jwt demo_server_env demo_server "[]" "[]" demo_request demo_start] r
    by (auto simp: demo_server_def)
qed


subsection \<open>A request whose key is taken\<close>





subsection \<open>Quotes\<close>












end
