(* ===== verification/EndToEnd.thy ===== *)
theory EndToEnd
  imports ServerProperties
begin

section \<open>From the request to the money\<close>









end
