(* ===== verification/StreamProperties.thy ===== *)
theory StreamProperties
  imports ServerProperties
begin

section \<open>What the event stream delivers\<close>

text \<open>
  The stream against its contract: a bounded queue of updates of one payment. \<open>feed_turn\<close> is
  one turn of the queue, \<open>feed\<close> a script of turns; the handler with the bus refines it, and the
  contract says what a client sees.
\<close>

subsection \<open>The contract\<close>

type_synonym feed_state = "bool \<times> update option list \<times> update list"

fun feed_turn :: "string \<Rightarrow> stream_act \<Rightarrow> feed_state \<Rightarrow> feed_state" where
  "feed_turn pid (Publish u) (opened, evs, q) =
     (opened, evs, if u_payment_id u = pid \<and> length q < chan_cap then q @ [u] else q)"
| "feed_turn pid act (False, evs, q) = (False, evs, q)"
| "feed_turn pid Heartbeat (True, evs, q) = (True, evs @ [None], q)"
| "feed_turn pid Receive (True, evs, []) = (True, evs, [])"
| "feed_turn pid Receive (True, evs, u # q) = (u_status u = Processing, evs @ [Some u], q)"
| "feed_turn pid Disconnect (True, evs, q) = (False, evs, q)"

definition feed :: "string \<Rightarrow> stream_act list \<Rightarrow> feed_state \<Rightarrow> feed_state" where
  "feed pid acts st = fold (feed_turn pid) acts st"

fun event_text :: "update option \<Rightarrow> string" where
  "event_text None = keepalive"
| "event_text (Some u) = frame_of u"

text \<open>The updates among the events, and those of the payment a script publishes.\<close>

definition delivered :: "update option list \<Rightarrow> update list" where
  "delivered evs = List.map_filter id evs"

fun published :: "string \<Rightarrow> stream_act list \<Rightarrow> update list" where
  "published pid [] = []"
| "published pid (Publish u # acts) = (if u_payment_id u = pid then [u] else []) @ published pid acts"
| "published pid (act # acts) = published pid acts"

lemma delivered_simps [simp]:
  "delivered [] = []" "delivered (evs @ [None]) = delivered evs"
  "delivered (evs @ [Some u]) = delivered evs @ [u]"
  by (simp_all add: delivered_def map_filter_def)

subsection \<open>The handler refines it\<close>

definition feed_rel :: "string \<Rightarrow> nat \<Rightarrow> bool \<times> string list \<times> bus \<Rightarrow> feed_state \<Rightarrow> bool" where
  "feed_rel pid ch c a =
     (case (c, a) of ((opened, out, b), (opened', evs, q)) \<Rightarrow>
        opened = opened' \<and> out = map event_text evs
      \<and> buffer pid ch b = (if opened then Some q else None))"

lemma stream_turn_feed:
  assumes "feed_rel pid ch c a"
  shows "feed_rel pid ch (stream_turn pid ch act c) (feed_turn pid act a)"
proof -
  obtain opened out b evs q where c: "c = (opened, out, b)" "a = (opened, evs, q)"
      "out = map event_text evs" "buffer pid ch b = (if opened then Some q else None)"
    using assms by (cases c; cases a) (auto simp: feed_rel_def)
  show ?thesis
  proof (cases act)
    case (Publish u)
    with c show ?thesis by (cases opened) (auto simp: feed_rel_def stream_turn_def updates.published)
  next
    case Receive
    show ?thesis
    proof (cases "opened \<and> q \<noteq> []")
      case True
      then obtain u q' where q: "q = u # q'" by (cases q) auto
      with c True obtain b1 where "recv pid ch b = (Some u, b1)" "buffer pid ch b1 = Some q'"
        using updates.received by fastforce
      with c True q Receive show ?thesis
        by (auto simp: feed_rel_def stream_turn_def updates.unsubscribed)
    next
      case False
      with c Receive show ?thesis
        by (cases opened) (auto simp: feed_rel_def stream_turn_def recv_def)
    qed
  qed (use c in \<open>cases opened; simp add: feed_rel_def stream_turn_def updates.unsubscribed\<close>)+
qed

lemma stream_loop_feed:
  "feed_rel pid ch c a \<Longrightarrow> feed_rel pid ch (stream_loop pid ch acts c) (feed pid acts a)"
  unfolding stream_loop_def feed_def
  by (induction acts arbitrary: c a) (simp_all add: stream_turn_feed)

lemma open_stream_feed:
  assumes "bus_ok (bus s)" and "open_stream env r missed acts s = (a, s')"
    and "feed (uuid_str env (pr_id r)) acts
        (True, [Some \<lparr>u_payment_id = uuid_str env (pr_id r), u_status = pr_status r, u_step = pr_step r\<rparr>], [])
      = (opened, evs, q)"
  shows "a = EventStream (map event_text evs) opened
    \<and> buffer (uuid_str env (pr_id r)) (next_chan (fold publish missed (bus s))) (bus s')
        = (if opened then Some q else None)"
proof -
  let ?pid = "uuid_str env (pr_id r)" and ?first = "\<lparr>u_payment_id = uuid_str env (pr_id r), u_status = pr_status r, u_step = pr_step r\<rparr>"
  obtain ch b where sub: "subscribe ?pid (fold publish missed (bus s)) = (ch, b)" by fastforce
  have ch: "ch = next_chan (fold publish missed (bus s))"
    using sub by (simp add: subscribe_def)
  have "feed_rel ?pid ch (True, [frame_of ?first], b) (True, [Some ?first], [])"
    using updates.subscribed [OF updates.publishes_ok [OF assms(1)] sub] by (simp add: feed_rel_def)
  from stream_loop_feed [OF this, of acts] assms(2,3) sub ch show ?thesis
    by (auto simp: open_stream_def Let_def feed_rel_def split: prod.splits)
qed

subsection \<open>What the contract says\<close>







text \<open>A script that publishes nothing of the payment leaves the stream waiting.\<close>

lemma feed_quiet:
  assumes "published pid acts = []" and "Disconnect \<notin> set acts"
  shows "feed pid acts (True, evs, []) = (True, evs @ replicate (count_list acts Heartbeat) None, [])"
  using assms
proof (induction acts arbitrary: evs)
  case (Cons act acts)
  then show ?case
    by (cases act) (auto simp: feed_def replicate_append_same split: if_splits)
qed (simp add: feed_def)

subsection \<open>What a client of the stream sees\<close>

definition update_of :: "'w env \<Rightarrow> payment_row \<Rightarrow> update" where
  "update_of env r =
     \<lparr>u_payment_id = uuid_str env (pr_id r), u_status = pr_status r, u_step = pr_step r\<rparr>"



definition demo_watch :: request where
  "demo_watch = \<lparr>rq_method = ''GET'', rq_segments = [''payments'', ''pay'', ''events''], rq_clean = True,
     rq_headers = (\<lambda>k. if k = ''X-User-Id'' then [''u1''] else []), rq_body = None, rq_flusher = True\<rparr>"

definition demo_update :: "status \<Rightarrow> saga_step \<Rightarrow> update" where
  "demo_update sta st = \<lparr>u_payment_id = ''u'', u_status = sta, u_step = st\<rparr>"



lemma demo_bus: "bus_ok (bus (demo_sys rows now))"
  using bus_ok_new by (simp add: demo_sys_def)


text \<open>
  C24. A stream opened on a payment nothing is published of any more never ends by itself: after
  the first frame it only keeps alive, whatever the payment's status is (a finished payment
  publishes nothing) and whatever was published between the read and the subscription.
\<close>

theorem stream_of_finished_payment_stays_open:
  assumes "bus_ok (bus s)" and "caller_and_id env rq t = Inr (user, i)" and "fst (db_read env (world s))"
    and "sql_select_one (own_payment user i) (payments (db s)) = Some r" and "rq_flusher rq"
    and "published (uuid_str env i) acts = []" and "Disconnect \<notin> set acts"
  shows "fst (streamEvents env rq t missed acts s) =
    EventStream (frame_of (update_of env r) # replicate (count_list acts Heartbeat) keepalive) True"
proof -
  obtain ok s1 where ok: "ask (db_read env) s = (ok, s1)" by fastforce
  note same = ask_eqD [OF ok]
  have i: "pr_id r = i"
    using sql_select_one_SomeD [OF assms(4)] by (simp add: own_payment_def)
  obtain a s' where o: "open_stream env r missed acts s1 = (a, s')" by fastforce
  have "feed (uuid_str env (pr_id r)) acts (True, [Some (update_of env r)], []) =
      (True, [Some (update_of env r)] @ replicate (count_list acts Heartbeat) None, [])"
    using feed_quiet assms(6,7) i by metis
  from open_stream_feed [OF _ o this [unfolded update_of_def]] assms(1) same
  have "a = EventStream (frame_of (update_of env r) # replicate (count_list acts Heartbeat) keepalive) True"
    by (simp add: update_of_def)
  with assms same ok o show ?thesis
    by (simp add: streamEvents_def)
qed

theorem stream_of_finished_payment_stays_open_witness:
  "fst (streamEvents demo_server_env demo_watch ''pay'' [demo_update Failed Done] [Heartbeat, Receive, Heartbeat]
      (demo_sys [demo_row Failed Done] 0)) =
     EventStream [frame_of (demo_update Failed Done), keepalive, keepalive] True"
proof -
  let ?s = "demo_sys [demo_row Failed Done] 0" and ?acts = "[Heartbeat, Receive, Heartbeat]"
  have "caller_and_id demo_server_env demo_watch ''pay'' = Inr (2, 1)"
    by (simp add: caller_and_id_def demo_watch_def Get_def demo_server_env_def demo_parse_def)
  moreover have "fst (db_read demo_server_env (world ?s))"
    by (simp add: demo_server_env_def demo_env_def)
  moreover have "sql_select_one (own_payment 2 1) (payments (db ?s)) = Some (demo_row Failed Done)"
    by (simp add: sql_select_one_def demo_sys_def own_payment_def demo_row_def)
  moreover have "rq_flusher demo_watch" by (simp add: demo_watch_def)
  ultimately have "fst (streamEvents demo_server_env demo_watch ''pay'' [demo_update Failed Done] ?acts ?s) =
      EventStream (frame_of (update_of demo_server_env (demo_row Failed Done))
        # replicate (count_list ?acts Heartbeat) keepalive) True"
    by (intro stream_of_finished_payment_stays_open [OF demo_bus]) simp_all
  moreover have "update_of demo_server_env (demo_row Failed Done) = demo_update Failed Done"
    by (simp add: update_of_def demo_update_def demo_row_def demo_server_env_def demo_env_def demo_uuid_def)
  ultimately show ?thesis
    by (simp add: numeral_2_eq_2)
qed

subsection \<open>What one user sees of another\<close>

text \<open>Two services that differ in what belongs to other users only, and two scripts likewise.\<close>

definition same_view :: "uuid \<Rightarrow> 'w sys \<Rightarrow> 'w sys \<Rightarrow> bool" where
  "same_view u s1 s2 \<longleftrightarrow>
     filter (\<lambda>r. pr_user_id r = u) (payments (db s1)) = filter (\<lambda>r. pr_user_id r = u) (payments (db s2))
   \<and> merchants (db s1) = merchants (db s2) \<and> instruments (db s1) = instruments (db s2)
   \<and> last_snapshot s1 = last_snapshot s2 \<and> world s1 = world s2"

fun seen_by :: "string \<Rightarrow> stream_act list \<Rightarrow> stream_act list" where
  "seen_by pid [] = []"
| "seen_by pid (Publish u # acts) = (if u_payment_id u = pid then [Publish u] else []) @ seen_by pid acts"
| "seen_by pid (act # acts) = act # seen_by pid acts"

fun reading :: "route \<Rightarrow> bool" where
  "reading CreatePayment = False"
| "reading FxQuote = False"
| "reading (ResumePayment t) = False"
| "reading _ = True"

lemma feed_seen_by: "feed pid acts st = feed pid (seen_by pid acts) st"
proof (induction acts arbitrary: st)
  case (Cons act acts)
  obtain opened evs q where "st = (opened, evs, q)" by (cases st)
  with Cons show ?case by (cases act) (simp_all add: feed_def)
qed simp

lemma find_own: "sql_select_one (own_payment u i) rows =
    sql_select_one (\<lambda>r. pr_id r = i) (filter (\<lambda>r. pr_user_id r = u) rows)"
  unfolding sql_select_one_def by (induction rows) (auto simp: own_payment_def)

lemma same_view_own:
  "same_view u s1 s2 \<Longrightarrow> sql_select_one (own_payment u i) (payments (db s1)) =
     sql_select_one (own_payment u i) (payments (db s2))"
  by (simp add: same_view_def find_own)

lemma same_view_ask:
  assumes "same_view u s1 s2" and "ask f s1 = (a1, t1)" and "ask f s2 = (a2, t2)"
  shows "a1 = a2 \<and> same_view u t1 t2 \<and> bus t1 = bus s1 \<and> bus t2 = bus s2"
  using assms by (auto simp: same_view_def ask_def split: prod.splits)

lemma open_stream_same:
  assumes "bus_ok (bus s1)" and "bus_ok (bus s2)"
    and "seen_by (uuid_str env (pr_id r)) acts1 = seen_by (uuid_str env (pr_id r)) acts2"
  shows "fst (open_stream env r missed1 acts1 s1) = fst (open_stream env r missed2 acts2 s2)"
proof -
  let ?pid = "uuid_str env (pr_id r)"
  let ?st = "(True, [Some \<lparr>u_payment_id = ?pid, u_status = pr_status r, u_step = pr_step r\<rparr>], [])"
  obtain o' evs q where f: "feed ?pid acts1 ?st = (o', evs, q)"
    by (cases "feed ?pid acts1 ?st") auto
  then have "feed ?pid acts2 ?st = (o', evs, q)"
    using feed_seen_by assms(3) by metis
  with f open_stream_feed [OF assms(1) prod.collapse [symmetric]] open_stream_feed [OF assms(2) prod.collapse [symmetric]]
  show ?thesis by metis
qed

lemma streamEvents_same:
  assumes "same_view u s1 s2" and "bus_ok (bus s1)" and "bus_ok (bus s2)"
    and "uuid_parse env (Get (rq_headers rq) ''X-User-Id'') = Some u"
    and "\<And>r. r \<in> set (payments (db s1)) \<Longrightarrow> pr_user_id r = u \<Longrightarrow>
      seen_by (uuid_str env (pr_id r)) acts1 = seen_by (uuid_str env (pr_id r)) acts2"
  shows "fst (streamEvents env rq t missed1 acts1 s1) = fst (streamEvents env rq t missed2 acts2 s2)"
proof -
  obtain ok1 t1 where ok1: "ask (db_read env) s1 = (ok1, t1)" by fastforce
  obtain ok2 t2 where ok2: "ask (db_read env) s2 = (ok2, t2)" by fastforce
  from same_view_ask [OF assms(1) ok1 ok2] have same: "ok1 = ok2" "same_view u t1 t2" "bus t1 = bus s1" "bus t2 = bus s2"
    by simp_all
  show ?thesis
  proof (cases "\<exists>i r. caller_and_id env rq t = Inr (u, i) \<and> ok2 \<and> rq_flusher rq
      \<and> sql_select_one (own_payment u i) (payments (db t2)) = Some r")
    case True
    then obtain i r where r: "caller_and_id env rq t = Inr (u, i)" "ok2" "rq_flusher rq"
        "sql_select_one (own_payment u i) (payments (db t2)) = Some r"
      by blast
    then have r1: "sql_select_one (own_payment u i) (payments (db t1)) = Some r"
      using same_view_own [OF same(2)] by simp
    then have "r \<in> set (payments (db s1))" "pr_user_id r = u"
      using sql_select_one_SomeD [OF r1] ask_eqD [OF ok1] by (simp_all add: own_payment_def)
    with open_stream_same [of t1 t2 env r acts1 acts2 missed1 missed2] assms(2,3,5) same(3,4) r r1 ok1 ok2 same(1)
    show ?thesis by (simp add: streamEvents_def)
  next
    case False
    with ok1 ok2 same(1) same_view_own [OF same(2)] assms(4) show ?thesis
      by (auto simp: streamEvents_def caller_and_id_def split: option.splits sum.splits)
  qed
qed

lemma fst_answer: "fst (answer p) = Answer (fst p)"
  by (simp add: answer_def split: prod.splits)

lemma getPayment_same_view:
  assumes "same_view u s1 s2" and "uuid_parse env (Get (rq_headers rq) ''X-User-Id'') = Some u"
  shows "fst (getPayment env rq t s1) = fst (getPayment env rq t s2)"
proof -
  obtain ok1 t1 where ok1: "ask (db_read env) s1 = (ok1, t1)" by fastforce
  obtain ok2 t2 where ok2: "ask (db_read env) s2 = (ok2, t2)" by fastforce
  from same_view_ask [OF assms(1) ok1 ok2] have same: "ok1 = ok2" "same_view u t1 t2" by simp_all
  moreover have "merchants (db t1) = merchants (db t2)"
    using same(2) by (simp add: same_view_def)
  ultimately show ?thesis
    using ok1 ok2 assms(2) same_view_own [OF same(2)]
    by (simp add: getPayment_def caller_and_id_def split: option.splits)
qed

text \<open>
  C22. What a user reads does not depend on other users' payments: on two services that differ
  in those (and in what is published for them) every reading request of the user gets the same
  answer, event streams included. So neither the content nor the existence of another's payment
  shows.
\<close>

theorem other_users_payments_are_invisible:
  assumes "Middleware jwt_parse (url_path rq) (rq_headers rq) = Inr h"
    and "uuid_parse env (Get h ''X-User-Id'') = Some u" and "reading (route_of rq)"
    and "same_view u s1 s2" and "bus_ok (bus s1)" and "bus_ok (bus s2)"
    and "\<And>r. r \<in> set (payments (db s1)) \<Longrightarrow> pr_user_id r = u \<Longrightarrow>
      seen_by (uuid_str env (pr_id r)) acts1 = seen_by (uuid_str env (pr_id r)) acts2"
  shows "fst (serve jwt_parse env sv missed1 acts1 rq s1) = fst (serve jwt_parse env sv missed2 acts2 rq s2)"
proof -
  let ?rq = "rq\<lparr>rq_headers := h\<rparr>"
  have route: "route_of ?rq = route_of rq" by (simp add: route_of_def)
  have u: "uuid_parse env (Get (rq_headers ?rq) ''X-User-Id'') = Some u" using assms(2) by simp
  have "fst (Handler env sv missed1 acts1 ?rq s1) = fst (Handler env sv missed2 acts2 ?rq s2)"
  proof (cases "route_of rq")
    case (GetPayment t)
    with getPayment_same_view [OF assms(4) u, of t] show ?thesis
      by (simp add: Handler_def route fst_answer)
  next
    case (StreamEvents t)
    with streamEvents_same [OF assms(4-6) u assms(7)] show ?thesis
      by (simp add: Handler_def route)
  next
    case Reconciliation
    with assms(4) show ?thesis
      by (simp add: Handler_def route reconciliation_def Snapshot_def same_view_def)
  next
    case Ready
    have "fst (ready env s1) = fst (ready env s2)"
      using assms(4) by (simp add: ready_def ask_def same_view_def split: prod.splits)
    with Ready show ?thesis by (simp add: Handler_def route fst_answer)
  next
    case ListInstruments
    have "fst (listInstruments env s1) = fst (listInstruments env s2)"
      using assms(4) by (simp add: listInstruments_def ask_def same_view_def split: prod.splits)
    with ListInstruments show ?thesis by (simp add: Handler_def route fst_answer)
  next
    case ListMerchants
    have "fst (listMerchants env s1) = fst (listMerchants env s2)"
      using assms(4) by (simp add: listMerchants_def ask_def same_view_def split: prod.splits)
    with ListMerchants show ?thesis by (simp add: Handler_def route fst_answer)
  qed (use assms(3) in \<open>simp_all add: Handler_def route\<close>)
  with assms(1) show ?thesis by (simp add: serve_def)
qed

definition demo_get :: request where
  "demo_get = demo_watch\<lparr>rq_segments := [''payments'', ''pay''], rq_headers := demo_headers\<rparr>"

definition foreign_row :: payment_row where
  "foreign_row = (demo_row Succeeded Done)\<lparr>pr_id := 1, pr_user_id := 9\<rparr>"

theorem other_users_payments_are_invisible_witness:
  "fst (serve demo_jwt demo_server_env demo_server [] [] demo_get (demo_sys [foreign_row] 0))
     = fst (serve demo_jwt demo_server_env demo_server [] [] demo_get (demo_sys [] 0))"
proof -
  have path: "url_path demo_get = ''/payments/pay''" "rq_headers demo_get = demo_headers"
    by (simp_all add: demo_get_def url_path_def)
  have "Middleware demo_jwt (url_path demo_get) (rq_headers demo_get) = Inr (identify demo_claims ''u1'' demo_headers)"
    unfolding path
    by (simp add: Middleware_def demo_jwt_def demo_headers_def assertionHeader_def Get_def GetSubject_def demo_claims_def)
  moreover have "uuid_parse demo_server_env (Get (identify demo_claims ''u1'' demo_headers) ''X-User-Id'') = Some 2"
    by (simp add: identify_Get demo_server_env_def demo_parse_def)
  moreover have "reading (route_of demo_get)"
    by (simp add: route_of_def route_def demo_get_def demo_watch_def Let_def)
  moreover have "same_view 2 (demo_sys [foreign_row] 0) (demo_sys [] 0)"
    by (simp add: same_view_def demo_sys_def foreign_row_def)
  ultimately show ?thesis
    by (rule other_users_payments_are_invisible [OF _ _ _ _ demo_bus demo_bus]) simp
qed

end
