(* ===== verification/Validate.thy ===== *)
theory Validate
  imports Events
begin

section \<open>Validation against the registered schema\<close>

text \<open>
  \<open>internal/events/validate.go\<close>: the schema a frame names is fetched from the registry, compiled
  and cached; the text of the message is then validated against it. What matters to the caller is
  the class of the error: \<open>SchemaInvalid\<close> and \<open>UnknownSchema\<close> condemn the message, while
  \<open>RegistryUnavailable\<close> says nothing about it. The JSON Schema library is in the environment.
\<close>

definition ids_url :: "'w env \<Rightarrow> int \<Rightarrow> string" where
  "ids_url env i = registry_base env @ ''/schemas/ids/'' @ show_int i"

definition resource_name :: "int \<Rightarrow> string" where
  "resource_name i = ''registry-'' @ show_int i @ ''.json''"

text \<open>The schema in the registry's answer, compiled.\<close>

definition compile_schema :: "'w env \<Rightarrow> int \<Rightarrow> string \<Rightarrow> 'w sys \<Rightarrow> (go_error + string) \<times> 'w sys" where
  "compile_schema env i text s =
     (case js_document env text of
        Some e \<Rightarrow> (Inl (SchemaInvalid (''registry returned unparseable schema: '' @ e)), s)
      | None \<Rightarrow>
          (case js_add env (resource_name i) text of
             Some e \<Rightarrow> (Inl (SchemaInvalid e), s)
           | None \<Rightarrow>
               (case ask (js_compile env (resource_name i) text) s of
                  (Some e, s1) \<Rightarrow> (Inl (SchemaInvalid e), s1)
                | (None, s1) \<Rightarrow> (Inr text, s1\<lparr>schemas := (schemas s1)(i \<mapsto> text)\<rparr>))))"

definition schema :: "'w env \<Rightarrow> int \<Rightarrow> 'w sys \<Rightarrow> (go_error + string) \<times> 'w sys" where
  "schema env i s =
     (case schemas s i of
        Some text \<Rightarrow> (Inr text, s)
      | None \<Rightarrow>
          (case ask (http_get env (ids_url env i)) s of
             (GetBadURL e, s1) \<Rightarrow> (Inl (RegistryUnavailable e), s1)
           | (GetFailed e, s1) \<Rightarrow> (Inl (RegistryUnavailable e), s1)
           | (GetReply code body, s1) \<Rightarrow>
               (if code = 404 then (Inl (UnknownSchema (''id '' @ show_int i)), s1)
                else if code \<noteq> 200 then
                  (Inl (RegistryUnavailable (''registry answered '' @ show_int code)), s1)
                else
                  (case Option.bind (Decode body) (decode_struct [(''schema'', decode_string)] []) of
                     None \<Rightarrow> (Inl (RegistryUnavailable (sprint_error env JsonError)), s1)
                   | Some text \<Rightarrow> compile_schema env i text s1))))"

definition Validate :: "'w env \<Rightarrow> string \<Rightarrow> 'w sys \<Rightarrow> go_error option \<times> 'w sys" where
  "Validate env value s =
     (if \<not> framed value then (Some (SchemaInvalid ''not a confluent-framed message''), s)
      else
        (case schema env (get_int32 (drop 1 value)) s of
           (Inl e, s1) \<Rightarrow> (Some e, s1)
         | (Inr text, s1) \<Rightarrow>
             (case js_document env (drop 5 value) of
                Some e \<Rightarrow> (Some (SchemaInvalid (''envelope parse: '' @ e)), s1)
              | None \<Rightarrow>
                  (case js_validate env text (drop 5 value) of
                     Some e \<Rightarrow> (Some (SchemaInvalid e), s1)
                   | None \<Rightarrow> (None, s1)))))"

fun is_registry_unavailable :: "go_error \<Rightarrow> bool" where
  "is_registry_unavailable (RegistryUnavailable _) = True"
| "is_registry_unavailable (Wrapped _ e) = is_registry_unavailable e"
| "is_registry_unavailable _ = False"

subsection \<open>Effects\<close>

lemma compile_schema_effect:
  assumes "compile_schema env i doc s = (r, s')"
  shows "untouched s s' \<and> schema_ids s' = schema_ids s
    \<and> schemas s' = (case r of Inl _ \<Rightarrow> schemas s | Inr t \<Rightarrow> (schemas s)(i \<mapsto> t))"
    and "(\<exists>e. r = Inl (SchemaInvalid e)) \<or> r = Inr doc"
proof -
  obtain a t where t: "ask (js_compile env (resource_name i) doc) s = (a, t)" by fastforce
  show "untouched s s' \<and> schema_ids s' = schema_ids s
      \<and> schemas s' = (case r of Inl _ \<Rightarrow> schemas s | Inr t \<Rightarrow> (schemas s)(i \<mapsto> t))"
    "(\<exists>e. r = Inl (SchemaInvalid e)) \<or> r = Inr doc"
    using assms t ask_untouched [OF t]
    by (cases "js_document env doc"; cases "js_add env (resource_name i) doc"; cases a;
        auto simp: compile_schema_def)+
qed

text \<open>What an answer of the registry makes of the fetch.\<close>

lemma schema_cases:
  assumes "schema env i s = (r, s')"
  obtains (cached) doc where "schemas s i = Some doc" "r = Inr doc" "s' = s"
    | (outage) e a where "schemas s i = None" "ask (http_get env (ids_url env i)) s = (a, s')"
        "r = Inl (RegistryUnavailable e)"
    | (unknown) body where "schemas s i = None" "ask (http_get env (ids_url env i)) s = (GetReply 404 body, s')"
        "r = Inl (UnknownSchema (''id '' @ show_int i))"
    | (answered) body s1 doc where "schemas s i = None"
        "ask (http_get env (ids_url env i)) s = (GetReply 200 body, s1)"
        "Option.bind (Decode body) (decode_struct [(''schema'', decode_string)] []) = Some doc"
        "compile_schema env i doc s1 = (r, s')"
proof -
  obtain a s1 where a: "ask (http_get env (ids_url env i)) s = (a, s1)" by fastforce
  show thesis
  proof (cases "schemas s i")
    case None
    show thesis
    proof (cases a)
      case (GetReply code body)
      show thesis
      proof (cases "code = 200")
        case True
        show thesis
        proof (cases "Option.bind (Decode body) (decode_struct [(''schema'', decode_string)] [])")
          case (Some doc)
          with True None a GetReply assms show thesis
            by (intro answered [of body s1 doc]) (auto simp: schema_def)
        qed (use True None a GetReply assms in \<open>auto simp: schema_def intro: outage\<close>)
      next
        case False
        with None a GetReply assms show thesis
          by (cases "code = 404") (auto simp: schema_def intro: outage unknown)
      qed
    qed (use None a assms in \<open>auto simp: schema_def intro: outage\<close>)
  qed (use assms in \<open>auto simp: schema_def intro: cached\<close>)
qed

lemma schema_effect:
  assumes "schema env i s = (r, s')"
  shows "untouched s s' \<and> schema_ids s' = schema_ids s
    \<and> schemas s' = (case r of Inl _ \<Rightarrow> schemas s | Inr t \<Rightarrow> (schemas s)(i \<mapsto> t))"
  using assms
proof (cases rule: schema_cases)
  case (answered body s1 doc)
  from compile_schema_effect(1) [OF answered(4)] ask_untouched [OF answered(2)] show ?thesis
    by (auto elim: untouched_trans split: sum.splits)
qed (auto simp: fun_upd_idem dest!: ask_untouched)

lemma Validate_effect:
  assumes "Validate env value s = (e, s')"
  shows "untouched s s'" and "schema_ids s' = schema_ids s"
proof -
  obtain r t where r: "schema env (get_int32 (drop 1 value)) s = (r, t)" by fastforce
  show "untouched s s'" "schema_ids s' = schema_ids s"
    using assms r schema_effect [OF r]
    by (cases r; auto simp: Validate_def split: if_splits option.splits)+
qed

text \<open>A message that passes is framed and its text satisfies the schema its frame names.\<close>

lemma Validate_passes:
  assumes "Validate env value s = (None, s')"
  shows "framed value" and "\<exists>text. schemas s' (get_int32 (drop 1 value)) = Some text
    \<and> js_validate env text (drop 5 value) = None"
proof -
  show "framed value"
    using assms by (auto simp: Validate_def split: if_splits)
  obtain r t where r: "schema env (get_int32 (drop 1 value)) s = (r, t)" by fastforce
  with assms \<open>framed value\<close> obtain doc where "r = Inr doc" "t = s'"
    "js_validate env doc (drop 5 value) = None"
    by (cases r) (auto simp: Validate_def split: option.splits)
  moreover from this have "schemas t (get_int32 (drop 1 value)) = Some doc"
    using schema_effect [OF r] by simp
  ultimately show "\<exists>text. schemas s' (get_int32 (drop 1 value)) = Some text
      \<and> js_validate env text (drop 5 value) = None"
    by blast
qed

text \<open>
  The class of the error: only an unavailable registry, or none at all, leaves the message open;
  the schema is unknown only if the registry itself says so, and everything else about the fetch
  is an outage.
\<close>

definition registry_answers :: "'w env \<Rightarrow> int \<Rightarrow> 'w sys \<Rightarrow> bool" where
  "registry_answers env i s \<longleftrightarrow> schemas s i \<noteq> None \<or>
     (case fst (ask (http_get env (ids_url env i)) s) of
        GetReply code body \<Rightarrow> code = 404 \<or>
          (code = 200 \<and> Option.bind (Decode body) (decode_struct [(''schema'', decode_string)] []) \<noteq> None)
      | _ \<Rightarrow> False)"

lemma schema_unavailable_iff:
  assumes "schema env i s = (r, s')"
  shows "(\<exists>e. r = Inl (RegistryUnavailable e)) \<longleftrightarrow> \<not> registry_answers env i s"
proof -
  obtain a s1 where a: "ask (http_get env (ids_url env i)) s = (a, s1)" by fastforce
  show ?thesis
  proof (cases "schemas s i")
    case None
    show ?thesis
    proof (cases a)
      case (GetReply code body)
      with None a assms compile_schema_effect(2) [of env i _ s1 r s'] show ?thesis
        by (auto simp: schema_def registry_answers_def split: if_splits option.splits)
    qed (use None a assms in \<open>auto simp: schema_def registry_answers_def\<close>)
  qed (use assms in \<open>auto simp: schema_def registry_answers_def\<close>)
qed

lemma schema_error_not_wrapped:
  "schema env i s = (Inl e, s') \<Longrightarrow>
     (\<exists>t. e = RegistryUnavailable t) \<or> (\<exists>t. e = UnknownSchema t) \<or> (\<exists>t. e = SchemaInvalid t)"
  by (erule schema_cases) (auto dest: compile_schema_effect(2))

lemma Validate_unavailable_iff:
  assumes "Validate env value s = (e, s')"
  shows "(\<exists>x. e = Some x \<and> is_registry_unavailable x) \<longleftrightarrow>
    framed value \<and> \<not> registry_answers env (get_int32 (drop 1 value)) s"
proof (cases "framed value")
  case True
  obtain r t where r: "schema env (get_int32 (drop 1 value)) s = (r, t)" by fastforce
  show ?thesis
  proof (cases r)
    case (Inl x)
    with True assms r have "e = Some x" by (simp add: Validate_def)
    moreover have "is_registry_unavailable x \<longleftrightarrow> (\<exists>t. x = RegistryUnavailable t)"
      using schema_error_not_wrapped [OF r [unfolded Inl]] by auto
    ultimately show ?thesis
      using Inl schema_unavailable_iff [OF r] True by simp
  next
    case (Inr doc)
    with True assms r schema_unavailable_iff [OF r] show ?thesis
      by (auto simp: Validate_def split: option.splits)
  qed
qed (use assms in \<open>auto simp: Validate_def\<close>)

end
