(* ===== verification/Relay.thy ===== *)
theory Relay
  imports Events Store
begin

section \<open>The outbox relay\<close>

text \<open>
  \<open>Relay.drainOnce\<close> of \<open>internal/outbox/outbox.go\<close>: in one transaction, the first fifty
  unprocessed rows are published one by one and then marked. \<open>locked\<close> are the rows another
  replica's transaction holds (\<open>for update skip locked\<close>). The payload column holds what
  \<open>Writer.Write\<close> stored: an object of strings, integers and nulls. Decoding it into
  \<open>map[string]any\<close> makes every number a \<open>float64\<close>, which is how it is printed again.
\<close>

subsection \<open>Numbers as \<open>float64\<close>\<close>

text \<open>Below \<open>2^64\<close>: the nearest number of 53 significant bits, ties to even.\<close>

fun float_exp :: "nat \<Rightarrow> nat" where
  "float_exp n = (if n < 2 ^ 53 then 0 else Suc (float_exp (n div 2)))"

declare float_exp.simps [simp del]

definition half_even :: "nat \<Rightarrow> nat \<Rightarrow> nat" where
  "half_even n d =
     (let q = n div d; r = n mod d
      in if 2 * r < d \<or> (2 * r = d \<and> even q) then q else q + 1)"

definition round53 :: "nat \<Rightarrow> nat" where
  "round53 n = half_even n (2 ^ float_exp n) * 2 ^ float_exp n"

text \<open>
  \<open>strconv.FormatFloat\<close> with the fewest digits that read back as the same number: the nearest
  multiple of the largest power of ten for which this holds. (No two multiples are equally near
  there: half the distance would have to be a multiple of the float's unit.)
\<close>

definition shortest :: "nat \<Rightarrow> nat" where
  "shortest v =
     (case find (\<lambda>j. round53 (half_even v (10 ^ j) * 10 ^ j) = v) (rev [0 ..< 20]) of
        Some j \<Rightarrow> half_even v (10 ^ j) * 10 ^ j
      | None \<Rightarrow> v)"

definition json_number :: "int \<Rightarrow> int" where
  "json_number i = sgn i * int (shortest (round53 (nat \<bar>i\<bar>)))"

subsection \<open>The payload\<close>

fun relay_value :: "json \<Rightarrow> gvalue" where
  "relay_value JNull = GNull"
| "relay_value (JString s) = GStr s"
| "relay_value (JInt i) = GInt (json_number i)"

definition relay_payload :: "payload \<Rightarrow> gmap" where
  "relay_payload p = Some (fold (\<lambda>(k, v). map_put k (relay_value v)) p [])"

subsection \<open>Draining\<close>

definition drain_limit :: nat where
  "drain_limit = 50"

definition drain_batch :: "uuid set \<Rightarrow> database \<Rightarrow> outbox_row list" where
  "drain_batch locked d =
     take drain_limit (sort_key ob_id
       (filter (\<lambda>r. ob_processed_at r = None \<and> ob_id r \<notin> locked) (outbox d)))"

definition envelope_of :: "'w env \<Rightarrow> outbox_row \<Rightarrow> envelope" where
  "envelope_of env r =
     NewEnvelope (uuid_str env (ob_id r)) (ob_type r) (uuid_str env (ob_id r)) (ob_created_at r)
       (relay_payload (ob_payload r))"

definition record_of :: "outbox_row \<Rightarrow> string \<Rightarrow> kafka_record" where
  "record_of r value =
     \<lparr>kr_topic = ob_type r, kr_key = ob_aggregateid r, kr_value = value, kr_headers = [],
      kr_partition = 0, kr_offset = 0\<rparr>"

definition ProduceSync :: "'w env \<Rightarrow> kafka_record \<Rightarrow> 'w sys \<Rightarrow> string option \<times> 'w sys" where
  "ProduceSync env rec s =
     (case ask (produce_sync env rec) s of
        (None, s1) \<Rightarrow> (None, s1\<lparr>produced := produced s1 @ [rec]\<rparr>)
      | (Some e, s1) \<Rightarrow> (Some e, s1))"

definition publish_row :: "'w env \<Rightarrow> outbox_row \<Rightarrow> 'w sys \<Rightarrow> go_error option \<times> 'w sys" where
  "publish_row env r s =
     (case SchemaID env (ob_type r) s of
        (Inl e, s1) \<Rightarrow> (Some e, s1)
      | (Inr i, s1) \<Rightarrow>
          (case Frame i (envelope_of env r) of
             Inl e \<Rightarrow> (Some e, s1)
           | Inr value \<Rightarrow>
               (case ProduceSync env (record_of r value) s1 of
                  (None, s2) \<Rightarrow> (None, s2)
                | (Some e, s2) \<Rightarrow> (Some (Wrapped (''produce '' @ ob_type r) (PlainError e)), s2))))"

fun publish_all :: "'w env \<Rightarrow> outbox_row list \<Rightarrow> 'w sys \<Rightarrow> go_error option \<times> 'w sys" where
  "publish_all env [] s = (None, s)"
| "publish_all env (r # rs) s =
     (case publish_row env r s of
        (None, s1) \<Rightarrow> publish_all env rs s1
      | (Some e, s1) \<Rightarrow> (Some e, s1))"

definition mark_processed :: "time \<Rightarrow> uuid list \<Rightarrow> database \<Rightarrow> database" where
  "mark_processed now ids d =
     d\<lparr>outbox := map (\<lambda>r. if ob_id r \<in> set ids then r\<lparr>ob_processed_at := Some now\<rparr> else r) (outbox d)\<rparr>"

definition drain_body :: "'w env \<Rightarrow> uuid set \<Rightarrow> 'w sys \<Rightarrow> go_error option \<times> 'w sys" where
  "drain_body env locked s =
     (case ask (db_read env) s of (ok, s1) \<Rightarrow>
        (if \<not> ok then (Some DbError, s1)
         else
           (let batch = drain_batch locked (db s1)
            in if batch = [] then (None, s1)
               else
                 (case publish_all env batch s1 of
                    (Some e, s2) \<Rightarrow> (Some e, s2)
                  | (None, s2) \<Rightarrow>
                      (None, s2\<lparr>db := mark_processed (clock env (world s)) (map ob_id batch) (db s2)\<rparr>)))))"

definition drainOnce :: "'w env \<Rightarrow> uuid set \<Rightarrow> 'w sys \<Rightarrow> (go_error + nat) \<times> 'w sys" where
  "drainOnce env locked s =
     (case begin_func env (drain_body env locked) s of
        (Some e, s1) \<Rightarrow> (Inl e, s1)
      | (None, s1) \<Rightarrow> (Inr (length (drain_batch locked (db s))), s1))"

subsection \<open>Integers that a \<open>float64\<close> keeps\<close>

lemma half_even_1 [simp]: "half_even n (Suc 0) = n"
  by (simp add: half_even_def Let_def)

lemma half_even_ge: "n div d \<le> half_even n d"
  by (simp add: half_even_def Let_def)

lemma round53_small: "n < 2 ^ 53 \<Longrightarrow> round53 n = n"
  by (simp add: round53_def float_exp.simps [of n])

lemma float_exp_bound: "2 ^ 53 \<le> n \<Longrightarrow> 2 ^ 52 * 2 ^ float_exp n \<le> n \<and> 0 < float_exp n"
proof (induction n rule: float_exp.induct)
  case (1 n)
  show ?case
  proof (cases "n div 2 < 2 ^ 53")
    case True
    with 1(2) show ?thesis
      by (simp add: float_exp.simps [of n] float_exp.simps [of "n div 2"])
  next
    case False
    with 1 have "2 ^ 52 * 2 ^ float_exp (n div 2) \<le> n div 2" by simp
    with 1(2) show ?thesis by (simp add: float_exp.simps [of n])
  qed
qed

lemma round53_large: "2 ^ 53 \<le> n \<Longrightarrow> 2 ^ 53 \<le> round53 n"
proof -
  assume n: "2 ^ 53 \<le> n"
  let ?p = "2 ^ float_exp n :: nat"
  note bound = float_exp_bound [OF n]
  have "2 ^ 52 \<le> n div ?p"
    using bound by (simp add: less_eq_div_iff_mult_less_eq)
  then have "2 ^ 52 \<le> half_even n ?p"
    using half_even_ge le_trans by blast
  moreover have "2 \<le> ?p"
    using bound by (cases "float_exp n") simp_all
  ultimately have "2 ^ 52 * 2 \<le> round53 n"
    unfolding round53_def by (intro mult_le_mono)
  then show ?thesis by simp
qed

lemma round53_inj: "round53 m = n \<Longrightarrow> n < 2 ^ 53 \<Longrightarrow> m = n"
  using round53_large [of m] round53_small [of m] by (cases "m < 2 ^ 53") auto

lemma shortest_small: "n < 2 ^ 53 \<Longrightarrow> shortest n = n"
  by (auto simp: shortest_def find_Some_iff dest: round53_inj split: option.splits)

lemma json_number_small: "\<bar>i\<bar> < 2 ^ 53 \<Longrightarrow> json_number i = i"
proof -
  assume "\<bar>i\<bar> < 2 ^ 53"
  then have "nat \<bar>i\<bar> < 2 ^ 53" by (simp add: nat_less_iff)
  then show ?thesis
    by (simp add: json_number_def round53_small shortest_small mult_sgn_abs)
qed

subsection \<open>What a drain does\<close>

definition published_as :: "'w env \<Rightarrow> outbox_row \<Rightarrow> kafka_record \<Rightarrow> bool" where
  "published_as env r rec \<longleftrightarrow> (\<exists>i value. Frame i (envelope_of env r) = Inr value \<and> rec = record_of r value)"

text \<open>Everything but the records the broker acknowledged, and the caches, stays as it was.\<close>

definition only_produced :: "'w sys \<Rightarrow> kafka_record list \<Rightarrow> 'w sys \<Rightarrow> bool" where
  "only_produced s recs s' \<longleftrightarrow> db s' = db s \<and> bus s' = bus s \<and> spawned s' = spawned s
     \<and> calls s' = calls s \<and> last_snapshot s' = last_snapshot s \<and> produced s' = produced s @ recs"

lemma only_produced_trans:
  "only_produced s xs t \<Longrightarrow> only_produced t ys u \<Longrightarrow> only_produced s (xs @ ys) u"
  by (simp add: only_produced_def)

lemma untouched_only_produced: "untouched s s' \<longleftrightarrow> only_produced s [] s'"
  by (auto simp: untouched_def only_produced_def)

lemma ProduceSync_effect:
  assumes "ProduceSync env rec s = (e, s')"
  shows "only_produced s (if e = None then [rec] else []) s'" and "schema_ids s' = schema_ids s"
proof -
  obtain a t where t: "ask (produce_sync env rec) s = (a, t)" by fastforce
  show "only_produced s (if e = None then [rec] else []) s'" "schema_ids s' = schema_ids s"
    using assms t ask_untouched [OF t]
    by (cases a; auto simp: ProduceSync_def untouched_def only_produced_def)+
qed

lemma publish_row_effect:
  assumes "publish_row env r s = (e, s')"
  shows "\<exists>recs. only_produced s recs s' \<and> (if e = None then \<exists>rec. recs = [rec] \<and> published_as env r rec else recs = [])"
proof -
  obtain a t where t: "SchemaID env (ob_type r) s = (a, t)" by fastforce
  have untouched: "only_produced s [] t"
    using SchemaID_effect [OF t] by (simp add: untouched_only_produced)
  show ?thesis
  proof (cases a)
    case (Inr i)
    show ?thesis
    proof (cases "Frame i (envelope_of env r)")
      case framed: (Inr v)
      obtain b u where u: "ProduceSync env (record_of r v) t = (b, u)" by fastforce
      from only_produced_trans [OF untouched ProduceSync_effect(1) [OF u]]
      have "only_produced s (if b = None then [record_of r v] else []) u" by simp
      moreover have "published_as env r (record_of r v)"
        using framed by (auto simp: published_as_def)
      ultimately show ?thesis
        using assms t Inr framed u by (cases b) (auto simp: publish_row_def)
    qed (use assms t Inr untouched in \<open>auto simp: publish_row_def\<close>)
  qed (use assms t untouched in \<open>auto simp: publish_row_def\<close>)
qed

lemma publish_all_effect:
  assumes "publish_all env rs s = (e, s')"
  shows "\<exists>recs k. only_produced s recs s' \<and> list_all2 (published_as env) (take k rs) recs
    \<and> k \<le> length rs \<and> (e = None \<longrightarrow> k = length rs)"
  using assms
proof (induction rs arbitrary: s)
  case Nil
  then show ?case by (auto simp: only_produced_def)
next
  case (Cons r rs)
  obtain a t where t: "publish_row env r s = (a, t)" by fastforce
  obtain recs where recs: "only_produced s recs t"
    "if a = None then \<exists>rec. recs = [rec] \<and> published_as env r rec else recs = []"
    using publish_row_effect [OF t] by blast
  show ?case
  proof (cases a)
    case None
    with Cons.prems t have "publish_all env rs t = (e, s')" by simp
    then obtain more k where k: "only_produced t more s'" "list_all2 (published_as env) (take k rs) more"
      "k \<le> length rs" "e = None \<longrightarrow> k = length rs"
      using Cons.IH by blast
    from recs(2) None obtain rec where "recs = [rec]" "published_as env r rec" by auto
    with k only_produced_trans [OF recs(1) k(1)] show ?thesis
      by (intro exI [of _ "rec # more"] exI [of _ "Suc k"]) simp
  next
    case (Some x)
    with Cons.prems t recs show ?thesis
      by (intro exI [of _ "[]"] exI [of _ 0]) auto
  qed
qed

lemma drain_batch_cong: "outbox d = outbox d' \<Longrightarrow> drain_batch locked d = drain_batch locked d'"
  by (simp add: drain_batch_def)

lemma drain_body_effect:
  assumes "drain_body env locked s = (e, s')"
  obtains (failed) x recs k where "e = Some x" "only_produced s recs s'"
      "list_all2 (published_as env) (take k (drain_batch locked (db s))) recs"
    | (idle) "e = None" "drain_batch locked (db s) = []" "only_produced s [] s'"
    | (drained) t recs where "e = None" "drain_batch locked (db s) \<noteq> []" "only_produced s recs t"
      "list_all2 (published_as env) (drain_batch locked (db s)) recs"
      "s' = t\<lparr>db := mark_processed (clock env (world s)) (map ob_id (drain_batch locked (db s))) (db s)\<rparr>"
proof -
  obtain ok t where t: "ask (db_read env) s = (ok, t)" by fastforce
  have untouched: "only_produced s [] t"
    using ask_untouched [OF t] by (simp add: untouched_only_produced)
  then have db: "db t = db s" by (simp add: only_produced_def)
  let ?batch = "drain_batch locked (db s)"
  show thesis
  proof (cases "ok \<and> ?batch \<noteq> []")
    case False
    with assms t db untouched show thesis
      by (cases ok) (auto simp: drain_body_def Let_def intro: failed [where x = DbError and recs = "[]" and k = 0] idle)
  next
    case True
    obtain a u where u: "publish_all env ?batch t = (a, u)" by fastforce
    obtain recs k where recs: "only_produced t recs u" "list_all2 (published_as env) (take k ?batch) recs"
      "k \<le> length ?batch" "a = None \<longrightarrow> k = length ?batch"
      using publish_all_effect [OF u] by blast
    have all: "only_produced s recs u"
      using only_produced_trans [OF untouched recs(1)] by simp
    then have dbu: "db u = db s" by (simp add: only_produced_def)
    show thesis
    proof (cases a)
      case None
      with recs have "list_all2 (published_as env) ?batch recs" by simp
      with None assms True t u db dbu all show thesis
        by (intro drained [where t = u and recs = recs]) (auto simp: drain_body_def Let_def)
    next
      case (Some x)
      with assms True t u db all recs(2) show thesis
        by (intro failed [where x = x and recs = recs and k = k]) (auto simp: drain_body_def Let_def)
    qed
  qed
qed

text \<open>
  A drain either fails and marks nothing, has nothing to do, or marks its batch after the broker
  acknowledged a record for each of its rows. A failed drain may have published part of it.
\<close>

lemma drainOnce_effect:
  assumes "drainOnce env locked s = (r, s')"
  obtains (failed) x recs k where "r = Inl x" "only_produced s recs s'"
      "list_all2 (published_as env) (take k (drain_batch locked (db s))) recs"
    | (idle) "r = Inr 0" "drain_batch locked (db s) = []" "only_produced s [] s'"
    | (drained) now recs t where "r = Inr (length (drain_batch locked (db s))) \<or> r = Inl DbError"
      "only_produced s recs t" "list_all2 (published_as env) (drain_batch locked (db s)) recs"
      "s' = t\<lparr>db := mark_processed now (map ob_id (drain_batch locked (db s))) (db s)\<rparr>"
proof -
  obtain oc t where t: "ask (db_commit env) s = (oc, t)" by fastforce
  have untouched: "only_produced s [] t"
    using ask_untouched [OF t] by (simp add: untouched_only_produced)
  then have db: "db t = db s" by (simp add: only_produced_def)
  show thesis
  proof (cases "oc = DbFail")
    case True
    with assms t untouched show thesis
      by (intro failed [where x = DbError and recs = "[]" and k = 0]) (auto simp: drainOnce_def begin_func_def)
  next
    case False
    obtain e u where u: "drain_body env locked t = (e, u)" by fastforce
    from u show thesis
    proof (cases rule: drain_body_effect)
      case (failed x recs k)
      note all = only_produced_trans [OF untouched failed(2)]
      then have "u\<lparr>db := db s\<rparr> = u" by (simp add: only_produced_def)
      with failed all False assms t u db show thesis
        by (intro that(1) [where x = x and recs = recs and k = k]) (auto simp: drainOnce_def begin_func_def)
    next
      case idle
      note all = only_produced_trans [OF untouched idle(3)]
      with idle False assms t u db show thesis
        by (cases oc) (auto simp: drainOnce_def begin_func_def intro: that(1) [where x = DbError and recs = "[]" and k = 0] that(2))
    next
      case (drained v recs)
      note all = only_produced_trans [OF untouched drained(3)]
      with drained False assms t u db show thesis
        by (intro that(3) [where recs = recs and t = v and now = "clock env (world t)"])
          (auto simp: drainOnce_def begin_func_def split: if_splits)
    qed
  qed
qed

text \<open>Only rows of the batch are marked; every other row, and every other table, stays.\<close>

lemma mark_processed_frame [simp]:
  "payments (mark_processed now ids d) = payments d"
  "instruments (mark_processed now ids d) = instruments d"
  "idempotency_keys (mark_processed now ids d) = idempotency_keys d"
  "processed_events (mark_processed now ids d) = processed_events d"
  by (simp_all add: mark_processed_def)

lemma drain_batch_pending: "r \<in> set (drain_batch locked d) \<Longrightarrow>
    r \<in> set (outbox d) \<and> ob_processed_at r = None \<and> ob_id r \<notin> locked"
  by (auto simp: drain_batch_def dest: in_set_takeD)

lemma drain_batch_sorted: "sorted (map ob_id (drain_batch locked d))"
  by (simp add: drain_batch_def take_map [symmetric] sorted_wrt_take)

lemma length_drain_batch: "length (drain_batch locked d) \<le> 50"
  by (simp add: drain_batch_def drain_limit_def)

subsection \<open>Progress and its absence\<close>

fun drains :: "'w env \<Rightarrow> nat \<Rightarrow> 'w sys \<Rightarrow> 'w sys" where
  "drains env 0 s = s"
| "drains env (Suc n) s = drains env n (snd (drainOnce env {} s))"

definition pending :: "database \<Rightarrow> outbox_row list" where
  "pending d = filter (\<lambda>r. ob_processed_at r = None) (outbox d)"

text \<open>Database, broker and registry answer, and every time can be printed.\<close>

definition relay_up :: "'w env \<Rightarrow> bool" where
  "relay_up env \<longleftrightarrow> (\<forall>w. fst (db_commit env w) = DbOk \<and> fst (db_read env w)
     \<and> (\<forall>rec. fst (produce_sync env rec w) = None)
     \<and> (\<forall>url. \<exists>body i. fst (http_get env url w) = GetReply 200 body
          \<and> Option.bind (Decode body) (decode_struct [(''id'', decode_int 32)] 0) = Some i))"

definition printable_times :: "database \<Rightarrow> bool" where
  "printable_times d \<longleftrightarrow> (\<forall>r \<in> set (outbox d). four_digit_year (ob_created_at r))"

lemma SchemaID_up:
  assumes "relay_up env"
  shows "\<exists>i s'. SchemaID env topic s = (Inr i, s')"
proof -
  obtain body i where b: "fst (http_get env (subject_url env topic) (world s)) = GetReply 200 body"
    "Option.bind (Decode body) (decode_struct [(''id'', decode_int 32)] 0) = Some i"
    using assms unfolding relay_up_def by blast
  obtain s1 where "ask (http_get env (subject_url env topic)) s = (GetReply 200 body, s1)"
    using ask_answer [of "http_get env (subject_url env topic)" s, OF b(1)] by blast
  with b(2) show ?thesis
    by (cases "schema_ids s topic") (auto simp: SchemaID_def)
qed

lemma publish_all_up:
  assumes "relay_up env" and "\<forall>r \<in> set rs. four_digit_year (ob_created_at r)"
  shows "fst (publish_all env rs s) = None"
  using assms(2)
proof (induction rs arbitrary: s)
  case (Cons r rs)
  obtain i t where t: "SchemaID env (ob_type r) s = (Inr i, t)"
    using SchemaID_up [OF assms(1)] by blast
  obtain v where v: "Frame i (envelope_of env r) = Inr v"
    using Cons.prems by (auto simp: Frame_def envelope_of_def NewEnvelope_def envelope_zero_def)
  obtain u where "ask (produce_sync env (record_of r v)) t = (None, u)"
    using assms(1) ask_answer [of "produce_sync env (record_of r v)" t None] by (auto simp: relay_up_def)
  then have "\<exists>u. publish_row env r s = (None, u)"
    using t v by (simp add: publish_row_def ProduceSync_def)
  then obtain u where "publish_row env r s = (None, u)" ..
  with Cons show ?case by simp
qed simp

lemma drain_up:
  assumes "relay_up env" and "printable_times (db s)"
  shows "drain_batch {} (db s) = [] \<and> only_produced s [] (snd (drainOnce env {} s))
    \<or> (\<exists>now. db (snd (drainOnce env {} s)) =
        mark_processed now (map ob_id (drain_batch {} (db s))) (db s))"
proof -
  obtain t where t: "ask (db_commit env) s = (DbOk, t)"
    using assms(1) ask_answer [of "db_commit env" s DbOk] by (auto simp: relay_up_def)
  obtain t2 where t2: "ask (db_read env) t = (True, t2)"
    using assms(1) ask_answer [of "db_read env" t True] by (auto simp: relay_up_def)
  have db: "db t = db s" "db t2 = db s"
    using ask_eqD [OF t] ask_eqD [OF t2] by simp_all
  have "\<forall>r \<in> set (drain_batch {} (db s)). four_digit_year (ob_created_at r)"
    using assms(2) drain_batch_pending by (auto simp: printable_times_def)
  then have none: "fst (publish_all env (drain_batch {} (db s)) t2) = None"
    by (rule publish_all_up [OF assms(1)])
  then obtain u where u: "publish_all env (drain_batch {} (db s)) t2 = (None, u)"
    by (cases "publish_all env (drain_batch {} (db s)) t2") simp
  have "db u = db s"
    using publish_all_effect [OF u] db by (auto simp: only_produced_def)
  with t t2 db u ask_untouched [OF t] ask_untouched [OF t2] show ?thesis
    by (auto simp: drainOnce_def begin_func_def drain_body_def Let_def untouched_only_produced
        dest: only_produced_trans)
qed

lemma pending_mark: "pending (mark_processed now ids d) = filter (\<lambda>r. ob_id r \<notin> set ids) (pending d)"
proof -
  have "filter (\<lambda>r. ob_processed_at r = None)
      (map (\<lambda>r. if ob_id r \<in> set ids then r\<lparr>ob_processed_at := Some now\<rparr> else r) rows)
    = filter (\<lambda>r. ob_id r \<notin> set ids) (filter (\<lambda>r. ob_processed_at r = None) rows)" for rows
    by (induction rows) auto
  then show ?thesis
    by (simp add: pending_def mark_processed_def)
qed

lemma pending_drained:
  "length (filter (\<lambda>r. ob_id r \<notin> set (map ob_id (drain_batch {} d))) (pending d)) \<le> length (pending d) - 50"
proof -
  let ?all = "sort_key ob_id (pending d)"
  let ?P = "\<lambda>r. ob_id r \<notin> set (map ob_id (take 50 ?all))"
  have batch: "drain_batch {} d = take 50 ?all"
    by (simp add: drain_batch_def pending_def drain_limit_def)
  have "length (filter ?P (pending d)) = length (filter ?P ?all)"
    by (simp only: filter_sort length_sort)
  also have "\<dots> = length (filter ?P (take 50 ?all) @ filter ?P (drop 50 ?all))"
    by (simp only: filter_append [symmetric] append_take_drop_id)
  also have "filter ?P (take 50 ?all) = []"
    by (auto simp: filter_empty_conv)
  finally show ?thesis
    using length_filter_le [of ?P "drop 50 ?all"] by (simp add: batch)
qed

lemma drains_clear:
  assumes "relay_up env"
  shows "printable_times (db s) \<Longrightarrow> length (pending (db s)) \<le> 50 * n \<Longrightarrow> pending (db (drains env n s)) = []"
proof (induction n arbitrary: s)
  case (Suc n)
  let ?s = "snd (drainOnce env {} s)"
  from drain_up [OF assms Suc.prems(1)] show ?case
  proof (elim disjE exE)
    assume idle: "drain_batch {} (db s) = [] \<and> only_produced s [] ?s"
    then have "pending (db s) = []" and "db ?s = db s"
      by (auto simp: drain_batch_def pending_def drain_limit_def only_produced_def)
        (metis length_0_conv length_sort)
    with Suc show ?thesis by simp
  next
    fix now
    assume db: "db ?s = mark_processed now (map ob_id (drain_batch {} (db s))) (db s)"
    have "length (pending (db ?s)) \<le> 50 * n"
      using pending_drained [of "db s"] Suc.prems(2) by (simp add: db pending_mark)
    moreover have "printable_times (db ?s)"
      using Suc.prems(1) by (auto simp: db printable_times_def mark_processed_def)
    ultimately show ?thesis
      using Suc.IH by simp
  qed
qed simp

text \<open>A topic that is not cached and that the registry gives no id for.\<close>

definition unresolved :: "'w env \<Rightarrow> string \<Rightarrow> 'w sys \<Rightarrow> bool" where
  "unresolved env topic s \<longleftrightarrow> schema_ids s topic = None
     \<and> (\<forall>w. \<forall>body. fst (http_get env (subject_url env topic) w) \<noteq> GetReply 200 body)"

lemma SchemaID_unresolved:
  assumes "unresolved env topic s"
  shows "\<exists>e s'. SchemaID env topic s = (Inl e, s') \<and> unresolved env topic s' \<and> untouched s s'"
proof -
  obtain a t where t: "ask (http_get env (subject_url env topic)) s = (a, t)" by fastforce
  have "\<forall>body. a \<noteq> GetReply 200 body"
    using assms t fst_ask [of "http_get env (subject_url env topic)" s] by (auto simp: unresolved_def)
  with assms t ask_untouched [OF t] show ?thesis
    by (cases a) (auto simp: SchemaID_def unresolved_def)
qed

text \<open>The database and the broker answer; the rows ahead have their schema ids cached.\<close>

definition stores_up :: "'w env \<Rightarrow> bool" where
  "stores_up env \<longleftrightarrow> (\<forall>w. fst (db_commit env w) = DbOk \<and> fst (db_read env w)
     \<and> (\<forall>rec. fst (produce_sync env rec w) = None))"

definition publishable :: "'w sys \<Rightarrow> outbox_row \<Rightarrow> bool" where
  "publishable s r \<longleftrightarrow> schema_ids s (ob_type r) \<noteq> None \<and> four_digit_year (ob_created_at r)"

lemma publish_row_cached:
  assumes "stores_up env" and "publishable s r"
  shows "\<exists>rec s'. publish_row env r s = (None, s') \<and> only_produced s [rec] s' \<and> schema_ids s' = schema_ids s"
proof -
  obtain i where i: "schema_ids s (ob_type r) = Some i"
    using assms(2) by (auto simp: publishable_def)
  obtain v where v: "Frame i (envelope_of env r) = Inr v"
    using assms(2) by (auto simp: publishable_def Frame_def envelope_of_def NewEnvelope_def envelope_zero_def)
  obtain u where "ask (produce_sync env (record_of r v)) s = (None, u)"
    using assms(1) ask_answer [of "produce_sync env (record_of r v)" s None] by (auto simp: stores_up_def)
  then have p: "ProduceSync env (record_of r v) s = (None, u\<lparr>produced := produced u @ [record_of r v]\<rparr>)"
    by (simp add: ProduceSync_def)
  then show ?thesis
    using i v ProduceSync_effect [OF p] by (auto simp: publish_row_def SchemaID_cached)
qed

lemma publish_all_stops:
  assumes "stores_up env" and "\<forall>r \<in> set rs. publishable s r" and "unresolved env (ob_type x) s"
  shows "\<exists>e recs s'. publish_all env (rs @ x # ys) s = (Some e, s') \<and> only_produced s recs s'
    \<and> length recs = length rs \<and> schema_ids s' = schema_ids s"
  using assms(2,3)
proof (induction rs arbitrary: s)
  case Nil
  obtain e t where t: "SchemaID env (ob_type x) s = (Inl e, t)" "untouched s t"
    using SchemaID_unresolved [OF Nil(2)] by blast
  then show ?case
    using SchemaID_effect [OF t(1)] by (auto simp: publish_row_def untouched_only_produced)
next
  case (Cons r rs)
  obtain rec t where t: "publish_row env r s = (None, t)" "only_produced s [rec] t" "schema_ids t = schema_ids s"
    using publish_row_cached [OF assms(1)] Cons.prems(1) by fastforce
  with Cons.prems have "\<forall>r \<in> set rs. publishable t r" "unresolved env (ob_type x) t"
    by (simp_all add: publishable_def unresolved_def)
  from Cons.IH [OF this] obtain e recs u where "publish_all env (rs @ x # ys) t = (Some e, u)"
    "only_produced t recs u" "length recs = length rs" "schema_ids u = schema_ids t"
    by blast
  with t only_produced_trans [OF t(2) this(2)] show ?case by auto
qed

text \<open>A row whose topic has no schema stops its batch; what is ahead of it is published again and again.\<close>

lemma drain_stops:
  assumes "stores_up env" and "drain_batch {} (db s) = rs @ x # ys"
    and "\<forall>r \<in> set rs. publishable s r" and "unresolved env (ob_type x) s"
  shows "\<exists>e recs s'. drainOnce env {} s = (Inl e, s') \<and> only_produced s recs s'
    \<and> length recs = length rs \<and> schema_ids s' = schema_ids s"
proof -
  obtain t where t: "ask (db_commit env) s = (DbOk, t)"
    using assms(1) ask_answer [of "db_commit env" s DbOk] by (auto simp: stores_up_def)
  obtain t2 where t2: "ask (db_read env) t = (True, t2)"
    using assms(1) ask_answer [of "db_read env" t True] by (auto simp: stores_up_def)
  have untouched: "only_produced s [] t2" "schema_ids t2 = schema_ids s" "db t = db s"
    using ask_untouched [OF t] ask_untouched [OF t2] by (auto simp: untouched_def only_produced_def)
  then have "\<forall>r \<in> set rs. publishable t2 r" "unresolved env (ob_type x) t2"
    using assms(3,4) by (simp_all add: publishable_def unresolved_def)
  from publish_all_stops [OF assms(1) this] obtain e recs u where
    u: "publish_all env (rs @ x # ys) t2 = (Some e, u)" "only_produced t2 recs u"
      "length recs = length rs" "schema_ids u = schema_ids t2" by blast
  have all: "only_produced s recs u"
    using only_produced_trans [OF untouched(1) u(2)] by simp
  then have "drainOnce env {} s = (Inl e, u)"
    using t t2 u(1) untouched assms(2)
    by (simp add: drainOnce_def begin_func_def drain_body_def Let_def only_produced_def)
  with all u untouched show ?thesis by auto
qed

lemma drains_stop:
  assumes "stores_up env"
  shows "drain_batch {} (db s) = rs @ x # ys \<Longrightarrow> \<forall>r \<in> set rs. publishable s r \<Longrightarrow>
    unresolved env (ob_type x) s \<Longrightarrow>
    db (drains env n s) = db s \<and> length (produced (drains env n s)) = length (produced s) + n * length rs"
proof (induction n arbitrary: s)
  case (Suc n)
  obtain e recs t where t: "drainOnce env {} s = (Inl e, t)" "only_produced s recs t"
    "length recs = length rs" "schema_ids t = schema_ids s"
    using drain_stops [OF assms Suc.prems] by blast
  then have "db t = db s" "length (produced t) = length (produced s) + length rs"
    by (simp_all add: only_produced_def)
  moreover have "\<forall>r \<in> set rs. publishable t r" "unresolved env (ob_type x) t"
    using Suc.prems t(4) by (simp_all add: publishable_def unresolved_def)
  ultimately show ?case
    using Suc.IH [of t] Suc.prems(1) t(1) by simp
qed simp

subsection \<open>A relayed row reads back\<close>

text \<open>The values as they were stored, and the rows the wire format can carry exactly.\<close>

fun exact_value :: "json \<Rightarrow> gvalue" where
  "exact_value JNull = GNull"
| "exact_value (JString s) = GStr s"
| "exact_value (JInt i) = GInt i"

fun value_ok :: "json \<Rightarrow> bool" where
  "value_ok (JString s) = utf8_ok s"
| "value_ok (JInt i) = (\<bar>i\<bar> < 2 ^ 53)"
| "value_ok JNull = True"

definition outbox_row_ok :: "'w env \<Rightarrow> outbox_row \<Rightarrow> bool" where
  "outbox_row_ok env r \<longleftrightarrow> uuid_str env (ob_id r) \<noteq> [] \<and> utf8_ok (uuid_str env (ob_id r))
     \<and> ob_type r \<noteq> [] \<and> utf8_ok (ob_type r) \<and> four_digit_year (ob_created_at r)
     \<and> (\<forall>(k, v) \<in> set (ob_payload r). utf8_ok k \<and> value_ok v)"

lemma relay_value_exact: "value_ok v \<Longrightarrow> relay_value v = exact_value v"
  by (cases v) (simp_all add: json_number_small)

lemma exact_value_fits: "value_ok v \<Longrightarrow> printable d (exact_value v) \<and> canonical (exact_value v)"
  by (cases v) (auto intro: canonical_GInt)

lemma map_put_fits:
  assumes "printable_map d ms \<and> canonical_map ms" and "utf8_ok k" and "printable d v" and "canonical v"
  shows "printable_map d (map_put k v ms) \<and> canonical_map (map_put k v ms)"
  using assms by (induction k v ms rule: map_put.induct) auto

lemma fold_map_put_fits:
  "\<forall>(k, v) \<in> set p. utf8_ok k \<and> value_ok v \<Longrightarrow>
     printable_map d ms \<and> canonical_map ms \<and> sorted_wrt (<) (map fst ms) \<Longrightarrow>
     printable_map d (fold (\<lambda>(k, v). map_put k (relay_value v)) p ms)
     \<and> canonical_map (fold (\<lambda>(k, v). map_put k (relay_value v)) p ms)
     \<and> sorted_wrt (<) (map fst (fold (\<lambda>(k, v). map_put k (relay_value v)) p ms))"
proof (induction p arbitrary: ms)
  case (Cons kv p)
  obtain k v where kv: "kv = (k, v)" by fastforce
  with Cons.prems(1) have "utf8_ok k" "value_ok v" by simp_all
  with map_put_fits [of d ms k "relay_value v"] sorted_map_put [of ms k "relay_value v"] Cons.prems(2)
  have "printable_map d (map_put k (relay_value v) ms) \<and> canonical_map (map_put k (relay_value v) ms)
      \<and> sorted_wrt (<) (map fst (map_put k (relay_value v) ms))"
    by (simp add: relay_value_exact exact_value_fits)
  with Cons kv show ?case by simp
qed simp

lemma map_of_relay_payload:
  assumes "\<forall>(k, v) \<in> set p. utf8_ok k \<and> value_ok v"
  shows "map_of (fold (\<lambda>(k, v). map_put k (relay_value v)) p ms) j =
    (case map_of (rev p) j of None \<Rightarrow> map_of ms j | Some v \<Rightarrow> Some (exact_value v))"
  using assms
proof (induction p arbitrary: ms)
  case (Cons kv p)
  obtain k v where kv: "kv = (k, v)" by fastforce
  with Cons show ?case
    by (auto simp: map_of_map_put relay_value_exact map_add_def split: option.splits)
qed simp

lemma envelope_of_ok:
  assumes "outbox_row_ok env r"
  shows "envelope_ok (envelope_of env r)"
proof -
  have "utf8_ok ''peikon''"
    by (rule utf8_ok_ascii) (simp add: byte_def)
  moreover have "payload_ok (relay_payload (ob_payload r))"
    using fold_map_put_fits [of "ob_payload r" 9998 "[]"] assms
    by (simp add: payload_ok_def relay_payload_def outbox_row_ok_def maxNestingDepth_def)
  ultimately show ?thesis
    using assms
    by (simp add: envelope_ok_def envelope_of_def NewEnvelope_def envelope_zero_def outbox_row_ok_def text_ok_def)
qed

end
