(* ===== verification/Consumer.thy ===== *)
theory Consumer
  imports Validate Relay Sweeps
begin

section \<open>The completion consumer\<close>

text \<open>
  \<open>internal/consumer/consumer.go\<close>: a record of the completion topic is validated, read and handed
  to the saga engine once, then its event id is marked processed; what can never succeed goes to
  the dead-letter topic at once, what failed three times as well. A registry outage holds the
  record inside the handler. That loop may run for ever: it carries a bound on its rounds, and
  \<open>None\<close> says that it is still waiting. A panic of the engine ends the process (\<open>Crashed\<close>).
\<close>

definition group :: string where
  "group = ''payment-service''"

definition topicComplete :: string where
  "topicComplete = ''gateway.psp.completed.v1''"

definition maxAttempts :: nat where
  "maxAttempts = 3"

definition milliseconds :: "int \<Rightarrow> duration" where
  "milliseconds n = n * 1000000"

text \<open>\<open>time.Sleep\<close>: time passes, and nothing can end it early.\<close>

definition sleep :: "'w env \<Rightarrow> duration \<Rightarrow> 'w sys \<Rightarrow> 'w sys" where
  "sleep env d s = snd (ask (wait_backoff env d) s)"

definition str :: "gmap \<Rightarrow> string \<Rightarrow> string" where
  "str payload k =
     (case payload of
        None \<Rightarrow> []
      | Some ms \<Rightarrow> (case map_of ms k of Some (GStr t) \<Rightarrow> t | _ \<Rightarrow> []))"

subsection \<open>Handling one record\<close>

text \<open>\<open>errors.As\<close> for a \<open>poisonError\<close>.\<close>

fun poison_cause :: "go_error \<Rightarrow> go_error option" where
  "poison_cause (Poison c) = Some c"
| "poison_cause (Wrapped _ e) = poison_cause e"
| "poison_cause _ = None"

fun await_valid :: "nat \<Rightarrow> 'w env \<Rightarrow> string \<Rightarrow> 'w sys \<Rightarrow> (go_error option \<times> 'w sys) option" where
  "await_valid 0 env value s = None"
| "await_valid (Suc n) env value s =
     (case Validate env value s of
        (None, s1) \<Rightarrow> Some (None, s1)
      | (Some e, s1) \<Rightarrow>
          (if is_registry_unavailable e then
             (case ask (wait_backoff env (seconds 2)) s1 of
                (Some c, s2) \<Rightarrow> Some (Some (ctx_err c), s2)
              | (None, s2) \<Rightarrow> await_valid n env value s2)
           else Some (Some (Poison e), s1)))"

definition seen_event :: "uuid \<Rightarrow> database \<Rightarrow> bool" where
  "seen_event i d \<longleftrightarrow> List.member (processed_events d) i"

text \<open>\<open>insert into processed_events ... on conflict do nothing\<close>.\<close>

definition mark_event :: "uuid \<Rightarrow> time \<Rightarrow> database \<Rightarrow> nat \<times> database" where
  "mark_event i now d =
     (if seen_event i d then (0, d) else (1, d\<lparr>processed_events := processed_events d @ [i]\<rparr>))"

definition record_event :: "'w env \<Rightarrow> uuid \<Rightarrow> 'w sys \<Rightarrow> go_error option \<times> flow \<times> 'w sys" where
  "record_event env i s =
     (case pool_exec env (mark_event i) s of
        (Inl e, s1) \<Rightarrow> (Some e, Return, s1)
      | (Inr _, s1) \<Rightarrow> (None, Return, s1))"

definition apply_completion :: "'w env \<Rightarrow> uuid \<Rightarrow> uuid \<Rightarrow> gmap \<Rightarrow> 'w sys \<Rightarrow> go_error option \<times> flow \<times> 'w sys" where
  "apply_completion env eventID paymentID payload s =
     (case ask (db_read env) s of (ok, s1) \<Rightarrow>
        (if \<not> ok then (Some DbError, Return, s1)
         else if seen_event eventID (db s1) then (None, Return, s1)
         else if str payload ''outcome'' = [] then
           (Some (Poison (PlainError ''payload missing 'outcome'')), Return, s1)
         else
           (case CompleteFromGateway env paymentID (str payload ''outcome'' = ''approved'')
                   (str payload ''psp_reference'') (str payload ''decline_code'') s1 of
              (Some e, f, s2) \<Rightarrow> (Some e, f, s2)
            | (None, f, s2) \<Rightarrow> (if f = Panic then (None, Panic, s2) else record_event env eventID s2))))"

definition handle_event :: "'w env \<Rightarrow> kafka_record \<Rightarrow> 'w sys \<Rightarrow> go_error option \<times> flow \<times> 'w sys" where
  "handle_event env rec s =
     (case Unframe (kr_value rec) of
        Inl e \<Rightarrow> (Some (Poison e), Return, s)
      | Inr ev \<Rightarrow>
          (case uuid_parse env (EventID ev) of
             None \<Rightarrow> (Some (Poison (Wrapped ''bad event_id'' UuidError)), Return, s)
           | Some eventID \<Rightarrow>
               (case uuid_parse env (str (Payload ev) ''payment_id'') of
                  None \<Rightarrow> (Some (Poison (Wrapped ''payment_id'' UuidError)), Return, s)
                | Some paymentID \<Rightarrow> apply_completion env eventID paymentID (Payload ev) s)))"

definition handle :: "nat \<Rightarrow> 'w env \<Rightarrow> kafka_record \<Rightarrow> 'w sys \<Rightarrow> (go_error option \<times> flow \<times> 'w sys) option" where
  "handle n env rec s =
     (case await_valid n env (kr_value rec) s of
        None \<Rightarrow> None
      | Some (Some e, s1) \<Rightarrow> Some (Some e, Return, s1)
      | Some (None, s1) \<Rightarrow> Some (handle_event env rec s1))"

subsection \<open>Retry and dead letters\<close>

definition dlq_record :: "'w env \<Rightarrow> time \<Rightarrow> kafka_record \<Rightarrow> go_error \<Rightarrow> kafka_record" where
  "dlq_record env now rec cause =
     \<lparr>kr_topic = group @ ''.'' @ kr_topic rec @ ''.dlq'', kr_key = kr_key rec, kr_value = kr_value rec,
      kr_headers = kr_headers rec @
        [(''x-exception'', sprint_error env cause), (''x-original-topic'', kr_topic rec),
         (''x-original-partition'', show_int (kr_partition rec)),
         (''x-original-offset'', show_int (kr_offset rec)),
         (''x-failed-at'', Format_RFC3339 now), (''x-consumer-group'', group)],
      kr_partition = 0, kr_offset = 0\<rparr>"

datatype settlement = Settled | Unsettled | Crashed

definition deadLetter :: "'w env \<Rightarrow> kafka_record \<Rightarrow> go_error \<Rightarrow> 'w sys \<Rightarrow> settlement \<times> 'w sys" where
  "deadLetter env rec cause s =
     (case ProduceSync env (dlq_record env (clock env (world s)) rec cause) s of
        (None, s1) \<Rightarrow> (Settled, s1)
      | (Some _, s1) \<Rightarrow> (Unsettled, s1))"

text \<open>The loop over the attempts from number \<open>a\<close>, \<open>k\<close> of them left, after the error \<open>prev\<close>.\<close>

fun attempts :: "nat \<Rightarrow> 'w env \<Rightarrow> kafka_record \<Rightarrow> nat \<Rightarrow> nat \<Rightarrow> go_error \<Rightarrow> 'w sys \<Rightarrow> (settlement \<times> 'w sys) option" where
  "attempts n env rec 0 a prev s = Some (deadLetter env rec prev s)"
| "attempts n env rec (Suc k) a prev s =
     (case handle n env rec s of
        None \<Rightarrow> None
      | Some (None, f, s1) \<Rightarrow> Some (if f = Panic then Crashed else Settled, s1)
      | Some (Some e, f, s1) \<Rightarrow>
          (case poison_cause e of
             Some c \<Rightarrow> Some (deadLetter env rec c s1)
           | None \<Rightarrow> attempts n env rec k (a + 1) e (sleep env (milliseconds (int a * 200)) s1)))"

definition handleWithRetry :: "nat \<Rightarrow> 'w env \<Rightarrow> kafka_record \<Rightarrow> 'w sys \<Rightarrow> (settlement \<times> 'w sys) option" where
  "handleWithRetry n env rec s = attempts n env rec maxAttempts 1 (PlainError []) s"

subsection \<open>The consumer's loop\<close>

text \<open>Every record of a batch is handled, whatever became of the ones before it.\<close>

fun settle_batch :: "nat \<Rightarrow> 'w env \<Rightarrow> kafka_record list \<Rightarrow> 'w sys \<Rightarrow> (settlement \<times> 'w sys) option" where
  "settle_batch n env [] s = Some (Settled, s)"
| "settle_batch n env (r # rs) s =
     (case handleWithRetry n env r s of
        None \<Rightarrow> None
      | Some (Crashed, s1) \<Rightarrow> Some (Crashed, s1)
      | Some (x, s1) \<Rightarrow>
          map_option (\<lambda>(y, s2). (if x = Unsettled \<and> y = Settled then Unsettled else y, s2))
            (settle_batch n env rs s1))"

text \<open>One turn of \<open>Run\<close>: what it did, and whether the offsets were committed.\<close>

datatype turn = Stopped | FetchErrors | Held | Committed | CommitFailed | Died

definition run_turn :: "nat \<Rightarrow> 'w env \<Rightarrow> 'w sys \<Rightarrow> (turn \<times> 'w sys) option" where
  "run_turn n env s =
     (case ask (kafka_poll env) s of (fetched, s1) \<Rightarrow>
        (case ask (ctx_done env) s1 of (stop, s2) \<Rightarrow>
           (if stop then Some (Stopped, s2)
            else
              (case fetched of
                 Inl errs \<Rightarrow> Some (FetchErrors, sleep env (seconds 1) s2)
               | Inr recs \<Rightarrow>
                   (case settle_batch n env recs s2 of
                      None \<Rightarrow> None
                    | Some (Crashed, s3) \<Rightarrow> Some (Died, s3)
                    | Some (Unsettled, s3) \<Rightarrow> Some (Held, sleep env (seconds 1) s3)
                    | Some (Settled, s3) \<Rightarrow>
                        (case ask (kafka_commit env) s3 of
                           (None, s4) \<Rightarrow> Some (Committed, s4)
                         | (Some e, s4) \<Rightarrow> Some (CommitFailed, s4)))))))"

subsection \<open>Holding during a registry outage\<close>

lemma sleep_untouched: "untouched s (sleep env d s)"
proof -
  obtain a t where t: "ask (wait_backoff env d) s = (a, t)" by fastforce
  then show ?thesis using ask_untouched [OF t] by (simp add: sleep_def)
qed

lemma await_valid_untouched: "await_valid n env value s = Some (e, s') \<Longrightarrow> untouched s s'"
proof (induction n arbitrary: s)
  case (Suc n)
  obtain a t where t: "Validate env value s = (a, t)" by fastforce
  note untouched = Validate_effect(1) [OF t]
  obtain c u where u: "ask (wait_backoff env (seconds 2)) t = (c, u)" by fastforce
  have "untouched s u"
    using untouched_trans [OF untouched] ask_untouched [OF u] by blast
  with Suc t u untouched show ?case
    by (auto split: option.splits if_splits intro: untouched_trans)
qed simp

text \<open>
  The error of a validated record is poison or the end of the context; never the registry's.
\<close>

lemma await_valid_error:
  "await_valid n env value s = Some (Some e, s') \<Longrightarrow> (\<exists>c. e = Poison c) \<or> (\<exists>c. e = ctx_err c)"
  by (induction n arbitrary: s)
    (auto split: option.splits if_splits prod.splits)

text \<open>More rounds do not change an answer.\<close>

lemma await_valid_mono: "await_valid n env value s = Some r \<Longrightarrow> await_valid (n + k) env value s = Some r"
  by (induction n arbitrary: s) (auto split: option.splits if_splits prod.splits)

lemma await_valid_answered:
  assumes "registry_answers env (get_int32 (drop 1 value)) s \<or> \<not> framed value"
  shows "await_valid (Suc n) env value s \<noteq> None"
proof -
  obtain a t where t: "Validate env value s = (a, t)" by fastforce
  then show ?thesis
    using Validate_unavailable_iff [OF t] assms by (cases a) auto
qed

text \<open>The registry is down for an id: it is not cached, and no answer settles what it is.\<close>

definition registry_down :: "'w env \<Rightarrow> int \<Rightarrow> 'w sys \<Rightarrow> bool" where
  "registry_down env i s \<longleftrightarrow> schemas s i = None \<and>
     (\<forall>w. case fst (http_get env (ids_url env i) w) of
        GetReply code body \<Rightarrow> code \<noteq> 404 \<and>
          (code = 200 \<longrightarrow> Option.bind (Decode body) (decode_struct [(''schema'', decode_string)] []) = None)
      | _ \<Rightarrow> True)"

lemma registry_down_unavailable: "registry_down env i s \<Longrightarrow> \<not> registry_answers env i s"
  by (simp add: registry_down_def registry_answers_def fst_ask split: get_reply.splits)

lemma Validate_down:
  assumes "framed value" and "registry_down env (get_int32 (drop 1 value)) s"
  shows "\<exists>x s'. Validate env value s = (Some x, s') \<and> is_registry_unavailable x
    \<and> registry_down env (get_int32 (drop 1 value)) s'"
proof -
  let ?i = "get_int32 (drop 1 value)"
  obtain a t where t: "Validate env value s = (a, t)" by fastforce
  then obtain x where x: "a = Some x" "is_registry_unavailable x"
    using Validate_unavailable_iff [OF t] registry_down_unavailable [OF assms(2)] assms(1) by auto
  obtain r u where r: "schema env ?i s = (r, u)" by fastforce
  then obtain y where "r = Inl y"
    using schema_unavailable_iff [OF r] registry_down_unavailable [OF assms(2)] by auto
  then have "u = t" "schemas u ?i = schemas s ?i"
    using r t assms(1) schema_effect [OF r] by (auto simp: Validate_def)
  then have "registry_down env ?i t"
    using assms(2) by (simp add: registry_down_def)
  with t x show ?thesis by blast
qed

lemma await_valid_down:
  assumes "framed value" and "\<forall>d w. fst (wait_backoff env d w) = None"
  shows "registry_down env (get_int32 (drop 1 value)) s \<Longrightarrow> await_valid n env value s = None"
proof (induction n arbitrary: s)
  case (Suc n)
  obtain x t where t: "Validate env value s = (Some x, t)" "is_registry_unavailable x"
    "registry_down env (get_int32 (drop 1 value)) t"
    using Validate_down [OF assms(1) Suc.prems] by blast
  obtain u where u: "ask (wait_backoff env (seconds 2)) t = (None, u)"
    using ask_answer [of "wait_backoff env (seconds 2)" t None] assms(2) by auto
  with t(3) ask_untouched [OF u] have "registry_down env (get_int32 (drop 1 value)) u"
    by (simp add: registry_down_def)
  from Suc.IH [OF this] t u show ?case by simp
qed simp

subsection \<open>Effects of a record\<close>

text \<open>An event that is marked has no effect when it is delivered again.\<close>

lemma apply_completion_seen:
  assumes "seen_event eventID (db s)" and "apply_completion env eventID paymentID payload s = (e, f, s')"
  shows "untouched s s'" and "e = None \<or> e = Some DbError"
proof -
  obtain ok t where t: "ask (db_read env) s = (ok, t)" by fastforce
  show "untouched s s'" "e = None \<or> e = Some DbError"
    using assms t ask_eqD [OF t] ask_untouched [OF t]
    by (auto simp: apply_completion_def split: if_splits)
qed

lemma record_event_effect:
  assumes "record_event env i s = (e, f, s')"
  shows "f = Return" and "e = None \<Longrightarrow> seen_event i (db s')"
proof -
  obtain r t where t: "pool_exec env (mark_event i) s = (r, t)" by fastforce
  show "f = Return"
    using assms t by (cases r) (auto simp: record_event_def)
  assume "e = None"
  with assms t obtain n where r: "r = Inr n" "t = s'"
    by (cases r) (auto simp: record_event_def)
  from t show "seen_event i (db s')"
    by (cases rule: pool_exec_effect)
      (use r in \<open>auto simp: mark_event_def seen_event_def split: if_splits\<close>)
qed

text \<open>A record handled without an error, in a process that lives on, is marked.\<close>

lemma handle_event_marks:
  assumes "handle_event env rec s = (None, f, s')" and "f \<noteq> Panic"
  shows "\<exists>ev i. Unframe (kr_value rec) = Inr ev \<and> uuid_parse env (EventID ev) = Some i \<and> seen_event i (db s')"
proof -
  from assms(1) obtain ev i j where ev: "Unframe (kr_value rec) = Inr ev" "uuid_parse env (EventID ev) = Some i"
    "apply_completion env i j (Payload ev) s = (None, f, s')"
    by (auto simp: handle_event_def split: sum.splits option.splits)
  obtain ok t where t: "ask (db_read env) s = (ok, t)" by fastforce
  have "seen_event i (db s')"
  proof (cases "seen_event i (db t)")
    case True
    with ev(3) t show ?thesis by (auto simp: apply_completion_def split: if_splits)
  next
    case False
    obtain c g u where c: "CompleteFromGateway env j (str (Payload ev) ''outcome'' = ''approved'')
        (str (Payload ev) ''psp_reference'') (str (Payload ev) ''decline_code'') t = (c, g, u)"
      by (metis prod_cases3)
    with ev(3) t False assms(2) have "record_event env i u = (None, f, s')"
      by (cases c) (auto simp: apply_completion_def split: if_splits)
    from record_event_effect(2) [OF this] show ?thesis by simp
  qed
  with ev show ?thesis by blast
qed

lemma handle_marks:
  assumes "handle n env rec s = Some (None, f, s')" and "f \<noteq> Panic"
  shows "\<exists>ev i. Unframe (kr_value rec) = Inr ev \<and> uuid_parse env (EventID ev) = Some i \<and> seen_event i (db s')"
proof -
  from assms(1) obtain t where "handle_event env rec t = (None, f, s')"
    by (auto simp: handle_def split: option.splits)
  from handle_event_marks [OF this assms(2)] show ?thesis .
qed

definition dead_lettered :: "'w env \<Rightarrow> kafka_record \<Rightarrow> 'w sys \<Rightarrow> bool" where
  "dead_lettered env rec s \<longleftrightarrow> (\<exists>recs now cause. produced s = recs @ [dlq_record env now rec cause])"

lemma deadLetter_settles:
  assumes "deadLetter env rec cause s = (x, s')"
  shows "x = Settled \<Longrightarrow> dead_lettered env rec s'" and "x \<noteq> Crashed" and "db s' = db s"
proof -
  let ?d = "dlq_record env (clock env (world s)) rec cause"
  obtain e t where t: "ProduceSync env ?d s = (e, t)" by fastforce
  note effect = ProduceSync_effect(1) [OF t]
  show "x = Settled \<Longrightarrow> dead_lettered env rec s'" "x \<noteq> Crashed" "db s' = db s"
    using assms t effect
    by (cases e; auto simp: deadLetter_def dead_lettered_def only_produced_def)+
qed

lemma attempts_settle:
  "attempts n env rec k a prev s = Some (Settled, s') \<Longrightarrow>
     dead_lettered env rec s' \<or>
     (\<exists>ev i. Unframe (kr_value rec) = Inr ev \<and> uuid_parse env (EventID ev) = Some i \<and> seen_event i (db s'))"
proof (induction k arbitrary: a prev s)
  case 0
  then show ?case using deadLetter_settles(1) [of env rec prev s Settled s'] by simp
next
  case (Suc k)
  obtain e f t where t: "handle n env rec s = Some (e, f, t)"
    using Suc.prems by (auto split: option.splits)
  show ?case
  proof (cases e)
    case None
    with Suc.prems t have "f \<noteq> Panic" "t = s'" by (auto split: if_splits)
    with None t handle_marks [of n env rec s f s'] show ?thesis by simp
  next
    case (Some x)
    show ?thesis
    proof (cases "poison_cause x")
      case None
      with Some Suc.prems t have "attempts n env rec k (a + 1) x (sleep env (milliseconds (int a * 200)) t) = Some (Settled, s')"
        by simp
      from Suc.IH [OF this] show ?thesis .
    next
      case (Some c)
      with \<open>e = Some x\<close> Suc.prems t have "deadLetter env rec c t = (Settled, s')" by simp
      from deadLetter_settles(1) [OF this] show ?thesis by simp
    qed
  qed
qed

subsection \<open>A database outage\<close>

text \<open>A record that passes validation against a cached schema, with its two identifiers.\<close>

definition well_formed_completion :: "'w env \<Rightarrow> kafka_record \<Rightarrow> 'w sys \<Rightarrow> bool" where
  "well_formed_completion env rec s \<longleftrightarrow> framed (kr_value rec)
     \<and> (case schemas s (get_int32 (drop 1 (kr_value rec))) of
          None \<Rightarrow> False
        | Some doc \<Rightarrow> js_document env (drop 5 (kr_value rec)) = None
            \<and> js_validate env doc (drop 5 (kr_value rec)) = None)
     \<and> (case Unframe (kr_value rec) of
          Inl _ \<Rightarrow> False
        | Inr ev \<Rightarrow> uuid_parse env (EventID ev) \<noteq> None
            \<and> uuid_parse env (str (Payload ev) ''payment_id'') \<noteq> None)"

lemma handle_db_down:
  assumes "well_formed_completion env rec s" and "\<forall>w. \<not> fst (db_read env w)"
  shows "\<exists>s'. handle (Suc n) env rec s = Some (Some DbError, Return, s')
    \<and> untouched s s' \<and> schemas s' = schemas s"
proof -
  from assms(1) have "Validate env (kr_value rec) s = (None, s)"
    by (auto simp: well_formed_completion_def Validate_def schema_def split: option.splits)
  moreover obtain t where t: "ask (db_read env) s = (False, t)"
    using ask_answer [of "db_read env" s False] assms(2) by auto
  moreover from assms(1) obtain ev i j where "Unframe (kr_value rec) = Inr ev"
    "uuid_parse env (EventID ev) = Some i" "uuid_parse env (str (Payload ev) ''payment_id'') = Some j"
    by (auto simp: well_formed_completion_def split: sum.splits)
  ultimately show ?thesis
    using ask_untouched [OF t] by (auto simp: handle_def handle_event_def apply_completion_def)
qed

lemma sleep_schemas: "schemas (sleep env d s) = schemas s"
proof -
  obtain a t where t: "ask (wait_backoff env d) s = (a, t)" by fastforce
  then show ?thesis using ask_untouched [OF t] by (simp add: sleep_def)
qed

lemma attempts_db_down:
  assumes "\<forall>w. \<not> fst (db_read env w)" and "\<forall>r w. fst (produce_sync env r w) = None"
  shows "well_formed_completion env rec s \<Longrightarrow>
    \<exists>s' now. attempts (Suc n) env rec (Suc k) a prev s = Some (Settled, s')
      \<and> only_produced s [dlq_record env now rec DbError] s'"
proof (induction k arbitrary: a prev s)
  case 0
  obtain t where t: "handle (Suc n) env rec s = Some (Some DbError, Return, t)" "untouched s t" "schemas t = schemas s"
    using handle_db_down [OF 0 assms(1)] by blast
  let ?u = "sleep env (milliseconds (int a * 200)) t"
  have u: "only_produced s [] ?u"
    using untouched_trans [OF t(2) sleep_untouched] by (simp add: untouched_only_produced)
  let ?d = "dlq_record env (clock env (world ?u)) rec DbError"
  obtain x v where v: "ProduceSync env ?d ?u = (x, v)" by fastforce
  then have "x = None"
    using assms(2) ask_answer [of "produce_sync env ?d" ?u None] by (auto simp: ProduceSync_def)
  with ProduceSync_effect(1) [OF v] only_produced_trans [OF u] t(1) v show ?case
    by (auto simp: deadLetter_def)
next
  case (Suc k)
  obtain t where t: "handle (Suc n) env rec s = Some (Some DbError, Return, t)" "untouched s t" "schemas t = schemas s"
    using handle_db_down [OF Suc.prems assms(1)] by blast
  let ?u = "sleep env (milliseconds (int a * 200)) t"
  have u: "schemas ?u = schemas s" "only_produced s [] ?u"
    using t(3) untouched_trans [OF t(2) sleep_untouched] by (simp_all add: sleep_schemas untouched_only_produced)
  then have "well_formed_completion env rec ?u"
    using Suc.prems by (simp add: well_formed_completion_def)
  from Suc.IH [OF this, of "a + 1" DbError] t only_produced_trans [OF u(2)] show ?case by fastforce
qed

subsection \<open>Batches\<close>

lemma settle_batch_settled:
  "settle_batch n env recs s = Some (Settled, s') \<Longrightarrow> rec \<in> set recs \<Longrightarrow>
     \<exists>t t'. handleWithRetry n env rec t = Some (Settled, t')"
proof (induction recs arbitrary: s)
  case (Cons r rs)
  obtain x t where t: "handleWithRetry n env r s = Some (x, t)"
    using Cons.prems by (auto split: option.splits)
  then have x: "x = Settled" "settle_batch n env rs t = Some (Settled, s')"
    using Cons.prems(1) by (cases x; auto split: if_splits)+
  with Cons.IH [OF x(2)] Cons.prems(2) t show ?case by auto
qed simp

text \<open>Handling is monotone in the bound, so a batch is settled or not whatever the bound was.\<close>

lemma handle_mono: "handle n env rec s = Some r \<Longrightarrow> handle (n + k) env rec s = Some r"
  using await_valid_mono [of n env "kr_value rec" s _ k] by (auto simp: handle_def split: option.splits)

lemma attempts_mono:
  "attempts n env rec k a prev s = Some r \<Longrightarrow> attempts (n + m) env rec k a prev s = Some r"
proof (induction k arbitrary: a prev s)
  case (Suc k)
  obtain e f t where t: "handle n env rec s = Some (e, f, t)"
    using Suc.prems by (auto split: option.splits)
  from handle_mono [OF t, of m] t Suc show ?case
    by (auto split: option.splits)
qed simp

subsection \<open>What holds across a turn\<close>

text \<open>
  A relation that composes, and that the pieces of the consumer's work respect (an answer of the
  engine, a mark, a call or a record sent), holds across everything the loop does. The consumer's
  properties are proved once here, for every such relation.
\<close>

locale consumer_relation =
  fixes env :: "'w env" and R :: "'w sys \<Rightarrow> 'w sys \<Rightarrow> bool"
  assumes R_trans: "R s t \<Longrightarrow> R t u \<Longrightarrow> R s u"
    and R_sent: "only_produced s recs s' \<Longrightarrow> R s s'"
    and R_completion: "CompleteFromGateway env i approved ref code s = (e, f, s') \<Longrightarrow> R s s'"
    and R_mark: "record_event env i s = (e, f, s') \<Longrightarrow> R s s'"
begin

lemma R_untouched: "untouched s s' \<Longrightarrow> R s s'"
  unfolding untouched_only_produced by (rule R_sent)

lemma R_ask: "ask f s = (a, s') \<Longrightarrow> R s s'"
  by (rule R_untouched [OF conjunct1 [OF ask_untouched]])

lemma R_apply:
  assumes "apply_completion env ev pid payload s = (e, f, s')"
  shows "R s s'"
proof -
  obtain ok t where t: "ask (db_read env) s = (ok, t)" by fastforce
  note read = R_ask [OF t]
  obtain c g u where c: "CompleteFromGateway env pid (str payload ''outcome'' = ''approved'')
      (str payload ''psp_reference'') (str payload ''decline_code'') t = (c, g, u)"
    by (metis prod_cases3)
  note complete = R_trans [OF read R_completion [OF c]]
  obtain x y v where v: "record_event env ev u = (x, y, v)" by (metis prod_cases3)
  note marked = R_trans [OF complete R_mark [OF v]]
  from assms t c v have "s' = t \<or> s' = u \<or> s' = v"
    by (auto simp: apply_completion_def split: if_splits option.splits)
  with read complete marked show ?thesis by blast
qed

lemma R_event: "handle_event env rec s = (e, f, s') \<Longrightarrow> R s s'"
  by (auto simp: handle_event_def split: sum.splits option.splits intro: R_apply R_untouched)

lemma R_handle: "handle n env rec s = Some (e, f, s') \<Longrightarrow> R s s'"
  by (auto simp: handle_def split: option.splits
      intro: R_trans [OF R_untouched [OF await_valid_untouched] R_event] R_untouched [OF await_valid_untouched])

lemma R_letter:
  assumes "deadLetter env rec cause s = (x, s')"
  shows "R s s'"
proof -
  obtain e t where t: "ProduceSync env (dlq_record env (clock env (world s)) rec cause) s = (e, t)" by fastforce
  have "s' = t" using assms t by (auto simp: deadLetter_def split: option.splits)
  with R_sent [OF ProduceSync_effect(1) [OF t]] show ?thesis by simp
qed

lemma R_attempts: "attempts n env rec k a prev s = Some (x, s') \<Longrightarrow> R s s'"
proof (induction k arbitrary: a prev s)
  case 0
  then show ?case by (auto intro: R_letter)
next
  case (Suc k)
  obtain e f t where t: "handle n env rec s = Some (e, f, t)"
    using Suc.prems by (auto split: option.splits)
  note handled = R_handle [OF t]
  show ?case
  proof (cases "\<exists>y. e = Some y \<and> poison_cause y = None")
    case True
    then obtain y where "attempts n env rec k (a + 1) y (sleep env (milliseconds (int a * 200)) t) = Some (x, s')"
      using Suc.prems t by auto
    from R_trans [OF R_trans [OF handled R_untouched [OF sleep_untouched]] Suc.IH [OF this]] show ?thesis .
  next
    case False
    with Suc.prems t have "s' = t \<or> (\<exists>c y. deadLetter env rec c t = (y, s'))"
      by (auto split: option.splits if_splits)
    with R_trans [OF handled] handled R_letter show ?thesis by blast
  qed
qed

lemma R_batch: "settle_batch n env rs s = Some (x, s') \<Longrightarrow> R s s'"
proof (induction rs arbitrary: s x)
  case Nil
  then show ?case by (auto intro: R_untouched)
next
  case (Cons r rs)
  obtain y t where t: "handleWithRetry n env r s = Some (y, t)"
    using Cons.prems by (auto split: option.splits)
  then have one: "R s t" by (auto simp: handleWithRetry_def intro: R_attempts)
  show ?case
  proof (cases "y = Crashed")
    case False
    with Cons.prems t obtain z where "settle_batch n env rs t = Some (z, s')"
      by (auto split: settlement.splits)
    from R_trans [OF one Cons.IH [OF this]] show ?thesis .
  qed (use Cons.prems t one in auto)
qed

lemma R_turn:
  assumes "run_turn n env s = Some (t, s')"
  shows "R s s'"
proof -
  obtain polled s1 where s1: "ask (kafka_poll env) s = (polled, s1)" by fastforce
  obtain stop s2 where s2: "ask (ctx_done env) s1 = (stop, s2)" by fastforce
  note start = R_trans [OF R_ask [OF s1] R_ask [OF s2]]
  note slept = R_untouched [OF sleep_untouched]
  show ?thesis
  proof (cases "\<not> stop \<and> (\<exists>recs. polled = Inr recs)")
    case False
    then have "s' = s2 \<or> s' = sleep env (seconds 1) s2"
      using assms s1 s2 by (auto simp: run_turn_def split: sum.splits if_splits)
    with start R_trans [OF start slept] show ?thesis by blast
  next
    case True
    then obtain recs where recs: "polled = Inr recs" "\<not> stop" by blast
    obtain x s3 where s3: "settle_batch n env recs s2 = Some (x, s3)"
      using assms s1 s2 recs by (auto simp: run_turn_def split: option.splits)
    obtain c s4 where s4: "ask (kafka_commit env) s3 = (c, s4)" by fastforce
    have "s' = s3 \<or> s' = sleep env (seconds 1) s3 \<or> s' = s4"
      using assms s1 s2 recs s3 s4 by (auto simp: run_turn_def split: settlement.splits option.splits)
    with R_trans [OF start R_batch [OF s3]] R_ask [OF s4] slept show ?thesis
      using R_trans by blast
  qed
qed

end

subsection \<open>Records and marks are never taken back\<close>

definition remembers :: "'w sys \<Rightarrow> 'w sys \<Rightarrow> bool" where
  "remembers s s' \<longleftrightarrow> set (produced s) \<subseteq> set (produced s') \<and> (\<forall>i. seen_event i (db s) \<longrightarrow> seen_event i (db s'))"

lemma remembers_trans: "remembers s t \<Longrightarrow> remembers t u \<Longrightarrow> remembers s u"
  by (auto simp: remembers_def)

lemma record_event_remembers:
  assumes "record_event env i s = (e, f, s')"
  shows "remembers s s'"
proof -
  obtain r t where t: "pool_exec env (mark_event i) s = (r, t)" by fastforce
  have "s' = t" using assms t by (auto simp: record_event_def split: sum.splits)
  moreover have "seen_event j (db s) \<longrightarrow> seen_event j (db t)" for j
    using t by (cases rule: pool_exec_effect) (auto simp: mark_event_def seen_event_def)
  ultimately show ?thesis
    using pool_exec_frame(4) [OF t] by (simp add: remembers_def)
qed

text \<open>The record is safe: its event is marked as handled, or its dead letter acknowledged.\<close>

definition is_safe :: "'w env \<Rightarrow> kafka_record \<Rightarrow> 'w sys \<Rightarrow> bool" where
  "is_safe env rec s \<longleftrightarrow> (\<exists>now cause. dlq_record env now rec cause \<in> set (produced s))
     \<or> (\<exists>ev i. Unframe (kr_value rec) = Inr ev \<and> uuid_parse env (EventID ev) = Some i \<and> seen_event i (db s))"

lemma is_safe_remembers: "is_safe env rec s \<Longrightarrow> remembers s s' \<Longrightarrow> is_safe env rec s'"
  by (auto simp: is_safe_def remembers_def)

lemma settled_is_safe:
  assumes "handleWithRetry n env rec s = Some (Settled, s')"
  shows "is_safe env rec s'"
  using attempts_settle [OF assms [unfolded handleWithRetry_def]]
proof
  assume "dead_lettered env rec s'"
  then obtain recs now cause where "produced s' = recs @ [dlq_record env now rec cause]"
    by (auto simp: dead_lettered_def)
  then have "dlq_record env now rec cause \<in> set (produced s')" by simp
  then show ?thesis unfolding is_safe_def by blast
qed (simp add: is_safe_def)

end
