(* ===== verification/EventProperties.thy ===== *)
theory EventProperties
  imports Consumer Liveness
begin

section \<open>Properties of the event pipeline\<close>

text \<open>
  What the relay, the wire format, the validator and the consumer guarantee, and where they fall
  short. The witnesses use the environments of \<open>Scenario\<close> with a registry that answers.
\<close>

definition quote_mark :: string where
  "quote_mark = [CHR 0x22]"

definition registry_body :: string where
  "registry_body = ''{'' @ quote_mark @ ''id'' @ quote_mark @ '':7}''"

definition events_up :: answers where
  "events_up = yes\<lparr>an_get := GetReply 200 registry_body\<rparr>"

definition demo_event :: "uuid \<Rightarrow> payload \<Rightarrow> outbox_row" where
  "demo_event i p =
     \<lparr>ob_id = i, ob_aggregatetype = ''payment'', ob_aggregateid = ''a'', ob_type = ''topic'',
      ob_payload = p, ob_created_at = 0, ob_processed_at = None\<rparr>"

definition demo_outbox :: "outbox_row list \<Rightarrow> int sys" where
  "demo_outbox rows = (let s = demo_sys [] 5 in s\<lparr>db := (db s)\<lparr>outbox := rows\<rparr>\<rparr>)"

lemma four_digit_epoch: "four_digit_year 0"
  by (simp add: four_digit_year_def year_of_def days_before_year_def epoch_day_def Let_def)

subsection \<open>From the outbox to the consumer\<close>

text \<open>
  C31. What the relay frames, the consumer reads: for an outbox row whose strings are UTF-8 and
  whose integers stay below \<open>2^53\<close>, the framed envelope unframes to an envelope with the row's id
  and topic, and every key of its payload has the value that was stored, amounts included.
\<close>

theorem relayed_row_reads_back:
  assumes "outbox_row_ok env r"
  shows "\<exists>value e. Frame i (envelope_of env r) = Inr value \<and> Unframe value = Inr e
    \<and> EventID e = uuid_str env (ob_id r) \<and> EventType e = ob_type r \<and> OccurredAt e = ob_created_at r
    \<and> (\<exists>ms. Payload e = Some ms \<and>
         (\<forall>k. map_of ms k = map_option exact_value (map_of (rev (ob_payload r)) k)))"
proof -
  let ?e = "envelope_of env r"
  obtain w where "Frame i ?e = Inr w" "Unframe w = Inr ?e"
    using Unframe_Frame [OF envelope_of_ok [OF assms]] by blast
  moreover have "EventID ?e = uuid_str env (ob_id r)" "EventType ?e = ob_type r" "OccurredAt ?e = ob_created_at r"
    by (simp_all add: envelope_of_def NewEnvelope_def envelope_zero_def)
  moreover have "Payload ?e = relay_payload (ob_payload r)"
    by (simp add: envelope_of_def NewEnvelope_def envelope_zero_def)
  moreover have "map_of (fold (\<lambda>(k, v). map_put k (relay_value v)) (ob_payload r) []) k
      = map_option exact_value (map_of (rev (ob_payload r)) k)" for k
    using map_of_relay_payload [of "ob_payload r" "[]" k] assms
    by (simp add: outbox_row_ok_def split: option.split)
  ultimately show ?thesis
    by (auto simp: relay_payload_def)
qed

theorem relayed_row_reads_back_witness:
  "\<exists>value e. Frame 7 (envelope_of (demo_env yes) (demo_event 1 [(''amount'', JInt 1250)])) = Inr value
    \<and> Unframe value = Inr e \<and> str (Payload e) ''amount'' = []
    \<and> (\<exists>ms. Payload e = Some ms \<and> map_of ms ''amount'' = Some (GInt 1250))"
proof -
  let ?r = "demo_event 1 [(''amount'', JInt 1250)]"
  have "utf8_ok ''u''" "utf8_ok ''topic''" "utf8_ok ''amount''"
    by (rule utf8_ok_ascii; simp add: byte_def)+
  then have "outbox_row_ok (demo_env yes) ?r"
    by (simp add: outbox_row_ok_def demo_event_def demo_env_def demo_uuid_def four_digit_epoch
        del: utf8_ok.simps)
  from relayed_row_reads_back [OF this, of 7] obtain w e ms where
    e: "Frame 7 (envelope_of (demo_env yes) ?r) = Inr w" "Unframe w = Inr e" "Payload e = Some ms"
      "\<forall>k. map_of ms k = map_option exact_value (map_of (rev (ob_payload ?r)) k)"
    by blast
  from e(4) have "map_of ms ''amount'' = Some (GInt 1250)"
    by (simp add: demo_event_def)
  with e(1-3) show ?thesis
    by (auto simp: str_def GInt_def)
qed

lemma shortest_cases: "shortest v = v \<or> 10 dvd shortest v"
proof (cases "find (\<lambda>j. round53 (half_even v (10 ^ j) * 10 ^ j) = v) (rev [0 ..< 20])")
  case (Some j)
  then have "shortest v = half_even v (10 ^ j) * 10 ^ j"
    by (simp add: shortest_def)
  then show ?thesis
    by (cases j) auto
qed (simp add: shortest_def)

lemma round53_odd: "round53 9007199254740993 = 9007199254740992"
proof -
  have "float_exp 4503599627370496 = 0" "float_exp 9007199254740993 = Suc (float_exp 4503599627370496)"
    by (subst float_exp.simps; simp)+
  then show ?thesis
    by (simp add: round53_def half_even_def Let_def)
qed

text \<open>
  C32. The relay turns every amount into a \<open>float64\<close> on the way. Below \<open>2^53\<close> minor units that
  loses nothing; above it the published amount can differ from the one in the database, which
  is a 64-bit integer: 9007199254740993 is not published as itself.
\<close>

theorem relayed_amount_is_exact_below_2_53:
  "(\<bar>i\<bar> < 2 ^ 53 \<longrightarrow> relay_value (JInt i) = exact_value (JInt i))
    \<and> json_number 9007199254740993 \<noteq> 9007199254740993"
proof -
  have "shortest 9007199254740992 \<noteq> 9007199254740993"
    using shortest_cases [of 9007199254740992] by auto
  then have "json_number 9007199254740993 \<noteq> 9007199254740993"
    by (simp add: json_number_def round53_odd)
  then show ?thesis
    by (simp add: json_number_small)
qed

theorem relayed_amount_is_exact_below_2_53_witness:
  "relay_value (JInt 1250) = exact_value (JInt 1250)"
  using relayed_amount_is_exact_below_2_53 [of 1250] by simp

subsection \<open>The relay\<close>



text \<open>
  C29. When the database, the broker and the registry answer and every time can be printed, the
  relay catches up: \<open>n\<close> drains leave nothing pending of up to \<open>50 * n\<close> pending rows.
\<close>

theorem relay_catches_up:
  assumes "relay_up env" and "printable_times (db s)" and "length (pending (db s)) \<le> 50 * n"
  shows "pending (db (drains env n s)) = []"
  by (rule drains_clear [OF assms])

theorem relay_catches_up_witness:
  "pending (db (drains (demo_env events_up) 1 (demo_outbox [demo_event 1 [], demo_event 2 []]))) = []"
proof (rule relay_catches_up)
  have "Option.bind (Decode registry_body) (decode_struct [(''id'', decode_int 32)] 0) = Some 7"
    by code_simp
  then show "relay_up (demo_env events_up)"
    by (simp add: relay_up_def demo_env_def events_up_def yes_def)
qed (simp_all add: printable_times_def pending_def demo_outbox_def demo_sys_def demo_event_def Let_def four_digit_epoch)



subsection \<open>Validation\<close>

text \<open>
  Validation keeps an outage apart from a bad message: it reports the registry unavailable
  exactly if the message is framed, its schema is not cached and the registry gave no settling
  answer (an answer that it does not know the id, or a schema). So no message is condemned
  because the registry is down, and an unframed one is condemned without asking.
\<close>

lemma outage_is_told_from_poison:
  assumes "Validate env value s = (e, s')"
  shows "(\<exists>x. e = Some x \<and> is_registry_unavailable x) \<longleftrightarrow>
    framed value \<and> \<not> registry_answers env (get_int32 (drop 1 value)) s"
  by (rule Validate_unavailable_iff [OF assms])

lemma outage_is_told_from_poison_witness:
  "\<exists>x. fst (Validate (demo_env yes) (chr 0 # ''abcde'') (demo_sys [] 0)) = Some x \<and> is_registry_unavailable x"
proof -
  obtain e s' where v: "Validate (demo_env yes) (chr 0 # ''abcde'') (demo_sys [] 0) = (e, s')" by fastforce
  have "framed (chr 0 # ''abcde'')"
    by (simp add: framed_def)
  moreover have "\<not> registry_answers (demo_env yes) i (demo_sys [] 0)" for i
    by (simp add: registry_answers_def demo_env_def yes_def demo_sys_def fst_ask)
  ultimately show ?thesis
    using outage_is_told_from_poison [OF v] v by simp
qed

subsection \<open>The consumer\<close>

definition demo_record :: "string \<Rightarrow> kafka_record" where
  "demo_record v = \<lparr>kr_topic = topicComplete, kr_key = [], kr_value = v, kr_headers = [],
     kr_partition = 0, kr_offset = 3\<rparr>"

text \<open>
  A record counts as settled only when it is safe: either its event id is marked processed,
  or the last record the broker acknowledged is its dead letter, with its value and its key.
  With that, offsets are committed only after a batch in which every record was settled.
\<close>

lemma settled_record_is_marked_or_dead_lettered:
  assumes "handleWithRetry n env rec s = Some (Settled, s')"
  shows "(\<exists>recs now cause. produced s' = recs @ [dlq_record env now rec cause]) \<or>
    (\<exists>e i. Unframe (kr_value rec) = Inr e \<and> uuid_parse env (EventID e) = Some i \<and> seen_event i (db s'))"
  using attempts_settle [OF assms [unfolded handleWithRetry_def]] by (simp add: dead_lettered_def)

lemma settled_record_is_marked_or_dead_lettered_witness:
  "\<exists>s'. handleWithRetry 1 (demo_env yes) (demo_record ''raw'') (demo_sys [] 0) = Some (Settled, s')
    \<and> map kr_topic (produced s') = [''payment-service.gateway.psp.completed.v1.dlq'']"
proof -
  let ?d = "dlq_record (demo_env yes) 0 (demo_record ''raw'') (SchemaInvalid ''not a confluent-framed message'')"
  have h: "handleWithRetry 1 (demo_env yes) (demo_record ''raw'') (demo_sys [] 0) =
      Some (Settled, (demo_sys [] 0)\<lparr>produced := [?d]\<rparr>)"
    by (simp add: handleWithRetry_def maxAttempts_def eval_nat_numeral handle_def Validate_def framed_def
        demo_record_def deadLetter_def ProduceSync_def ask_def demo_env_def yes_def demo_sys_def)
  from settled_record_is_marked_or_dead_lettered [OF h] have "produced ((demo_sys [] 0)\<lparr>produced := [?d]\<rparr>) \<noteq> [] \<or>
      (\<exists>e. Unframe (kr_value (demo_record ''raw'')) = Inr e)"
    by auto
  with h show ?thesis
    by (auto simp: dlq_record_def demo_record_def group_def topicComplete_def)
qed




text \<open>A framed completion: an event id, a payment id, and the outcome.\<close>

definition q :: "string \<Rightarrow> string" where
  "q t = quote_mark @ t @ quote_mark"

definition completion_value :: string where
  "completion_value = chr 0 # [chr 0, chr 0, chr 0, chr 7] @ ''{'' @ q ''event_id'' @ '':'' @ q ''hold'' @ '',''
     @ q ''event_type'' @ '':'' @ q ''t'' @ '','' @ q ''payload'' @ '':{'' @ q ''payment_id'' @ '':'' @ q ''hold'' @ '',''
     @ q ''outcome'' @ '':'' @ q ''declined'' @ ''}}''"

definition cached_sys :: "payment_row list \<Rightarrow> int sys" where
  "cached_sys rows = (demo_sys rows 0)\<lparr>schemas := [7 \<mapsto> ''schema'']\<rparr>"





text \<open>
  C34. A completion takes effect once: after a record was handled without an error, handling it
  again, in any later state in which the event ids marked by then are still marked, changes no
  table, makes no call, wakes no subscriber and starts no goroutine.
\<close>

theorem handled_completion_has_no_second_effect:
  assumes "handle n env rec s = Some (None, f, s1)" and "f \<noteq> Panic"
    and "\<forall>i. seen_event i (db s1) \<longrightarrow> seen_event i (db t)"
    and "handle m env rec t = Some (e, f', t')"
  shows "untouched t t'"
proof -
  obtain ev i where ev: "Unframe (kr_value rec) = Inr ev" "uuid_parse env (EventID ev) = Some i" "seen_event i (db s1)"
    using handle_marks [OF assms(1,2)] by blast
  obtain x u where u: "await_valid m env (kr_value rec) t = Some (x, u)"
    using assms(4) by (auto simp: handle_def split: option.splits)
  have quiet: "untouched t u"
    by (rule await_valid_untouched [OF u])
  then have seen: "seen_event i (db u)"
    using assms(3) ev(3) by (simp add: untouched_def)
  show ?thesis
  proof (cases x)
    case None
    with assms(4) u have h: "handle_event env rec u = (e, f', t')"
      by (simp add: handle_def)
    show ?thesis
    proof (cases "uuid_parse env (str (Payload ev) ''payment_id'')")
      case (Some j)
      with h ev have "apply_completion env i j (Payload ev) u = (e, f', t')"
        by (simp add: handle_event_def)
      from apply_completion_seen(1) [OF seen this] quiet show ?thesis
        by (blast intro: untouched_trans)
    qed (use h ev quiet in \<open>simp add: handle_event_def\<close>)
  qed (use assms(4) u quiet in \<open>simp add: handle_def\<close>)
qed

definition declined_once :: "(go_error option \<times> flow \<times> int sys) option" where
  "declined_once = handle 1 (demo_env yes) (demo_record completion_value)
     (cached_sys [(demo_row Processing SubmittedToGateway)\<lparr>pr_id := 7\<rparr>])"

definition declined_twice :: "(go_error option \<times> flow \<times> int sys) option" where
  "declined_twice = Option.bind declined_once
     (\<lambda>(e, f, s). handle 1 (demo_env yes) (demo_record completion_value) s)"

text \<open>The first delivery declines the payment, the second changes nothing.\<close>

lemma declined_once:
  "map_option (\<lambda>(e, f, s). (e, f, map pr_status (payments (db s)), processed_events (db s))) declined_once
     = Some (None, Return, [Failed], [7])"
  by code_simp

lemma declined_twice: "map_option (\<lambda>(e, f, s). (e, f)) declined_twice = Some (None, Return)"
  by code_simp

theorem handled_completion_has_no_second_effect_witness:
  "\<exists>s1 t'. declined_once = Some (None, Return, s1) \<and> declined_twice = Some (None, Return, t')
    \<and> untouched s1 t' \<and> map pr_status (payments (db s1)) = [Failed]"
proof -
  obtain s1 where s1: "declined_once = Some (None, Return, s1)" "map pr_status (payments (db s1)) = [Failed]"
    using declined_once by (cases declined_once) auto
  obtain t' where t': "declined_twice = Some (None, Return, t')"
    using declined_twice by (cases declined_twice) auto
  have "handle 1 (demo_env yes) (demo_record completion_value) s1 = Some (None, Return, t')"
    using t' unfolding declined_twice_def s1(1) by simp
  from handled_completion_has_no_second_effect [OF s1(1) [unfolded declined_once_def] _ _ this]
  have "untouched s1 t'" by simp
  with s1 t' show ?thesis by (intro exI [of _ s1] exI [of _ t'] conjI)
qed









end
