(* ===== verification/ReconcileProperties.thy ===== *)
theory ReconcileProperties
  imports Reconcile Scenario
begin

section \<open>Properties of the reconciliation\<close>

text \<open>
  What a reconciliation run reports, and that it does nothing else. The witnesses run it on a
  small report; times in it are given in RFC 3339.
\<close>

definition dq :: "string \<Rightarrow> string" where
  "dq t = [CHR 0x22] @ t @ [CHR 0x22]"

definition demo_report :: "string \<Rightarrow> string" where
  "demo_report captures =
     ''{'' @ dq ''report_since'' @ '':'' @ dq ''1970-01-01T00:00:00Z'' @ '','' @ dq ''captures'' @ '':['' @ captures @ '']}''"

definition demo_capture :: "string \<Rightarrow> string" where
  "demo_capture ref =
     ''{'' @ dq ''reference'' @ '':'' @ dq ref @ '','' @ dq ''captured_at'' @ '':'' @ dq ''1970-01-01T00:00:01Z'' @ '','' @
       dq ''settled'' @ '':1}''"

definition report_env :: "string \<Rightarrow> int env" where
  "report_env captures = demo_env (yes\<lparr>an_get := GetReply 200 (demo_report captures)\<rparr>)"

definition captured_row :: payment_row where
  "captured_row = (demo_row Succeeded Captured)\<lparr>pr_psp_reference := Some ''ref''\<rparr>"

text \<open>
  C37. A run that gets its report, a usable period and the database's rows records the snapshot of
  the specification, as of the instant it compares: mature settled entries that no captured payment within the period has,
  references of captured payments within the period that the report lacks, entries settled more
  than once, and captured payments from before the period; the status follows from the four.
\<close>

theorem reconciliation_counts_drift_both_ways:
  assumes "fetchSettlement env s = (Inr report, s1)" and "Parse_RFC3339 (st_report_since report) = Some since"
    and "fst (db_read env (world s1))"
  shows "Snapshot (reconcile env grace s)
    = report_snapshot (compared_at env s1) since (compared_at env s1 - grace) report (db s)"
  using reconcile_spec [OF assms] by (simp add: Snapshot_def)

definition demo_fetch :: "string \<Rightarrow> (string \<times> string list) option" where
  "demo_fetch captures =
     (case fst (fetchSettlement (report_env captures) (demo_sys [captured_row] 100000000000)) of
        Inl _ \<Rightarrow> None
      | Inr r \<Rightarrow> Some (st_report_since r, map se_reference (st_captures r)))"

lemma demo_fetch: "demo_fetch (demo_capture ''lost'') = Some (''1970-01-01T00:00:00Z'', [''lost''])"
  by code_simp

lemma demo_fetchD:
  assumes "demo_fetch captures = Some (since, refs)"
  obtains report s1
  where "fetchSettlement (report_env captures) (demo_sys [captured_row] 100000000000) = (Inr report, s1)"
    and "st_report_since report = since" and "map se_reference (st_captures report) = refs"
proof -
  obtain a s1 where a: "fetchSettlement (report_env captures) (demo_sys [captured_row] 100000000000) = (a, s1)"
    by fastforce
  from assms have "(case a of Inl _ \<Rightarrow> None
      | Inr r \<Rightarrow> Some (st_report_since r, map se_reference (st_captures r))) = Some (since, refs)"
    by (simp only: demo_fetch_def a fst_conv)
  with a that show thesis by (cases a) simp_all
qed

lemma demo_since: "Parse_RFC3339 ''1970-01-01T00:00:00Z'' = Some 0"
  by code_simp

theorem reconciliation_counts_drift_both_ways_witness:
  "\<exists>now report. map se_reference (st_captures report) = [''lost''] \<and>
     Snapshot (reconcile (report_env (demo_capture ''lost'')) 1000 (demo_sys [captured_row] 100000000000))
       = report_snapshot now 0 (now - 1000) report (db (demo_sys [captured_row] 100000000000))
     \<and> unsettled_references 0 report (db (demo_sys [captured_row] 100000000000)) = {''ref''}"
proof -
  let ?env = "report_env (demo_capture ''lost'')"
  let ?s = "demo_sys [captured_row] 100000000000"
  obtain report s1 where r: "fetchSettlement ?env ?s = (Inr report, s1)"
    "st_report_since report = ''1970-01-01T00:00:00Z''" "map se_reference (st_captures report) = [''lost'']"
    by (rule demo_fetchD [OF demo_fetch])
  have "fst (db_read ?env (world s1))"
    by (simp add: report_env_def demo_env_def)
  moreover have "Parse_RFC3339 (st_report_since report) = Some 0"
    using r(2) demo_since by simp
  ultimately have snap: "Snapshot (reconcile ?env 1000 ?s)
      = report_snapshot (compared_at ?env s1) 0 (compared_at ?env s1 - 1000) report (db ?s)"
    using reconciliation_counts_drift_both_ways [OF r(1)] by blast
  have "unsettled_references 0 report (db ?s) = {''ref''}"
  proof -
    have "se_reference ` set (st_captures report) = {''lost''}"
      using arg_cong [OF r(3), of set] by simp
    then show ?thesis
      by (auto simp: unsettled_references_def booked_as_def demo_sys_def captured_row_def demo_row_def)
  qed
  with snap r(3) show ?thesis
    by (intro exI [of _ "compared_at ?env s1"] exI [of _ report] conjI)
qed

text \<open>
  Reconciliation only detects: whatever it finds, a run changes no table and publishes, calls
  and starts nothing; a report or a database it cannot read gives the status \<open>unavailable\<close>,
  never \<open>clean\<close>.
\<close>

lemma reconciliation_only_detects:
  "db (reconcile env grace s) = db s \<and> calls (reconcile env grace s) = calls s
    \<and> bus (reconcile env grace s) = bus s \<and> spawned (reconcile env grace s) = spawned s
    \<and> produced (reconcile env grace s) = produced s
    \<and> (isl (fst (fetchSettlement env s)) \<longrightarrow> sn_status (Snapshot (reconcile env grace s)) = ''unavailable'')"
proof -
  have "sn_status (Snapshot (reconcile env grace s)) = ''unavailable''"
    if "isl (fst (fetchSettlement env s))"
    using that by (cases "fetchSettlement env s")
      (auto simp: reconcile_def Snapshot_def unavailable_def record_snapshot_def split: sum.splits)
  then show ?thesis
    by (simp add: reconcile_frame)
qed

lemma reconciliation_only_detects_witness:
  "sn_status (Snapshot (reconcile (demo_env yes) 1000 (demo_sys [] 0))) = ''unavailable''"
proof -
  have "isl (fst (fetchSettlement (demo_env yes) (demo_sys [] 0)))"
    by (simp add: fetchSettlement_def ask_def demo_env_def yes_def demo_sys_def)
  with reconciliation_only_detects [of "demo_env yes" 1000 "demo_sys [] 0"] show ?thesis by blast
qed

text \<open>
  C38. A clean snapshot means something: every captured payment that has a processor reference is
  in the report, every mature entry of the report is a captured payment of ours, and nothing was
  settled twice.
\<close>

theorem clean_snapshot_means_books_agree:
  assumes "fetchSettlement env s = (Inr report, s1)" and "Parse_RFC3339 (st_report_since report) = Some since"
    and "fst (db_read env (world s1))" and "sn_status (Snapshot (reconcile env grace s)) = ''clean''"
  shows "(\<forall>r \<in> set (payments (db s)). pr_step r = Captured \<longrightarrow> pr_psp_reference r \<noteq> None \<longrightarrow>
       (\<exists>e \<in> set (st_captures report). pr_psp_reference r = Some (se_reference e)))
    \<and> (\<forall>e \<in> set (st_captures report). se_settled e \<le> 1 \<and> (mature (compared_at env s1 - grace) e \<longrightarrow>
         (\<exists>r \<in> set (payments (db s)). pr_step r = Captured \<and> pr_psp_reference r = Some (se_reference e))))"
proof -
  let ?now = "compared_at env s1"
  have "sn_status (report_snapshot ?now since (?now - grace) report (db s)) = ''clean''"
    using assms(4) reconcile_spec [OF assms(1-3), of grace] by (simp add: Snapshot_def)
  then have none: "unbooked_entries since (?now - grace) report (db s) = []"
    "unsettled_references since report (db s) = {}" "doubled_entries report = []" "uncovered_rows since (db s) = []"
    using finite_unsettled [of since report "db s"] by (simp_all add: report_snapshot_def Let_def status_clean_iff)
  have "\<exists>e \<in> set (st_captures report). pr_psp_reference r = Some (se_reference e)"
    if r: "r \<in> set (payments (db s))" "pr_step r = Captured" "pr_psp_reference r \<noteq> None" for r
  proof -
    obtain ref where ref: "pr_psp_reference r = Some ref" using r(3) by blast
    have "since \<le> pr_updated_at r"
      using none(4) r by (auto simp: uncovered_rows_def booked_row_def filter_empty_conv)
    with r ref have "booked_as since (db s) ref" by (auto simp: booked_as_def)
    with none(2) ref show ?thesis by (auto simp: unsettled_references_def)
  qed
  moreover have "se_settled e \<le> 1" if "e \<in> set (st_captures report)" for e
    using none(3) that by (auto simp: doubled_entries_def filter_empty_conv)
  moreover have "\<exists>r \<in> set (payments (db s)). pr_step r = Captured \<and> pr_psp_reference r = Some (se_reference e)"
    if "e \<in> set (st_captures report)" "mature (?now - grace) e" for e
  proof -
    have "booked_as since (db s) (se_reference e)"
      using none(1) that by (auto simp: unbooked_entries_def filter_empty_conv)
    then show ?thesis by (auto simp: booked_as_def)
  qed
  ultimately show ?thesis by blast
qed

lemma demo_clean:
  "sn_status (Snapshot (reconcile (report_env (demo_capture ''ref'')) 1000 (demo_sys [captured_row] 100000000000))) = ''clean''"
  by code_simp

lemma demo_fetch_ref: "demo_fetch (demo_capture ''ref'') = Some (''1970-01-01T00:00:00Z'', [''ref''])"
  by code_simp

theorem clean_snapshot_means_books_agree_witness:
  "\<exists>report s1. fetchSettlement (report_env (demo_capture ''ref'')) (demo_sys [captured_row] 100000000000) = (Inr report, s1)
    \<and> (\<exists>e \<in> set (st_captures report). pr_psp_reference captured_row = Some (se_reference e))"
proof -
  let ?env = "report_env (demo_capture ''ref'')"
  let ?s = "demo_sys [captured_row] 100000000000"
  obtain report s1 where r: "fetchSettlement ?env ?s = (Inr report, s1)"
    "st_report_since report = ''1970-01-01T00:00:00Z''"
    by (rule demo_fetchD [OF demo_fetch_ref])
  have up: "fst (db_read ?env (world s1))"
    by (simp add: report_env_def demo_env_def)
  have since: "Parse_RFC3339 (st_report_since report) = Some 0"
    using r(2) demo_since by simp
  have agree: "\<forall>r \<in> set (payments (db ?s)). pr_step r = Captured \<longrightarrow> pr_psp_reference r \<noteq> None \<longrightarrow>
       (\<exists>e \<in> set (st_captures report). pr_psp_reference r = Some (se_reference e))"
    using clean_snapshot_means_books_agree [OF r(1) since up demo_clean] by (rule conjunct1)
  have row: "captured_row \<in> set (payments (db ?s))" "pr_step captured_row = Captured"
    "pr_psp_reference captured_row \<noteq> None"
    by (simp_all add: demo_sys_def captured_row_def demo_row_def)
  have "\<exists>e \<in> set (st_captures report). pr_psp_reference captured_row = Some (se_reference e)"
    using bspec [OF agree row(1), THEN mp, OF row(2), THEN mp, OF row(3)] .
  with r(1) show ?thesis
    by (intro exI [of _ report] exI [of _ s1] conjI)
qed

end
