(* ===== verification/Config.thy ===== *)
theory Config
  imports GoText Model Complex_Main "HOL-Library.Log_Nat"
begin

section \<open>Configuration\<close>

text \<open>
  \<open>internal/platform/config.go\<close>: \<open>Load\<close>, \<open>DSN\<close> and the four readers of environment variables,
  with \<open>time.ParseDuration\<close>. The environment of the process is a function from names to values,
  the empty string for a variable that is not set.
\<close>

subsection \<open>Binary floating point\<close>

text \<open>
  \<open>ParseDuration\<close> computes fractions in \<open>float64\<close>. The values are positive and far from the ends
  of the range, so a result is the exact one rounded to 53 bits, ties to even.
\<close>

definition round_half_even :: "rat \<Rightarrow> int" where
  "round_half_even x =
     (let f = \<lfloor>x\<rfloor>; d = x - of_int f
      in if d < 1 / 2 \<or> d = 1 / 2 \<and> even f then f else f + 1)"

definition binary_exponent :: "rat \<Rightarrow> int" where
  "binary_exponent x =
     (case quotient_of x of (p, q) \<Rightarrow>
        (let c = bitlen p - bitlen q in if 2 powi c \<le> x then c else c - 1))"

definition to_float64 :: "rat \<Rightarrow> rat" where
  "to_float64 x =
     (if x = 0 then 0
      else (let u = 2 powi (binary_exponent x - 52) in of_int (round_half_even (x / u)) * u))"

subsection \<open>\<open>time.ParseDuration\<close>\<close>

text \<open>The digits at the front of a text as a number: an error once it exceeds \<open>2 ^ 63\<close>.\<close>

fun leading_int :: "nat \<Rightarrow> string \<Rightarrow> (nat \<times> string) option" where
  "leading_int x [] = Some (x, [])"
| "leading_int x (c # cs) =
     (case digit_val c of
        None \<Rightarrow> Some (x, c # cs)
      | Some d \<Rightarrow>
          (if 2 ^ 63 div 10 < x \<or> 2 ^ 63 < 10 * x + d then None else leading_int (10 * x + d) cs))"

text \<open>The digits after the point: their value, the power of ten, and digits beyond the range dropped.\<close>

fun leading_fraction :: "bool \<Rightarrow> nat \<Rightarrow> nat \<Rightarrow> string \<Rightarrow> nat \<times> nat \<times> string" where
  "leading_fraction full x scale [] = (x, scale, [])"
| "leading_fraction full x scale (c # cs) =
     (case digit_val c of
        None \<Rightarrow> (x, scale, c # cs)
      | Some d \<Rightarrow>
          (if full \<or> (2 ^ 63 - 1) div 10 < x \<or> 2 ^ 63 < 10 * x + d then leading_fraction True x scale cs
           else leading_fraction False (10 * x + d) (10 * scale) cs))"

definition duration_units :: "(string \<times> nat) list" where
  "duration_units =
     [(''ns'', 1), (''us'', 1000), (map char_of [0xC2, 0xB5 :: nat] @ ''s'', 1000),
      (map char_of [0xCE, 0xBC :: nat] @ ''s'', 1000), (''ms'', 1000000), (''s'', 1000000000),
      (''m'', 60000000000), (''h'', 3600000000000)]"

definition starts_number :: "char \<Rightarrow> bool" where
  "starts_number c \<longleftrightarrow> c = CHR ''.'' \<or> digit_val c \<noteq> None"

definition fraction_part :: "nat \<Rightarrow> nat \<Rightarrow> nat \<Rightarrow> nat" where
  "fraction_part f scale unit =
     (if 0 < f then nat \<lfloor>to_float64 (to_float64 (of_nat f) * to_float64 (of_nat unit / of_nat scale))\<rfloor>
      else 0)"

text \<open>One number with its unit: its nanoseconds and the rest of the text.\<close>

definition duration_term :: "string \<Rightarrow> (nat \<times> string) option" where
  "duration_term s =
     (case s of
        [] \<Rightarrow> None
      | c # _ \<Rightarrow>
          (if \<not> starts_number c then None
           else
             (case leading_int 0 s of
                None \<Rightarrow> None
              | Some (v, s1) \<Rightarrow>
                  (let point = (s1 \<noteq> [] \<and> hd s1 = CHR ''.'');
                       (f, scale, s2) = (if point then leading_fraction False 0 1 (tl s1) else (0, 1, s1));
                       pre = (length s1 < length s);
                       post = (point \<and> length s2 < length (tl s1));
                       u = takeWhile (\<lambda>c. \<not> starts_number c) s2
                   in if \<not> pre \<and> \<not> post then None
                      else
                        (case map_of duration_units u of
                           None \<Rightarrow> None
                         | Some unit \<Rightarrow>
                             (if 2 ^ 63 div unit < v then None
                              else
                                (let w = v * unit + fraction_part f scale unit
                                 in if 0 < f \<and> 2 ^ 63 < w then None else Some (w, drop (length u) s2))))))))"

text \<open>The loop over the terms; each consumes a character, so the length is fuel enough
  (\<open>duration_terms_fuel\<close>). The sum is a \<open>uint64\<close>.\<close>

fun duration_terms :: "nat \<Rightarrow> nat \<Rightarrow> string \<Rightarrow> nat option" where
  "duration_terms 0 d s = (if s = [] then Some d else None)"
| "duration_terms (Suc n) d s =
     (if s = [] then Some d
      else
        (case duration_term s of
           None \<Rightarrow> None
         | Some (v, r) \<Rightarrow>
             (let e = (d + v) mod 2 ^ 64 in if 2 ^ 63 < e then None else duration_terms n e r)))"

definition ParseDuration :: "string \<Rightarrow> duration option" where
  "ParseDuration s =
     (let sign = (s \<noteq> [] \<and> (hd s = CHR ''-'' \<or> hd s = CHR ''+''));
          neg = (s \<noteq> [] \<and> hd s = CHR ''-'');
          t = (if sign then tl s else s)
      in if t = ''0'' then Some 0
         else if t = [] then None
         else
           (case duration_terms (length t) 0 t of
              None \<Rightarrow> None
            | Some d \<Rightarrow>
                (if neg then Some (- int d) else if 2 ^ 63 - 1 < d then None else Some (int d))))"

subsection \<open>Reading the environment\<close>

definition getenv :: "(string \<Rightarrow> string) \<Rightarrow> string \<Rightarrow> string \<Rightarrow> string" where
  "getenv os key def = (let v = os key in if v \<noteq> [] then v else def)"

definition getint :: "(string \<Rightarrow> string) \<Rightarrow> string \<Rightarrow> int \<Rightarrow> int" where
  "getint os key def =
     (let v = os key
      in if v \<noteq> [] then (case ParseInt v of Some n \<Rightarrow> n | None \<Rightarrow> def) else def)"

definition getint64 :: "(string \<Rightarrow> string) \<Rightarrow> string \<Rightarrow> int \<Rightarrow> int" where
  "getint64 os key def =
     (let v = os key
      in if v \<noteq> [] then (case ParseInt v of Some n \<Rightarrow> n | None \<Rightarrow> def) else def)"

definition getdur :: "(string \<Rightarrow> string) \<Rightarrow> string \<Rightarrow> duration \<Rightarrow> duration" where
  "getdur os key def =
     (let v = os key
      in if v \<noteq> [] then (case ParseDuration v of Some d \<Rightarrow> d | None \<Rightarrow> def) else def)"

record config =
  DBHost :: string
  DBPort :: int
  DBUser :: string
  DBPassword :: string
  DBName :: string
  KafkaBootstrap :: string
  SchemaRegistryURL :: string
  JWKSURL :: string
  AccountGRPCAddr :: string
  FraudGRPCAddr :: string
  MockPSPBaseURL :: string
  HTTPPort :: int
  FraudDeadline :: duration
  FraudFailOpenLimit :: int
  FxQuoteTTL :: duration
  ResumeInterval :: duration
  WalletTimeout :: duration
  StepUpAmountLimit :: int
  StepUpMaxAge :: duration
  RequiresActionTimeout :: duration
  GatewaySubmitTimeout :: duration
  GatewayCaptureTimeout :: duration
  ReconcileInterval :: duration
  ReconcileGrace :: duration

definition minutes :: "int \<Rightarrow> duration" where
  "minutes n = seconds (60 * n)"

definition settings_of :: "(string \<Rightarrow> string) \<Rightarrow> config" where
  "settings_of os =
     \<lparr>DBHost = getenv os ''PAYMENT_DB_HOST'' ''payment-db'',
      DBPort = getint os ''PAYMENT_DB_PORT'' 5432,
      DBUser = os ''PAYMENT_DB_USER'',
      DBPassword = os ''PAYMENT_DB_PASSWORD'',
      DBName = os ''PAYMENT_DB_NAME'',
      KafkaBootstrap = getenv os ''KAFKA_BOOTSTRAP_SERVERS'' ''kafka:19092'',
      SchemaRegistryURL = getenv os ''SCHEMA_REGISTRY_URL'' ''http://apicurio-registry:8080/apis/ccompat/v7'',
      JWKSURL = getenv os ''GATEWAY_JWKS_URL'' ''http://user-service:8080/.well-known/jwks.json'',
      AccountGRPCAddr = getenv os ''ACCOUNT_GRPC_ADDR'' ''account-service:9090'',
      FraudGRPCAddr = getenv os ''FRAUD_GRPC_ADDR'' ''fraud-service:9090'',
      MockPSPBaseURL = getenv os ''MOCK_PSP_BASE_URL'' ''http://mock-psp:8080'',
      HTTPPort = getint os ''HTTP_PORT'' 8080,
      FraudDeadline = getdur os ''FRAUD_DEADLINE'' 150000000,
      FraudFailOpenLimit = getint64 os ''FRAUD_FAIL_OPEN_LIMIT'' 5000,
      FxQuoteTTL = getdur os ''FX_QUOTE_TTL'' (seconds 90),
      ResumeInterval = getdur os ''SAGA_RESUME_INTERVAL'' (seconds 15),
      WalletTimeout = getdur os ''WALLET_RESULT_TIMEOUT'' (minutes 10),
      StepUpAmountLimit = getint64 os ''STEPUP_AMOUNT_LIMIT'' 100000,
      StepUpMaxAge = getdur os ''STEPUP_MAX_AGE'' (minutes 15),
      RequiresActionTimeout = getdur os ''REQUIRES_ACTION_TIMEOUT'' (minutes 15),
      GatewaySubmitTimeout = getdur os ''GATEWAY_SUBMIT_TIMEOUT'' (minutes 5),
      GatewayCaptureTimeout = getdur os ''GATEWAY_CAPTURE_TIMEOUT'' (minutes 5),
      ReconcileInterval = getdur os ''RECONCILE_INTERVAL'' (seconds 60),
      ReconcileGrace = getdur os ''RECONCILE_GRACE'' (seconds 60)\<rparr>"

definition Load :: "(string \<Rightarrow> string) \<Rightarrow> string + config" where
  "Load os =
     (let cfg = settings_of os
      in if DBUser cfg = [] \<or> DBPassword cfg = [] \<or> DBName cfg = []
         then Inl ''PAYMENT_DB_USER/PASSWORD/NAME are required'' else Inr cfg)"

definition DSN :: "config \<Rightarrow> string" where
  "DSN c =
     ''postgres://'' @ DBUser c @ '':'' @ DBPassword c @ ''@'' @ DBHost c @ '':'' @ show_int (DBPort c)
       @ ''/'' @ DBName c @ ''?sslmode=disable''"

subsection \<open>Lemmas\<close>

lemma Load_InrD:
  "Load os = Inr cfg \<Longrightarrow> cfg = settings_of os \<and> DBUser cfg \<noteq> [] \<and> DBPassword cfg \<noteq> [] \<and> DBName cfg \<noteq> []"
  by (auto simp: Load_def Let_def split: if_splits)

lemma leading_int_suffix: "leading_int x s = Some (n, r) \<Longrightarrow> length r \<le> length s"
  by (induction x s rule: leading_int.induct) (auto split: option.splits if_splits)

lemma leading_fraction_suffix: "leading_fraction full x sc s = (f, sc', r) \<Longrightarrow> length r \<le> length s"
  by (induction full x sc s rule: leading_fraction.induct) (auto split: option.splits if_splits)

lemma duration_term_consumes: "duration_term s = Some (v, r) \<Longrightarrow> length r < length s"
  by (auto simp: duration_term_def Let_def split: list.splits option.splits if_splits prod.splits
      dest!: leading_int_suffix leading_fraction_suffix)

lemma duration_terms_fuel:
  "length s \<le> n \<Longrightarrow> length s \<le> m \<Longrightarrow> duration_terms n d s = duration_terms m d s"
proof (induction n d s arbitrary: m rule: duration_terms.induct)
  case (1 d s)
  then show ?case by (cases m) simp_all
next
  case (2 n d s)
  show ?case
  proof (cases m)
    case 0
    with 2 show ?thesis by simp
  next
    case (Suc k)
    show ?thesis
    proof (cases "s = [] \<or> duration_term s = None")
      case False
      then obtain v r where t: "s \<noteq> []" "duration_term s = Some (v, r)" by auto
      from duration_term_consumes [OF t(2)] 2(2,3) Suc have len: "length r \<le> n" "length r \<le> k" by simp_all
      have "duration_terms n e r = duration_terms k e r" if "e = (d + v) mod 2 ^ 64" "\<not> 2 ^ 63 < e" for e
        using 2(1) [OF t(1,2) _ that(1,2) len] by simp
      with t Suc show ?thesis by (simp add: Let_def)
    qed (use Suc in auto)
  qed
qed

end
