(* ===== verification/ConfigProperties.thy ===== *)
theory ConfigProperties
  imports Config
begin

section \<open>Properties of the configuration\<close>

text \<open>What an operator may rely on when setting a limit or an interval.\<close>

lemma parse_digits_mono: "parse_digits x ds = Some n \<Longrightarrow> x \<le> n"
  by (induction x ds rule: parse_digits.induct) (auto split: option.splits)

lemma leading_int_digits:
  assumes "parse_digits x ds = Some n" and "n \<le> 2 ^ 63" and "c # cs = rest" and "digit_val c = None"
  shows "leading_int x (ds @ rest) = Some (n, rest)"
  using assms
proof (induction x ds rule: parse_digits.induct)
  case (2 acc d ds)
  then obtain v where v: "digit_val d = Some v" "parse_digits (10 * acc + v) ds = Some n"
    by (auto split: option.splits)
  from parse_digits_mono [OF v(2)] 2(3) have "10 * acc + v \<le> 2 ^ 63" by simp
  then have "acc \<le> 2 ^ 63 div 10" by simp
  with 2(1) [OF v(1) v(2) assms(2-4)] v(1) \<open>10 * acc + v \<le> 2 ^ 63\<close> show ?case
    by (simp add: not_less)
qed auto

lemma show_nat_first: "\<exists>c cs v. show_nat n = c # cs \<and> digit_val c = Some v"
  using show_nat_digits [of "hd (show_nat n)" n] show_nat_not_empty [of n]
  by (cases "show_nat n") auto

lemma ParseDuration_seconds:
  assumes "int n * 1000000000 < 2 ^ 63"
  shows "ParseDuration (show_nat n @ ''s'') = Some (seconds (int n))"
proof -
  let ?t = "show_nat n @ ''s''"
  have n: "n \<le> 9223372036" using assms by simp
  obtain c cs v where c: "show_nat n = c # cs" "digit_val c = Some v"
    using show_nat_first by blast
  have s: "digit_val CHR ''s'' = None" "digit_val CHR ''-'' = None" "digit_val CHR ''+'' = None"
    by (simp_all add: digit_val_def)
  have "leading_int 0 ?t = Some (n, ''s'')"
    using leading_int_digits [OF parse_digits_show_nat [of n]] n s(1) by simp
  moreover have "9223372036 = (2 ^ 63 div 1000000000 :: nat)" by simp
  ultimately have "duration_term ?t = Some (n * 1000000000, [])"
    using n c(2) s(1)
    by (simp add: duration_term_def c(1) starts_number_def duration_units_def fraction_part_def Let_def)
  moreover have "n * 1000000000 \<le> 2 ^ 63 - 1" using n by simp
  ultimately have "duration_terms (length ?t) 0 ?t = Some (n * 1000000000)"
    by (simp add: c(1) Let_def)
  moreover have "?t \<noteq> ''0''" "c \<noteq> CHR ''-''" "c \<noteq> CHR ''+''"
    using c s by (auto simp: c(1))
  ultimately show ?thesis
    using \<open>n * 1000000000 \<le> 2 ^ 63 - 1\<close> by (simp add: ParseDuration_def c(1) Let_def seconds_def)
qed

text \<open>The duration and the integer settings: variable, field, default.\<close>

definition duration_settings :: "(string \<times> (config \<Rightarrow> duration) \<times> duration) list" where
  "duration_settings =
     [(''FRAUD_DEADLINE'', FraudDeadline, 150000000), (''FX_QUOTE_TTL'', FxQuoteTTL, seconds 90),
      (''SAGA_RESUME_INTERVAL'', ResumeInterval, seconds 15), (''WALLET_RESULT_TIMEOUT'', WalletTimeout, minutes 10),
      (''STEPUP_MAX_AGE'', StepUpMaxAge, minutes 15),
      (''REQUIRES_ACTION_TIMEOUT'', RequiresActionTimeout, minutes 15),
      (''GATEWAY_SUBMIT_TIMEOUT'', GatewaySubmitTimeout, minutes 5),
      (''GATEWAY_CAPTURE_TIMEOUT'', GatewayCaptureTimeout, minutes 5),
      (''RECONCILE_INTERVAL'', ReconcileInterval, seconds 60), (''RECONCILE_GRACE'', ReconcileGrace, seconds 60)]"

definition integer_settings :: "(string \<times> (config \<Rightarrow> int) \<times> int) list" where
  "integer_settings =
     [(''PAYMENT_DB_PORT'', DBPort, 5432), (''HTTP_PORT'', HTTPPort, 8080),
      (''FRAUD_FAIL_OPEN_LIMIT'', FraudFailOpenLimit, 5000), (''STEPUP_AMOUNT_LIMIT'', StepUpAmountLimit, 100000)]"

lemma settings_durations:
  "list_all (\<lambda>(key, field, def). field (settings_of os) = getdur os key def) duration_settings"
  by (simp add: duration_settings_def settings_of_def)

lemma settings_integers:
  "list_all (\<lambda>(key, field, def). field (settings_of os) = getint64 os key def) integer_settings"
  by (simp add: integer_settings_def settings_of_def getint_def getint64_def)

lemma getdur_default: "os key = [] \<or> ParseDuration (os key) = None \<Longrightarrow> getdur os key def = def"
  by (auto simp: getdur_def Let_def)

lemma getint64_default: "os key = [] \<or> ParseInt (os key) = None \<Longrightarrow> getint64 os key def = def"
  by (auto simp: getint64_def Let_def)

lemma getdur_seconds:
  assumes "os key = show_nat n @ ''s''" and "int n * 1000000000 < 2 ^ 63"
  shows "getdur os key def = seconds (int n)"
  using ParseDuration_seconds [OF assms(2)] assms(1) by (simp add: getdur_def)

lemma getint64_shown:
  assumes "os key = show_int i" and "- (2 ^ 63) \<le> i" and "i < 2 ^ 63"
  shows "getint64 os key def = i"
proof -
  have "show_int i \<noteq> []" by (simp add: show_int_def)
  with ParseInt_show_int [OF assms(2,3)] assms(1) show ?thesis by (simp add: getint64_def)
qed

text \<open>
  When the configuration loads, every limit and timeout is what its variable says: a whole
  number of seconds, or an integer of 64 bits, is read back exactly, and a variable that is not
  set or does not parse leaves the documented default in force.
\<close>

lemma settings_are_read_or_default:
  assumes "Load os = Inr cfg"
  shows "(\<forall>(key, field, def) \<in> set duration_settings.
      (\<forall>n. os key = show_nat n @ ''s'' \<and> int n * 1000000000 < 2 ^ 63 \<longrightarrow> field cfg = seconds (int n))
      \<and> (os key = [] \<or> ParseDuration (os key) = None \<longrightarrow> field cfg = def))
    \<and> (\<forall>(key, field, def) \<in> set integer_settings.
      (\<forall>i. os key = show_int i \<and> - (2 ^ 63) \<le> i \<and> i < 2 ^ 63 \<longrightarrow> field cfg = i)
      \<and> (os key = [] \<or> ParseInt (os key) = None \<longrightarrow> field cfg = def))
    \<and> DBUser cfg \<noteq> [] \<and> DBPassword cfg \<noteq> [] \<and> DBName cfg \<noteq> []"
proof (intro conjI)
  note cfg = Load_InrD [OF assms]
  show "DBUser cfg \<noteq> []" "DBPassword cfg \<noteq> []" "DBName cfg \<noteq> []"
    using cfg by blast+
  have "\<forall>(key, field, def) \<in> set duration_settings. field cfg = getdur os key def"
    using settings_durations [of os] cfg by (simp add: list_all_iff)
  then show "\<forall>(key, field, def) \<in> set duration_settings.
      (\<forall>n. os key = show_nat n @ ''s'' \<and> int n * 1000000000 < 2 ^ 63 \<longrightarrow> field cfg = seconds (int n))
      \<and> (os key = [] \<or> ParseDuration (os key) = None \<longrightarrow> field cfg = def)"
    using getdur_seconds getdur_default by (auto 0 3)
  have "\<forall>(key, field, def) \<in> set integer_settings. field cfg = getint64 os key def"
    using settings_integers [of os] cfg by (simp add: list_all_iff)
  then show "\<forall>(key, field, def) \<in> set integer_settings.
      (\<forall>i. os key = show_int i \<and> - (2 ^ 63) \<le> i \<and> i < 2 ^ 63 \<longrightarrow> field cfg = i)
      \<and> (os key = [] \<or> ParseInt (os key) = None \<longrightarrow> field cfg = def)"
    using getint64_shown getint64_default by (auto 0 3)
qed

definition demo_os :: "string \<Rightarrow> string" where
  "demo_os = (\<lambda>_. [])(''PAYMENT_DB_USER'' := ''u'', ''PAYMENT_DB_PASSWORD'' := ''p'',
     ''PAYMENT_DB_NAME'' := ''d'', ''STEPUP_MAX_AGE'' := ''60s'', ''SAGA_RESUME_INTERVAL'' := ''0s'')"

lemma demo_os_values:
  "demo_os ''PAYMENT_DB_USER'' = ''u''" "demo_os ''PAYMENT_DB_PASSWORD'' = ''p''" "demo_os ''PAYMENT_DB_NAME'' = ''d''"
  "demo_os ''STEPUP_MAX_AGE'' = ''60s''" "demo_os ''SAGA_RESUME_INTERVAL'' = ''0s''" "demo_os ''HTTP_PORT'' = []"
  by (simp_all add: demo_os_def)

lemma demo_os_loads: "Load demo_os = Inr (settings_of demo_os)"
  by (simp add: Load_def Let_def settings_of_def demo_os_values)

lemma settings_are_read_or_default_witness:
  "StepUpMaxAge (settings_of demo_os) = seconds 60 \<and> HTTPPort (settings_of demo_os) = 8080"
proof
  note all = settings_are_read_or_default [OF demo_os_loads]
  have sixty: "demo_os ''STEPUP_MAX_AGE'' = show_nat 60 @ ''s''"
    unfolding demo_os_values by code_simp
  have "(''STEPUP_MAX_AGE'', StepUpMaxAge, minutes 15) \<in> set duration_settings"
    by (simp add: duration_settings_def)
  from bspec [OF conjunct1 [OF all] this]
  have "demo_os ''STEPUP_MAX_AGE'' = show_nat n @ ''s'' \<and> int n * 1000000000 < 2 ^ 63
      \<longrightarrow> StepUpMaxAge (settings_of demo_os) = seconds (int n)" for n by blast
  from mp [OF this [of 60]] sixty show "StepUpMaxAge (settings_of demo_os) = seconds 60" by simp
  have "(''HTTP_PORT'', HTTPPort, 8080) \<in> set integer_settings"
    by (simp add: integer_settings_def)
  from bspec [OF conjunct1 [OF conjunct2 [OF all]] this, unfolded prod.case] demo_os_values(6)
  show "HTTPPort (settings_of demo_os) = 8080" by (simp only: simp_thms)
qed

end
