(* ===== verification/Process.thy ===== *)
theory Process
  imports ConfigProperties "HOL-Library.Sublist"
begin

section \<open>The process\<close>

text \<open>
  \<open>cmd/server/main.go\<close>: how the service starts, in which order, what it starts and what it does
  when something is missing; how it stops and what it closes; the migrations; the health probe of the container; and the list of brokers. With
  \<open>New\<close> of \<open>internal/gatewayauth/gatewayauth.go\<close>, which waits for the gateway's keys. The outside
  of the process is a record of calls on a state of its own.
\<close>

subsection \<open>The list of brokers\<close>

text \<open>\<open>splitCSV\<close>: the loop over the bytes, with the bytes since the last comma.\<close>

fun split_loop :: "string \<Rightarrow> string \<Rightarrow> string list \<Rightarrow> string list" where
  "split_loop cur [] out = (if cur \<noteq> [] then out @ [cur] else out)"
| "split_loop cur (c # cs) out =
     (if c = CHR '','' then split_loop [] cs (if cur \<noteq> [] then out @ [cur] else out)
      else split_loop (cur @ [c]) cs out)"

definition splitCSV :: "string \<Rightarrow> string list" where
  "splitCSV s = split_loop [] s []"

subsection \<open>Workers\<close>

text \<open>
  The goroutines of \<open>run\<close>. \<open>every\<close> makes a ticker, which panics for an interval that is not
  positive; a panic in a goroutine ends the process.
\<close>

datatype job =
    JobResume duration
  | JobWallets duration
  | JobRequiresAction duration
  | JobSubmissions duration
  | JobCaptures duration
  | JobAlert duration
  | JobReconcile duration
  | JobPurge

datatype goroutine =
    RelayRun
  | ConsumerRun
  | Every duration job
  | ReconcileOnce duration
  | ListenAndServe int

definition workers :: "config \<Rightarrow> goroutine list" where
  "workers c =
     [Every (ResumeInterval c) (JobResume (seconds 30)),
      Every (ResumeInterval c) (JobWallets (WalletTimeout c)),
      Every (ResumeInterval c) (JobRequiresAction (RequiresActionTimeout c)),
      Every (ResumeInterval c) (JobSubmissions (GatewaySubmitTimeout c)),
      Every (ResumeInterval c) (JobCaptures (GatewayCaptureTimeout c)),
      Every (minutes 1) (JobAlert (minutes 2)),
      Every (ReconcileInterval c) (JobReconcile (ReconcileGrace c)),
      ReconcileOnce (ReconcileGrace c),
      Every (minutes 60) JobPurge]"

fun panics :: "goroutine \<Rightarrow> bool" where
  "panics (Every interval _) = (interval \<le> 0)"
| "panics _ = False"

text \<open>\<open>every\<close>: the job runs once per tick until the context is done; \<open>None\<close> is the panic.\<close>

datatype tick = Tick | CtxDone

fun every_loop :: "('s \<Rightarrow> 's) \<Rightarrow> tick list \<Rightarrow> 's \<Rightarrow> 's" where
  "every_loop fn [] s = s"
| "every_loop fn (CtxDone # ts) s = s"
| "every_loop fn (Tick # ts) s = every_loop fn ts (fn s)"

definition every :: "duration \<Rightarrow> ('s \<Rightarrow> 's) \<Rightarrow> tick list \<Rightarrow> 's \<Rightarrow> 's option" where
  "every interval fn ts s = (if interval \<le> 0 then None else Some (every_loop fn ts s))"

subsection \<open>Waiting for the gateway's keys\<close>

datatype resource = SignalCtx | Pool | SqlDB | Producer | ConsumerClient

record 'p outside =
  open_pool :: "string \<Rightarrow> 'p \<Rightarrow> string option \<times> 'p"
  open_sql :: "string \<Rightarrow> 'p \<Rightarrow> string option \<times> 'p"
  new_locker :: "'p \<Rightarrow> string option \<times> 'p"
  sub_migrations :: "'p \<Rightarrow> string option \<times> 'p"
  new_provider :: "'p \<Rightarrow> string option \<times> 'p"
  provider_up :: "'p \<Rightarrow> string option \<times> 'p"
  new_client :: "string list \<Rightarrow> 'p \<Rightarrow> string option \<times> 'p"
  dial_fraud :: "string \<Rightarrow> 'p \<Rightarrow> string option \<times> 'p"
  dial_account :: "string \<Rightarrow> 'p \<Rightarrow> string option \<times> 'p"
  load_jwks :: "string \<Rightarrow> 'p \<Rightarrow> string option \<times> 'p"
  wait_2s :: "'p \<Rightarrow> string option \<times> 'p"
  wait_signal :: "'p \<Rightarrow> 'p"
  shutdown_http :: "'p \<Rightarrow> string option \<times> 'p"
  close :: "resource \<Rightarrow> 'p \<Rightarrow> 'p"

text \<open>\<open>New\<close>: ten attempts, two seconds apart; an error of the wait is the end of the context.\<close>

fun new_attempts :: "'p outside \<Rightarrow> string \<Rightarrow> nat \<Rightarrow> string \<Rightarrow> 'p \<Rightarrow> string option \<times> 'p" where
  "new_attempts o1 url 0 last_err w = (Some (''gateway JWKS unreachable after retries: '' @ last_err), w)"
| "new_attempts o1 url (Suc n) last_err w =
     (case load_jwks o1 url w of
        (None, w1) \<Rightarrow> (None, w1)
      | (Some e, w1) \<Rightarrow>
          (case wait_2s o1 w1 of
             (Some c, w2) \<Rightarrow> (Some c, w2)
           | (None, w2) \<Rightarrow> new_attempts o1 url n e w2))"

definition new_verifier :: "'p outside \<Rightarrow> string \<Rightarrow> 'p \<Rightarrow> string option \<times> 'p" where
  "new_verifier o1 url w = new_attempts o1 url 10 [] w"

subsection \<open>Migrating\<close>

fun try_all :: "('p \<Rightarrow> string option \<times> 'p) list \<Rightarrow> 'p \<Rightarrow> string option \<times> 'p" where
  "try_all [] w = (None, w)"
| "try_all (f # fs) w =
     (case f w of
        (Some e, w1) \<Rightarrow> (Some e, w1)
      | (None, w1) \<Rightarrow> try_all fs w1)"

text \<open>\<open>migrate\<close>: a connection of its own, closed whatever happens to the migrations.\<close>

definition migrate :: "'p outside \<Rightarrow> string \<Rightarrow> 'p \<Rightarrow> string option \<times> 'p" where
  "migrate o1 dsn w =
     (case open_sql o1 dsn w of
        (Some e, w1) \<Rightarrow> (Some e, w1)
      | (None, w1) \<Rightarrow>
          (case try_all [new_locker o1, sub_migrations o1, new_provider o1, provider_up o1] w1 of
             (r, w2) \<Rightarrow> (r, close o1 SqlDB w2)))"

subsection \<open>Starting and stopping\<close>

text \<open>
  \<open>run\<close> is a sequence of calls that may fail, each with the prefix its error gets, of goroutines
  started between them, and of what is to be closed when \<open>run\<close> returns, the last one first.
\<close>

datatype 'p boot = Check string "'p \<Rightarrow> string option \<times> 'p" | Go "goroutine list" | Defer resource

fun boot_all :: "'p boot list \<Rightarrow> goroutine list \<Rightarrow> resource list \<Rightarrow> 'p
    \<Rightarrow> string option \<times> goroutine list \<times> resource list \<times> 'p" where
  "boot_all [] gs ds w = (None, gs, ds, w)"
| "boot_all (Check pre f # bs) gs ds w =
     (case f w of
        (Some e, w1) \<Rightarrow> (Some (pre @ e), gs, ds, w1)
      | (None, w1) \<Rightarrow> boot_all bs gs ds w1)"
| "boot_all (Go g # bs) gs ds w = boot_all bs (gs @ g) ds w"
| "boot_all (Defer r # bs) gs ds w = boot_all bs gs (r # ds) w"

definition boot_plan :: "'p outside \<Rightarrow> config \<Rightarrow> 'p boot list" where
  "boot_plan o1 cfg =
     [Check ''pgx pool: '' (open_pool o1 (DSN cfg)),
      Defer Pool,
      Check ''migrations: '' (migrate o1 (DSN cfg)),
      Check ''kafka producer: '' (new_client o1 (splitCSV (KafkaBootstrap cfg))),
      Defer Producer,
      Go [RelayRun],
      Check ''fraud client: '' (dial_fraud o1 (FraudGRPCAddr cfg)),
      Check ''account client: '' (dial_account o1 (AccountGRPCAddr cfg)),
      Check ''kafka consumer: '' (new_client o1 (splitCSV (KafkaBootstrap cfg))),
      Defer ConsumerClient,
      Go [ConsumerRun],
      Go (workers cfg),
      Check ''gateway auth verifier: '' (new_verifier o1 (JWKSURL cfg)),
      Go [ListenAndServe (HTTPPort cfg)]]"

text \<open>The start: an error or none, what was started, what is to be closed.\<close>

definition start_up :: "(string \<Rightarrow> string) \<Rightarrow> 'p outside \<Rightarrow> 'p
    \<Rightarrow> string option \<times> goroutine list \<times> resource list \<times> 'p" where
  "start_up os o1 w =
     (case Load os of
        Inl e \<Rightarrow> (Some e, [], [SignalCtx], w)
      | Inr cfg \<Rightarrow> boot_all (boot_plan o1 cfg) [] [SignalCtx] w)"

text \<open>
  \<open>run\<close>: the error it returns, what it had started, and the outside when it has returned. After a
  start without an error it waits for the signal, then shuts the server down, whatever that says.
\<close>

definition run :: "(string \<Rightarrow> string) \<Rightarrow> 'p outside \<Rightarrow> 'p \<Rightarrow> string option \<times> goroutine list \<times> 'p" where
  "run os o1 w =
     (case start_up os o1 w of
        (Some e, gs, ds, w1) \<Rightarrow> (Some e, gs, fold (close o1) ds w1)
      | (None, gs, ds, w1) \<Rightarrow>
          (None, gs, fold (close o1) ds (snd (shutdown_http o1 (wait_signal o1 w1)))))"


subsection \<open>The health probe\<close>

text \<open>\<open>get\<close> is the request of the probe: an error, or the status code.\<close>

definition probe_url :: "(string \<Rightarrow> string) \<Rightarrow> string" where
  "probe_url os =
     (let port = os ''HTTP_PORT''
      in ''http://localhost:'' @ (if port = [] then ''8080'' else port) @ ''/health/ready'')"

definition selfProbe :: "(string \<Rightarrow> string) \<Rightarrow> (string \<Rightarrow> string + int) \<Rightarrow> int" where
  "selfProbe os get =
     (case get (probe_url os) of
        Inl _ \<Rightarrow> 1
      | Inr code \<Rightarrow> (if code \<noteq> 200 then 1 else 0))"

text \<open>\<open>main\<close>: the exit status.\<close>

definition main :: "string list \<Rightarrow> (string \<Rightarrow> string) \<Rightarrow> (string \<Rightarrow> string + int) \<Rightarrow> 'p outside \<Rightarrow> 'p \<Rightarrow> int" where
  "main args os get o1 w =
     (if 1 < length args \<and> args ! 1 = ''healthcheck'' then selfProbe os get
      else (case run os o1 w of (Some _, _, _) \<Rightarrow> 1 | (None, _, _) \<Rightarrow> 0))"

subsection \<open>Properties\<close>

lemma splitCSV_filter: "split_loop cur s out = out @ filter (\<lambda>w. w \<noteq> []) (split_on CHR '','' (cur @ s))"
  if "CHR '','' \<notin> set cur"
  using that
proof (induction cur s out rule: split_loop.induct)
  case (1 cur out)
  then show ?case by (simp add: split_on_no_sep)
next
  case (2 cur c cs out)
  then show ?case by (simp add: split_on_append_sep)
qed

text \<open>
  The loop over the bytes is the reference splitting: the non-empty parts between commas, in
  order, for the producer's brokers as for the consumer's.
\<close>

lemma splitCSV_is_split_without_empties:
  "splitCSV s = filter (\<lambda>w. w \<noteq> []) (split_on CHR '','' s)"
  using splitCSV_filter [of "[]" s "[]"] by (simp add: splitCSV_def)



lemma every_panics: "every interval fn ts s = None \<longleftrightarrow> panics (Every interval j)"
  by (simp add: every_def)






end
