(* ===== verification/Service.thy ===== *)
theory Service
  imports EndToEnd StreamProperties EventProperties ReconcileProperties Process
begin

section \<open>The whole service\<close>

text \<open>
  The running program: the state of \<open>sys\<close>, whose \<open>spawned\<close> is the list of the goroutines that were
  started and have not run yet, moved by every entry point \<open>cmd/server/main.go\<close> wires up: a request
  through the middleware, a started driver, a tick of a worker, some ticks of the relay, some turns of
  the consumer; and by what happens to it: time passes, and the process dies and is started again.
  Each is one step here and a sequence of steps of \<open>conf_step\<close>, which also interleaves them piece by
  piece.
\<close>

subsection \<open>The workers' jobs\<close>





subsection \<open>A step of the service\<close>



subsection \<open>Each entry point as steps of the interleaved model\<close>

text \<open>Work done by a worker that starts no goroutine, whatever tasks there are.\<close>

definition works :: "'w env \<Rightarrow> 'w sys \<Rightarrow> 'w sys \<Rightarrow> bool" where
  "works env s s' \<longleftrightarrow> spawned s' = spawned s \<and> (\<forall>ts. (conf_step env)\<^sup>*\<^sup>* (ts, s) (ts, s'))"


lemma works_refl [simp]: "works env s s"
  by (simp add: works_def)





text \<open>One task run to its end at the front of the others.\<close>

lemma run_front:
  "run_task env t s = (new, s') \<Longrightarrow> conf_step env (ts @ t # us, s) (ts @ new @ us, s')"
  by (rule conf_step.run)












subsection \<open>The consumer\<close>







subsection \<open>The service refines the interleaved model\<close>










subsection \<open>A crash loses no payment\<close>





end
