(* ===== verification/Spec2Isabelle.thy ===== *)
theory Spec2Isabelle
  imports SagaOperations Service
begin

text \<open>
  Verification of the payment service: a Go service that takes a payment request over HTTP, drives
  the payment through fraud screening, a hold at the ledger, authorization and capture at a payment
  processor and the capture at the ledger, and publishes what happened to Kafka. Everything it
  knows is in its database; it may be killed between any two of its transactions.

  \<^bold>\<open>The program and its parts.\<close> A request passes the gateway assertion check
  (\<open>internal/gatewayauth\<close>) and the step-up gate, claims its idempotency key
  (\<open>internal/idempotency\<close>), inserts the payment with its first event in one transaction and starts
  a driver (\<open>internal/httpapi\<close>). The driver is \<open>Advance\<close> of the saga engine (\<open>internal/saga\<close>): it
  loads the payment, makes the one call its step asks for (\<open>internal/fraudclient\<close>,
  \<open>internal/accountclient\<close>, \<open>internal/psp\<close>), records the outcome in a guarded update together with
  an event (\<open>internal/outbox\<close>), tells the subscribers of the payment (\<open>internal/pubsub\<close>) and goes
  on. Tickers resume what was left behind, expire what waits too long and reconcile the books with
  the processor's. The relay publishes the events in the schema registry's wire format
  (\<open>internal/events\<close>), the consumer (\<open>internal/consumer\<close>) takes in the outcomes a wallet processor
  reports later. \<open>internal/platform\<close> reads the configuration, \<open>cmd/server\<close> starts and stops it all.

  \<^bold>\<open>How the model corresponds to the code.\<close> \<open>Model\<close> has the tables of \<open>migrations/\<close> as
  records of lists, the structs and errors of the code as records and datatypes, and two more
  records. \<open>sys\<close> is the running service: database, subscribers, goroutines started and not yet
  run, caches, and two histories that no operation reads, of the money calls made and of the
  records Kafka acknowledged. \<open>env\<close> is what the service calls and does not own, one field per call,
  each on a state \<open>'w\<close> of its own: so answers may differ from call to call, and nothing is assumed
  of them that a property does not name. An operation of the code is one definition under its own
  name, from \<open>sys\<close> to an answer and a \<open>sys\<close>; errors are values (\<open>go_error\<close>), a panic is the
  value \<open>Panic\<close>, a transaction that failed, or succeeded with its acknowledgement lost, is an
  outcome of \<open>db_commit\<close>. Strings are byte strings, times and durations are nanoseconds.

  \<^item> \<open>Prelude\<close>: SQL's statements on lists, decimal output, collections of rules.
  \<^item> \<open>PubSub\<close>: \<open>pubsub.go\<close>. The locale \<open>broadcast\<close> states a bus as bounded queues; \<open>updates\<close> interprets it.
  \<^item> \<open>Store\<close>, \<open>Saga\<close>, \<open>Sweeps\<close>: \<open>saga.go\<close>, its persistence helpers, the steps and the driving loop,
    the sweepers, \<open>CompleteFromGateway\<close>, \<open>ResumeAfterStepUp\<close>, \<open>WriteRequestedEvent\<close>; and \<open>Writer.Write\<close>
    of \<open>outbox.go\<close>.
  \<^item> \<open>PSP\<close>: \<open>psp.go\<close>, with the locale \<open>payment_processor\<close> for its Go interface, interpreted for the
    card and the wallet processor. \<open>Clients\<close>: \<open>fraudclient.go\<close> and \<open>accountclient.go\<close>.
  \<^item> \<open>Idempotency\<close>: \<open>idempotency.go\<close>, its state machine of a key (\<open>key_step\<close>, \<open>begin_spec\<close>) and the
    locale \<open>claim_store\<close>, interpreted as \<open>idem\<close>; \<open>Sha256\<close>: the hash of the body.
  \<^item> \<open>Gateway\<close>, \<open>StepUp\<close>: \<open>gatewayauth.go\<close> and \<open>stepup.go\<close>. \<open>Config\<close>: \<open>config.go\<close>.
  \<^item> \<open>GoText\<close>, \<open>GoTime\<close>, \<open>Json\<close>, \<open>JsonDecode\<close>, \<open>JsonPrint\<close>: what the code uses of the standard library
    (\<open>strings\<close>, \<open>strconv\<close>, UTF-8, RFC 3339, \<open>time.ParseDuration\<close>, \<open>encoding/json\<close> both ways).
  \<^item> \<open>Events\<close>, \<open>Validate\<close>: \<open>events.go\<close> and \<open>validate.go\<close>. \<open>Relay\<close>: the relay of \<open>outbox.go\<close>.
    \<open>Consumer\<close>: \<open>consumer.go\<close>, with the locale \<open>consumer_relation\<close> for whatever holds across a turn
    of its loop, interpreted twice (\<open>memory\<close>, \<open>turns\<close>). \<open>Reconcile\<close>: \<open>reconcile.go\<close>.
  \<^item> \<open>Http\<close>, \<open>Server\<close>, \<open>Stream_Events\<close>: \<open>server.go\<close>, its answers, every handler, the event stream, the
    routes, and \<open>serve\<close>, the handler behind the middleware.
  \<^item> \<open>Process\<close>: \<open>cmd/server/main.go\<close> and \<open>New\<close> of \<open>gatewayauth.go\<close>: start, migrations, workers, stop,
    probe. \<open>Service\<close>: the whole program as one step relation.

  \<^bold>\<open>What is shown.\<close> \<open>Interleaving\<close> lets any number of drivers, sweeps, completions, resumes and
  requests run piece by piece on one database (\<open>conf_step\<close>, \<open>reachable\<close>); a piece is a load, or one
  step from its external call to its transaction. \<open>Invariants\<close> states what holds in between
  (\<open>sys_ok\<close>: a row's step and status agree with its hold, its reference, the calls made for it and
  the events written for it), \<open>SagaSafety\<close> that every operation keeps it and that rows only move
  forward (\<open>ext\<close>, \<open>grows\<close>). \<open>Lifecycle\<close> is the abstract state machine of a payment, which each step
  refines, and the termination of the loop. \<open>Liveness\<close> is the way to success when every service says
  yes (\<open>cooperative\<close>), the absence of panics, and what the loop leaves alone (\<open>kept\<close>).
  \<open>Scenario\<close> has a scheduler and the environments of the witnesses. \<open>ServerFacts\<close>,
  \<open>ServerRefinement\<close> and \<open>ServerAccept\<close> say what each handler does to the service and that it does it
  in steps of the interleaved model. On these rest the properties, in \<open>SagaProperties\<close>,
  \<open>SagaOperations\<close>, \<open>IdempotencyProperties\<close>, \<open>GatewayProperties\<close>, \<open>EventProperties\<close>,
  \<open>ReconcileProperties\<close>, \<open>ConfigProperties\<close>, \<open>ServerProperties\<close>, \<open>StreamProperties\<close>, \<open>EndToEnd\<close>,
  \<open>Process\<close> and \<open>Service\<close>:

  \<^item> money: a payment that succeeded was captured at the processor and booked at the ledger, in that
    order, with exactly one terminal event; a terminal payment never changes;
  \<^item> composition: the whole program, crashes and restarts included, refines the interleaved model, an
    accepted request is collected, and so is a payment a crash left behind at any step;
  \<^item> access: only a verified caller, with a recent second factor where the amount asks for it, creates
    a payment, for himself, once per key; nobody sees another's payments, not by the stream either;
  \<^item> failures: an unreachable processor declines nothing, the fraud policy during an outage, what a
    database or a registry outage does to the consumer;
  \<^item> events: the relay marks only what was acknowledged, catches up, and what it frames reads back;
    offsets are committed behind records that are safe; a completion takes effect once;
  \<^item> books: the reconciliation computes its specification and a clean result means agreement;
  \<^item> and, as theorems too, what the code gets wrong: a wallet sweep that cannot run, a timeout that
    retries postpone, a sweep that fails a collected payment, a replaced response, a relay that one
    unresolved topic stops, amounts beyond \<open>2^53\<close>, a dead letter for a valid completion, a stream
    that stays open, an interval that stops the process.

  \<^bold>\<open>Bounds.\<close> \<open>advance\<close> carries a number of iterations: six are enough from any step and more change
  nothing (\<open>advance_six\<close>), and \<open>Advance\<close> is that value. The waits for the registry
  inside \<open>handle\<close> have a bound because the code has none: \<open>None\<close> means still waiting, an answer does
  not depend on the bound (\<open>handle_mono\<close>, \<open>attempts_mono\<close>), and one round is enough when the registry
  answers. The recursions of the parsers and of \<open>ParseDuration\<close> carry the length of what is left,
  which they consume. \<open>new_attempts\<close>, \<open>retry\<close> and \<open>attempts\<close> have the bounds of the code.

  \<^bold>\<open>What is assumed.\<close> \<open>uuid.UUID.String\<close> is injective; ids drawn while a request is handled are
  fresh (\<open>fresh_ids\<close>; for payments the primary key enforces it); the environment decides the
  database's part once per transaction. The HTTP and gRPC clients, the Kafka client, the JWT, JWKS and
  JSON-schema libraries, the circuit breaker, the migration library, the UUID library and
  the clock are parameters.

  \<^bold>\<open>Not modelled.\<close> Log lines; contexts, but for their effects (a deadline, a cancelled wait);
  the timing of tickers (any order and number of ticks is allowed); the body of the
  multiplexer's own answers; the timeouts of the HTTP server; the embedded migration files, whose
  tables and constraints the model has as records and as \<open>row_allowed\<close>; constructors that only
  store their arguments.
\<close>

end
